theory Spec2Isabelle
  imports Main "HOL-Library.List_Lexorder" "HOL-Library.Char_ord"
begin

section \<open>Media stream manager: data model\<close>

text \<open>
  A shallow embedding of \<^verbatim>\<open>content/browser/renderer_host/media/media_stream_manager.cc\<close>.
  Member variables of the C++ classes keep their names without the trailing underscore
  (\<^verbatim>\<open>requests_\<close> is \<open>requests\<close>, \<^verbatim>\<open>state_\<close> is \<open>state_vector\<close>).
  \<^verbatim>\<open>DCHECK\<close> and \<^verbatim>\<open>NOTREACHED\<close> are compiled out (release build); \<^verbatim>\<open>CHECK\<close>,
  a dereference of a null pointer and an access through an end iterator stop the
  program, which is the result \<open>None\<close> of the operation.
\<close>

subsection \<open>Enumerations of the public headers\<close>

text \<open>
  Modelled from the spec: the enumeration \<^verbatim>\<open>MediaStreamType\<close> is declared in
  \<^verbatim>\<open>content/public/common/media_stream_request.h\<close>, which is not part of the sources.
  The constructors are the enumerators the source file names; their order is the order of
  the glossary (microphone audio, camera video, tab audio, tab video, desktop video,
  loopback audio), between \<^verbatim>\<open>MEDIA_NO_SERVICE\<close> and the count \<^verbatim>\<open>NUM_MEDIA_TYPES\<close>.
\<close>

datatype MediaStreamType =
    MEDIA_NO_SERVICE
  | MEDIA_DEVICE_AUDIO_CAPTURE
  | MEDIA_DEVICE_VIDEO_CAPTURE
  | MEDIA_TAB_AUDIO_CAPTURE
  | MEDIA_TAB_VIDEO_CAPTURE
  | MEDIA_DESKTOP_VIDEO_CAPTURE
  | MEDIA_LOOPBACK_AUDIO_CAPTURE
  | NUM_MEDIA_TYPES

text \<open>The integer value of an enumerator, used to index the per-kind arrays.\<close>

fun type_index :: "MediaStreamType \<Rightarrow> nat" where
  "type_index MEDIA_NO_SERVICE = 0"
| "type_index MEDIA_DEVICE_AUDIO_CAPTURE = 1"
| "type_index MEDIA_DEVICE_VIDEO_CAPTURE = 2"
| "type_index MEDIA_TAB_AUDIO_CAPTURE = 3"
| "type_index MEDIA_TAB_VIDEO_CAPTURE = 4"
| "type_index MEDIA_DESKTOP_VIDEO_CAPTURE = 5"
| "type_index MEDIA_LOOPBACK_AUDIO_CAPTURE = 6"
| "type_index NUM_MEDIA_TYPES = 7"

text \<open>
  The range of the loops \<^verbatim>\<open>for (int i = MEDIA_NO_SERVICE + 1; i < NUM_MEDIA_TYPES; ++i)\<close>.
\<close>

definition media_types :: "MediaStreamType list" where
  "media_types =
     [MEDIA_DEVICE_AUDIO_CAPTURE, MEDIA_DEVICE_VIDEO_CAPTURE, MEDIA_TAB_AUDIO_CAPTURE,
      MEDIA_TAB_VIDEO_CAPTURE, MEDIA_DESKTOP_VIDEO_CAPTURE, MEDIA_LOOPBACK_AUDIO_CAPTURE]"

text \<open>
  Modelled from the spec: \<^verbatim>\<open>IsAudioMediaType\<close> and \<^verbatim>\<open>IsVideoMediaType\<close> are declared
  in the same missing header; the audio kinds are microphone, tab and loopback audio, the
  video kinds are camera, tab and desktop video.
\<close>

fun IsAudioMediaType :: "MediaStreamType \<Rightarrow> bool" where
  "IsAudioMediaType MEDIA_DEVICE_AUDIO_CAPTURE = True"
| "IsAudioMediaType MEDIA_TAB_AUDIO_CAPTURE = True"
| "IsAudioMediaType MEDIA_LOOPBACK_AUDIO_CAPTURE = True"
| "IsAudioMediaType _ = False"

fun IsVideoMediaType :: "MediaStreamType \<Rightarrow> bool" where
  "IsVideoMediaType MEDIA_DEVICE_VIDEO_CAPTURE = True"
| "IsVideoMediaType MEDIA_TAB_VIDEO_CAPTURE = True"
| "IsVideoMediaType MEDIA_DESKTOP_VIDEO_CAPTURE = True"
| "IsVideoMediaType _ = False"

text \<open>
  Modelled from the spec: \<^verbatim>\<open>MediaRequestState\<close> (\<^verbatim>\<open>media_request_state.h\<close>) and
  \<^verbatim>\<open>MediaStreamRequestType\<close> are the per-kind states and the request kinds of the
  data model.
\<close>

datatype MediaRequestState =
    MEDIA_REQUEST_STATE_NOT_REQUESTED
  | MEDIA_REQUEST_STATE_REQUESTED
  | MEDIA_REQUEST_STATE_PENDING_APPROVAL
  | MEDIA_REQUEST_STATE_OPENING
  | MEDIA_REQUEST_STATE_DONE
  | MEDIA_REQUEST_STATE_CLOSING
  | MEDIA_REQUEST_STATE_ERROR

datatype MediaStreamRequestType =
    MEDIA_DEVICE_ACCESS
  | MEDIA_GENERATE_STREAM
  | MEDIA_ENUMERATE_DEVICES
  | MEDIA_OPEN_DEVICE

subsection \<open>Devices and request descriptors\<close>

text \<open>
  The structs of the headers, with the fields the source file reads and writes. A
  \<^verbatim>\<open>GURL\<close> is its text; a \<^verbatim>\<open>ResourceContext*\<close>, a \<^verbatim>\<open>MediaStreamRequester*\<close> and a
  callback are handles, \<open>None\<close> being the null pointer or the null callback.
\<close>

type_synonym GURL = string
type_synonym ResourceContext = "nat option"

record AudioDeviceParameters =
  sample_rate :: int
  channel_layout :: int

record MediaStreamDevice =
  device_type :: MediaStreamType
  device_id :: string
  device_name :: string
  input :: AudioDeviceParameters
  matched_output :: AudioDeviceParameters

record StreamDeviceInfo =
  device :: MediaStreamDevice
  session_id :: int

record MediaStreamRequest =
  render_process_id :: int
  render_view_id :: int
  page_request_id :: int
  security_origin :: GURL
  request_type :: MediaStreamRequestType
  requested_audio_device_id :: string
  requested_video_device_id :: string
  audio_type :: MediaStreamType
  video_type :: MediaStreamType
  tab_capture_device_id :: string

record StreamOptions =
  options_audio_type :: MediaStreamType
  options_video_type :: MediaStreamType
  options_audio_device_id :: string
  options_video_device_id :: string

datatype MediaStreamUIProxy = RealUIProxy | FakeUIProxy

record DeviceRequest =
  requester :: "nat option"
  request :: MediaStreamRequest
  requesting_process_id :: int
  requesting_view_id :: int
  resource_context :: ResourceContext
  devices :: "StreamDeviceInfo list"
  callback :: "nat option"
  ui_proxy :: "MediaStreamUIProxy option"
  state_vector :: "MediaRequestState list"

record EnumerationCache =
  valid :: bool
  cache_devices :: "StreamDeviceInfo list"

subsection \<open>What the manager does to its collaborators\<close>

text \<open>
  Every call the manager makes on a requester, a device provider, the permission surface,
  an observer or the task queue is appended to a log, in the order of the calls.
\<close>

datatype effect =
    StreamGenerated nat string "StreamDeviceInfo list" "StreamDeviceInfo list"
  | StreamGenerationFailed nat string
  | DeviceOpened nat string StreamDeviceInfo
  | RequesterDevicesEnumerated nat string "StreamDeviceInfo list"
  | DeviceStopped nat int string StreamDeviceInfo
  | CallbackRun nat "MediaStreamDevice list" "MediaStreamUIProxy option"
  | ProviderEnumerateDevices MediaStreamType
  | ProviderOpen MediaStreamDevice int
  | ProviderClose MediaStreamType int
  | VideoProviderUseFakeDevice
  | AudioProviderUseFakeDevice
  | UIRequestAccess string MediaStreamUIProxy MediaStreamRequest
  | UISetAvailableDevices "MediaStreamDevice list"
  | UIOnStarted string
  | OnMediaRequestStateChanged int int int MediaStreamType string MediaRequestState
  | OnAudioCaptureDevicesChanged "MediaStreamDevice list"
  | OnVideoCaptureDevicesChanged "MediaStreamDevice list"
  | AddDevicesChangedObserver
  | RemoveDevicesChangedObserver
  | PostTaskSetupRequest string
  | PostTaskDoEnumerateDevices string

text \<open>
  The functions and globals of other files that the manager calls, as parameters:
  \<^verbatim>\<open>GURL::is_valid\<close>, \<^verbatim>\<open>GetHMACForMediaDeviceID\<close>, the three functions of
  \<^verbatim>\<open>WebContentsCaptureUtil\<close>, whether \<^verbatim>\<open>GetMediaObserver()\<close> and
  \<^verbatim>\<open>base::SystemMonitor::Get()\<close> are non-null, the command-line switches, the session
  id a provider's \<^verbatim>\<open>Open\<close> returns (it may depend on everything that happened before),
  \<^verbatim>\<open>AudioInputDeviceManager::GetOpenedDeviceInfoById\<close>, the sample rate of
  \<^verbatim>\<open>GetDefaultOutputStreamParameters\<close> and the enumerator
  \<^verbatim>\<open>media::CHANNEL_LAYOUT_STEREO\<close>.
\<close>

record env =
  is_valid :: "GURL \<Rightarrow> bool"
  GetHMACForMediaDeviceID :: "ResourceContext \<Rightarrow> GURL \<Rightarrow> string \<Rightarrow> string"
  AppendWebContentsDeviceScheme :: "string \<Rightarrow> string"
  StripWebContentsDeviceScheme :: "string \<Rightarrow> string"
  ExtractTabCaptureTarget :: "string \<Rightarrow> (int \<times> int) option"
  media_observer :: bool
  system_monitor :: bool
  switch_fake_device :: bool
  switch_fake_ui :: bool
  provider_Open :: "effect list \<Rightarrow> MediaStreamDevice \<Rightarrow> int"
  GetOpenedDeviceInfoById :: "int \<Rightarrow> StreamDeviceInfo option"
  default_output_sample_rate :: int
  CHANNEL_LAYOUT_STEREO :: int

text \<open>
  Modelled from the spec: \<^verbatim>\<open>DoesMediaDeviceIDMatchHMAC\<close> (\<^verbatim>\<open>media_device_id.h\<close>, not
  part of the sources) tells whether a source id is the keyed transform of a true id:
  \<open>sourceId = HMAC(key, origin, trueId)\<close>.
\<close>

definition DoesMediaDeviceIDMatchHMAC ::
  "env \<Rightarrow> ResourceContext \<Rightarrow> GURL \<Rightarrow> string \<Rightarrow> string \<Rightarrow> bool" where
  "DoesMediaDeviceIDMatchHMAC E rc origin source_id raw_id \<longleftrightarrow>
     GetHMACForMediaDeviceID E rc origin raw_id = source_id"

subsection \<open>The manager\<close>

text \<open>
  \<^verbatim>\<open>requests_\<close> is a \<^verbatim>\<open>std::map\<close> from labels to requests: a list of pairs in the
  order of the labels, which is the order of every iteration over it. The two arrays
  indexed by a media kind have \<^verbatim>\<open>NUM_MEDIA_TYPES\<close> entries. The reference counts are
  C++ \<^verbatim>\<open>int\<close>s of 32 bits: every entry is kept as the integer it denotes, and
  \<^verbatim>\<open>++\<close> and \<^verbatim>\<open>--\<close> wrap around (\<open>int32\<close> below), as they do in two's complement.
\<close>

record MediaStreamManager =
  requests :: "(string \<times> DeviceRequest) list"
  audio_enumeration_cache :: EnumerationCache
  video_enumeration_cache :: EnumerationCache
  active_enumeration_ref_count :: "int list"
  monitoring_started :: bool
  use_fake_ui :: bool
  fake_ui :: bool
  effects :: "effect list"

definition emit :: "effect list \<Rightarrow> MediaStreamManager \<Rightarrow> MediaStreamManager" where
  "emit es m = m\<lparr>effects := effects m @ es\<rparr>"

text \<open>The state of the constructor \<^verbatim>\<open>MediaStreamManager(media::AudioManager*)\<close>.\<close>

definition MediaStreamManager_new :: MediaStreamManager where
  "MediaStreamManager_new =
     \<lparr>requests = [],
      audio_enumeration_cache = \<lparr>valid = False, cache_devices = []\<rparr>,
      video_enumeration_cache = \<lparr>valid = False, cache_devices = []\<rparr>,
      active_enumeration_ref_count = replicate (type_index NUM_MEDIA_TYPES) 0,
      monitoring_started = False,
      use_fake_ui = False,
      fake_ui = False,
      effects = []\<rparr>"

subsection \<open>The device request\<close>

text \<open>The helper \<^verbatim>\<open>Requested\<close>: a media kind is part of the options or not.\<close>

definition Requested :: "MediaStreamRequest \<Rightarrow> MediaStreamType \<Rightarrow> bool" where
  "Requested req stream_type \<longleftrightarrow>
     audio_type req = stream_type \<or> video_type req = stream_type"

text \<open>The constructors of \<^verbatim>\<open>MediaStreamRequest\<close> and of \<^verbatim>\<open>DeviceRequest\<close>.\<close>

definition MediaStreamRequest_new ::
  "int \<Rightarrow> int \<Rightarrow> int \<Rightarrow> GURL \<Rightarrow> MediaStreamRequestType \<Rightarrow> string \<Rightarrow> string \<Rightarrow>
   MediaStreamType \<Rightarrow> MediaStreamType \<Rightarrow> MediaStreamRequest" where
  "MediaStreamRequest_new pid vid page origin rt audio_id video_id at vt =
     \<lparr>render_process_id = pid, render_view_id = vid, page_request_id = page,
      security_origin = origin, request_type = rt,
      requested_audio_device_id = audio_id, requested_video_device_id = video_id,
      audio_type = at, video_type = vt, tab_capture_device_id = []\<rparr>"

definition DeviceRequest_new ::
  "nat option \<Rightarrow> MediaStreamRequest \<Rightarrow> int \<Rightarrow> int \<Rightarrow> ResourceContext \<Rightarrow> DeviceRequest" where
  "DeviceRequest_new rq req pid vid rc =
     \<lparr>requester = rq, request = req, requesting_process_id = pid,
      requesting_view_id = vid, resource_context = rc, devices = [],
      callback = None, ui_proxy = None,
      state_vector = replicate (type_index NUM_MEDIA_TYPES) MEDIA_REQUEST_STATE_NOT_REQUESTED\<rparr>"

text \<open>
  \<^verbatim>\<open>state(stream_type)\<close> reads \<^verbatim>\<open>state_[stream_type]\<close>. The vector has the indices
  \<open>0\<close> to \<open>6\<close>; the index of \<^verbatim>\<open>NUM_MEDIA_TYPES\<close> is outside it, where C++ gives no
  meaning to the read and HOL gives no value to \<open>!\<close>.
\<close>

definition state :: "DeviceRequest \<Rightarrow> MediaStreamType \<Rightarrow> MediaRequestState" where
  "state r stream_type = state_vector r ! type_index stream_type"

text \<open>
  \<^verbatim>\<open>SetState\<close> updates one entry, or every entry from index \<open>1\<close> on when it is given
  \<^verbatim>\<open>NUM_MEDIA_TYPES\<close>, and then notifies the media observer of tab capture requests
  and of every change to \<^verbatim>\<open>CLOSING\<close>. The notification carries the parameter
  \<^verbatim>\<open>stream_type\<close> (the loop variable of the same name is local to the loop). The
  result is the request and the notifications.
\<close>

definition SetState ::
  "env \<Rightarrow> DeviceRequest \<Rightarrow> MediaStreamType \<Rightarrow> MediaRequestState \<Rightarrow>
   DeviceRequest \<times> effect list" where
  "SetState E r stream_type new_state =
     (let r' = r\<lparr>state_vector :=
                  (if stream_type = NUM_MEDIA_TYPES
                   then fold (\<lambda>t v. v[type_index t := new_state]) media_types (state_vector r)
                   else (state_vector r)[type_index stream_type := new_state])\<rparr>
      in if video_type (request r) \<noteq> MEDIA_TAB_VIDEO_CAPTURE \<and>
            audio_type (request r) \<noteq> MEDIA_TAB_AUDIO_CAPTURE \<and>
            new_state \<noteq> MEDIA_REQUEST_STATE_CLOSING
         then (r', [])
         else if \<not> media_observer E then (r', [])
         else (r', [OnMediaRequestStateChanged
                      (render_process_id (request r)) (render_view_id (request r))
                      (page_request_id (request r)) stream_type
                      (StripWebContentsDeviceScheme E (tab_capture_device_id (request r)))
                      new_state]))"

subsection \<open>The request registry\<close>

definition FindRequest :: "MediaStreamManager \<Rightarrow> string \<Rightarrow> DeviceRequest option" where
  "FindRequest m label = map_of (requests m) label"

text \<open>
  \<^verbatim>\<open>AddRequest\<close> draws labels from \<^verbatim>\<open>RandomLabel()\<close> until one is not in the
  registry. The random generator is outside the program: the labels it returns on the
  successive calls are the list \<open>labels\<close>, and \<open>None\<close> says that the loop has not
  ended when the list is used up.
\<close>

fun AddRequest ::
  "MediaStreamManager \<Rightarrow> DeviceRequest \<Rightarrow> string list \<Rightarrow> (string \<times> MediaStreamManager) option" where
  "AddRequest m r [] = None"
| "AddRequest m r (unique_label # labels) =
     (if FindRequest m unique_label \<noteq> None then AddRequest m r labels
      else Some (unique_label,
                 m\<lparr>requests := insort_key fst (unique_label, r) (requests m)\<rparr>))"

text \<open>
  \<^verbatim>\<open>DeleteRequest\<close> dereferences the iterator \<^verbatim>\<open>find\<close> returns, without a check: on
  a label that is not in the registry it does not return.
\<close>

definition DeleteRequest :: "MediaStreamManager \<Rightarrow> string \<Rightarrow> MediaStreamManager option" where
  "DeleteRequest m label =
     (if FindRequest m label = None then None
      else Some (m\<lparr>requests := filter (\<lambda>p. fst p \<noteq> label) (requests m)\<rparr>))"

text \<open>
  The code changes a request through the pointer the registry holds. In the model the
  changed request is written back under its label.
\<close>

definition store_request ::
  "string \<Rightarrow> DeviceRequest \<Rightarrow> MediaStreamManager \<Rightarrow> MediaStreamManager" where
  "store_request label r m =
     m\<lparr>requests := map (\<lambda>p. if fst p = label then (label, r) else p) (requests m)\<rparr>"

definition request_SetState ::
  "env \<Rightarrow> MediaStreamManager \<Rightarrow> string \<Rightarrow> MediaStreamType \<Rightarrow> MediaRequestState \<Rightarrow>
   MediaStreamManager" where
  "request_SetState E m label stream_type new_state =
     (case FindRequest m label of
        None \<Rightarrow> m
      | Some r \<Rightarrow>
          emit (snd (SetState E r stream_type new_state))
            (store_request label (fst (SetState E r stream_type new_state)) m))"

subsection \<open>Closing and stopping devices\<close>

text \<open>
  \<^verbatim>\<open>GetDeviceManager\<close> returns the video or the audio provider, and a null pointer for
  any other kind; \<open>True\<close> says that there is a provider.
\<close>

definition GetDeviceManager :: "MediaStreamType \<Rightarrow> bool" where
  "GetDeviceManager stream_type \<longleftrightarrow>
     IsVideoMediaType stream_type \<or> IsAudioMediaType stream_type"

text \<open>
  \<^verbatim>\<open>CloseDevice\<close>: close the session with its provider, then set the kind to
  \<^verbatim>\<open>CLOSING\<close> in every request, once for every device entry of the session.
\<close>

fun CloseDevice_devices ::
  "env \<Rightarrow> DeviceRequest \<Rightarrow> MediaStreamType \<Rightarrow> int \<Rightarrow> StreamDeviceInfo list \<Rightarrow>
   DeviceRequest \<times> effect list" where
  "CloseDevice_devices E r t sid [] = (r, [])"
| "CloseDevice_devices E r t sid (d # ds) =
     (if session_id d = sid \<and> device_type (device d) = t
      then (let r1 = fst (SetState E r t MEDIA_REQUEST_STATE_CLOSING);
                es1 = snd (SetState E r t MEDIA_REQUEST_STATE_CLOSING);
                res = CloseDevice_devices E r1 t sid ds
            in (fst res, es1 @ snd res))
      else CloseDevice_devices E r t sid ds)"

fun CloseDevice_requests ::
  "env \<Rightarrow> MediaStreamType \<Rightarrow> int \<Rightarrow> (string \<times> DeviceRequest) list \<Rightarrow>
   (string \<times> DeviceRequest) list \<times> effect list" where
  "CloseDevice_requests E t sid [] = ([], [])"
| "CloseDevice_requests E t sid (p # ps) =
     (let res1 = CloseDevice_devices E (snd p) t sid (devices (snd p));
          res = CloseDevice_requests E t sid ps
      in ((fst p, fst res1) # fst res, snd res1 @ snd res))"

definition CloseDevice ::
  "env \<Rightarrow> MediaStreamManager \<Rightarrow> MediaStreamType \<Rightarrow> int \<Rightarrow> MediaStreamManager option" where
  "CloseDevice E m t sid =
     (if \<not> GetDeviceManager t then None
      else Some (m\<lparr>requests := fst (CloseDevice_requests E t sid (requests m)),
                   effects := effects m @ [ProviderClose t sid] @
                              snd (CloseDevice_requests E t sid (requests m))\<rparr>))"

text \<open>
  \<^verbatim>\<open>StopDevice\<close>. The inner loop walks the device list of one request: \<open>kept\<close> are the
  entries already passed, \<open>d # ds\<close> the entries to come, and the list of the request is
  \<open>kept @ d # ds\<close>. A matching entry is erased; before that the session is closed if
  the kind of the request is \<^verbatim>\<open>DONE\<close> at that moment. The outer loop walks the registry
  in the order of the labels and deletes each request whose list is empty after its
  inner loop.
\<close>

definition set_devices ::
  "string \<Rightarrow> StreamDeviceInfo list \<Rightarrow> MediaStreamManager \<Rightarrow> MediaStreamManager" where
  "set_devices label ds m =
     m\<lparr>requests := map (\<lambda>p. if fst p = label then (fst p, (snd p)\<lparr>devices := ds\<rparr>) else p)
                      (requests m)\<rparr>"

fun StopDevice_devices ::
  "env \<Rightarrow> MediaStreamManager \<Rightarrow> string \<Rightarrow> MediaStreamType \<Rightarrow> int \<Rightarrow>
   StreamDeviceInfo list \<Rightarrow> StreamDeviceInfo list \<Rightarrow> MediaStreamManager option" where
  "StopDevice_devices E m label t sid kept [] = Some m"
| "StopDevice_devices E m label t sid kept (d # ds) =
     (if device_type (device d) \<noteq> t \<or> session_id d \<noteq> sid
      then StopDevice_devices E m label t sid (kept @ [d]) ds
      else (case FindRequest m label of
              None \<Rightarrow> None
            | Some r \<Rightarrow>
                (case (if state r t = MEDIA_REQUEST_STATE_DONE then CloseDevice E m t sid
                       else Some m) of
                   None \<Rightarrow> None
                 | Some m1 \<Rightarrow>
                     StopDevice_devices E (set_devices label (kept @ ds) m1) label t sid
                       kept ds)))"

fun StopDevice_requests ::
  "env \<Rightarrow> MediaStreamManager \<Rightarrow> MediaStreamType \<Rightarrow> int \<Rightarrow> string list \<Rightarrow>
   MediaStreamManager option" where
  "StopDevice_requests E m t sid [] = Some m"
| "StopDevice_requests E m t sid (label # labels) =
     (case FindRequest m label of
        None \<Rightarrow> None
      | Some r \<Rightarrow>
          (case StopDevice_devices E m label t sid [] (devices r) of
             None \<Rightarrow> None
           | Some m1 \<Rightarrow>
               (case FindRequest m1 label of
                  None \<Rightarrow> None
                | Some r1 \<Rightarrow>
                    (case (if devices r1 = [] then DeleteRequest m1 label else Some m1) of
                       None \<Rightarrow> None
                     | Some m2 \<Rightarrow> StopDevice_requests E m2 t sid labels))))"

definition StopDevice ::
  "env \<Rightarrow> MediaStreamManager \<Rightarrow> MediaStreamType \<Rightarrow> int \<Rightarrow> MediaStreamManager option" where
  "StopDevice E m t sid = StopDevice_requests E m t sid (map fst (requests m))"

text \<open>
  \<^verbatim>\<open>CancelRequest\<close>. An enumeration request is deleted at once. For any other request
  the sessions of the devices whose kind is \<^verbatim>\<open>OPENING\<close> or \<^verbatim>\<open>DONE\<close> are closed,
  every kind of the request is set to \<^verbatim>\<open>CLOSING\<close> (\<open>CancelRequest_closing\<close> is the
  manager at that point), and the request is deleted.
\<close>

fun CancelRequest_devices ::
  "env \<Rightarrow> MediaStreamManager \<Rightarrow> string \<Rightarrow> StreamDeviceInfo list \<Rightarrow>
   MediaStreamManager option" where
  "CancelRequest_devices E m label [] = Some m"
| "CancelRequest_devices E m label (d # ds) =
     (case FindRequest m label of
        None \<Rightarrow> None
      | Some r \<Rightarrow>
          (if state r (device_type (device d)) \<noteq> MEDIA_REQUEST_STATE_OPENING \<and>
              state r (device_type (device d)) \<noteq> MEDIA_REQUEST_STATE_DONE
           then CancelRequest_devices E m label ds
           else (case CloseDevice E m (device_type (device d)) (session_id d) of
                   None \<Rightarrow> None
                 | Some m1 \<Rightarrow> CancelRequest_devices E m1 label ds)))"

definition CancelRequest_closing ::
  "env \<Rightarrow> MediaStreamManager \<Rightarrow> string \<Rightarrow> DeviceRequest \<Rightarrow> MediaStreamManager option" where
  "CancelRequest_closing E m label r =
     (case CancelRequest_devices E m label (devices r) of
        None \<Rightarrow> None
      | Some m1 \<Rightarrow>
          Some (request_SetState E m1 label NUM_MEDIA_TYPES MEDIA_REQUEST_STATE_CLOSING))"

definition CancelRequest ::
  "env \<Rightarrow> MediaStreamManager \<Rightarrow> string \<Rightarrow> MediaStreamManager option" where
  "CancelRequest E m label =
     (case FindRequest m label of
        None \<Rightarrow> Some m
      | Some r \<Rightarrow>
          (if request_type (request r) = MEDIA_ENUMERATE_DEVICES then DeleteRequest m label
           else (case CancelRequest_closing E m label r of
                   None \<Rightarrow> None
                 | Some m1 \<Rightarrow> DeleteRequest m1 label)))"

fun CancelAllRequests_loop ::
  "env \<Rightarrow> MediaStreamManager \<Rightarrow> int \<Rightarrow> string list \<Rightarrow> MediaStreamManager option" where
  "CancelAllRequests_loop E m pid [] = Some m"
| "CancelAllRequests_loop E m pid (label # labels) =
     (case FindRequest m label of
        None \<Rightarrow> None
      | Some r \<Rightarrow>
          (if requesting_process_id r \<noteq> pid then CancelAllRequests_loop E m pid labels
           else (case CancelRequest E m label of
                   None \<Rightarrow> None
                 | Some m1 \<Rightarrow> CancelAllRequests_loop E m1 pid labels)))"

definition CancelAllRequests ::
  "env \<Rightarrow> MediaStreamManager \<Rightarrow> int \<Rightarrow> MediaStreamManager option" where
  "CancelAllRequests E m pid = CancelAllRequests_loop E m pid (map fst (requests m))"

text \<open>
  \<^verbatim>\<open>StopStreamDevice\<close>: the first device with the given id, in the first stream
  request of the render view that has one, is stopped.
\<close>

fun StopStreamDevice_loop ::
  "env \<Rightarrow> MediaStreamManager \<Rightarrow> int \<Rightarrow> int \<Rightarrow> string \<Rightarrow> (string \<times> DeviceRequest) list \<Rightarrow>
   MediaStreamManager option" where
  "StopStreamDevice_loop E m pid vid dev_id [] = Some m"
| "StopStreamDevice_loop E m pid vid dev_id (p # ps) =
     (if requesting_process_id (snd p) \<noteq> pid \<or> requesting_view_id (snd p) \<noteq> vid \<or>
         request_type (request (snd p)) \<noteq> MEDIA_GENERATE_STREAM
      then StopStreamDevice_loop E m pid vid dev_id ps
      else (case find (\<lambda>d. device_id (device d) = dev_id) (devices (snd p)) of
              None \<Rightarrow> StopStreamDevice_loop E m pid vid dev_id ps
            | Some d \<Rightarrow> StopDevice E m (device_type (device d)) (session_id d)))"

definition StopStreamDevice ::
  "env \<Rightarrow> MediaStreamManager \<Rightarrow> int \<Rightarrow> int \<Rightarrow> string \<Rightarrow> MediaStreamManager option" where
  "StopStreamDevice E m pid vid dev_id = StopStreamDevice_loop E m pid vid dev_id (requests m)"

subsection \<open>Device identity translation\<close>

definition enumeration_cache :: "MediaStreamManager \<Rightarrow> MediaStreamType \<Rightarrow> EnumerationCache" where
  "enumeration_cache m stream_type =
     (if stream_type = MEDIA_DEVICE_AUDIO_CAPTURE then audio_enumeration_cache m
      else video_enumeration_cache m)"

text \<open>
  \<^verbatim>\<open>TranslateSourceIdToDeviceId\<close>: the true id of the first device of the cache whose
  keyed transform is the source id; \<open>None\<close> is the result \<^verbatim>\<open>false\<close>.
\<close>

definition TranslateSourceIdToDeviceId ::
  "env \<Rightarrow> MediaStreamManager \<Rightarrow> MediaStreamType \<Rightarrow> ResourceContext \<Rightarrow> GURL \<Rightarrow> string \<Rightarrow>
   string option" where
  "TranslateSourceIdToDeviceId E m stream_type rc origin source_id =
     (if \<not> valid (enumeration_cache m stream_type) then None
      else map_option (\<lambda>d. device_id (device d))
             (find (\<lambda>d. DoesMediaDeviceIDMatchHMAC E rc origin source_id (device_id (device d)))
                (cache_devices (enumeration_cache m stream_type))))"

definition TranslateDeviceIdToSourceId ::
  "env \<Rightarrow> DeviceRequest \<Rightarrow> MediaStreamDevice \<Rightarrow> MediaStreamDevice" where
  "TranslateDeviceIdToSourceId E r dev =
     (if audio_type (request r) = MEDIA_DEVICE_AUDIO_CAPTURE \<or>
         video_type (request r) = MEDIA_DEVICE_VIDEO_CAPTURE
      then dev\<lparr>device_id := GetHMACForMediaDeviceID E (resource_context r)
                                (security_origin (request r)) (device_id dev)\<rparr>
      else dev)"

text \<open>
  \<^verbatim>\<open>TranslateRequestedSourceIdToDeviceId\<close> returns its boolean result and the request
  with the ids it has rewritten. The branch of an audio id that does not resolve clears
  the audio id and returns at once.
\<close>

definition TranslateRequestedSourceIdToDeviceId ::
  "env \<Rightarrow> MediaStreamManager \<Rightarrow> DeviceRequest \<Rightarrow> bool \<times> DeviceRequest" where
  "TranslateRequestedSourceIdToDeviceId E m r =
     (let ms = request r;
          audio = (if audio_type ms = MEDIA_DEVICE_AUDIO_CAPTURE \<and>
                      requested_audio_device_id ms \<noteq> []
                   then Some (TranslateSourceIdToDeviceId E m MEDIA_DEVICE_AUDIO_CAPTURE
                                (resource_context r) (security_origin ms)
                                (requested_audio_device_id ms))
                   else None)
      in case audio of
           Some None \<Rightarrow> (True, r\<lparr>request := ms\<lparr>requested_audio_device_id := []\<rparr>\<rparr>)
         | _ \<Rightarrow>
            (let ms1 = (case audio of
                          Some (Some dev_id) \<Rightarrow> ms\<lparr>requested_audio_device_id := dev_id\<rparr>
                        | _ \<Rightarrow> ms)
             in if video_type ms1 = MEDIA_DEVICE_VIDEO_CAPTURE \<and>
                   requested_video_device_id ms1 \<noteq> []
                then (case TranslateSourceIdToDeviceId E m MEDIA_DEVICE_VIDEO_CAPTURE
                             (resource_context r) (security_origin ms1)
                             (requested_video_device_id ms1) of
                        None \<Rightarrow> (True, r\<lparr>request := ms1\<lparr>requested_video_device_id := []\<rparr>\<rparr>)
                      | Some dev_id \<Rightarrow>
                          (True, r\<lparr>request := ms1\<lparr>requested_video_device_id := dev_id\<rparr>\<rparr>))
                else (True, r\<lparr>request := ms1\<rparr>)))"

subsection \<open>Monitoring and enumeration\<close>

definition ref_count :: "MediaStreamManager \<Rightarrow> MediaStreamType \<Rightarrow> int" where
  "ref_count m stream_type = active_enumeration_ref_count m ! type_index stream_type"

text \<open>
  The value of a 32-bit \<^verbatim>\<open>int\<close> after an arithmetic step: the result modulo \<open>2^32\<close>
  in the range from \<open>- 2^31\<close> to \<open>2^31 - 1\<close>. \<open>add_ref_count t 1\<close> is
  \<^verbatim>\<open>++active_enumeration_ref_count_[t]\<close> and \<open>add_ref_count t (- 1)\<close> is the decrement.
\<close>

definition int32 :: "int \<Rightarrow> int" where
  "int32 x = signed_take_bit 31 x"

definition add_ref_count :: "MediaStreamType \<Rightarrow> int \<Rightarrow> MediaStreamManager \<Rightarrow> MediaStreamManager" where
  "add_ref_count stream_type k m =
     m\<lparr>active_enumeration_ref_count :=
         (active_enumeration_ref_count m)
           [type_index stream_type := int32 (ref_count m stream_type + k)]\<rparr>"

definition StartMonitoring :: "env \<Rightarrow> MediaStreamManager \<Rightarrow> MediaStreamManager" where
  "StartMonitoring E m =
     (if \<not> system_monitor E then m
      else if \<not> monitoring_started m
      then emit [ProviderEnumerateDevices MEDIA_DEVICE_VIDEO_CAPTURE]
             (add_ref_count MEDIA_DEVICE_VIDEO_CAPTURE 1
               (emit [ProviderEnumerateDevices MEDIA_DEVICE_AUDIO_CAPTURE]
                 (add_ref_count MEDIA_DEVICE_AUDIO_CAPTURE 1
                   (emit [AddDevicesChangedObserver] (m\<lparr>monitoring_started := True\<rparr>)))))
      else m)"

definition ClearEnumerationCache :: "EnumerationCache \<Rightarrow> EnumerationCache" where
  "ClearEnumerationCache cache = cache\<lparr>valid := False\<rparr>"

definition StopMonitoring :: "MediaStreamManager \<Rightarrow> MediaStreamManager" where
  "StopMonitoring m =
     (if monitoring_started m
      then (emit [RemoveDevicesChangedObserver] m)
             \<lparr>monitoring_started := False,
              audio_enumeration_cache := ClearEnumerationCache (audio_enumeration_cache m),
              video_enumeration_cache := ClearEnumerationCache (video_enumeration_cache m)\<rparr>
      else m)"

text \<open>
  \<^verbatim>\<open>StartEnumeration\<close>: every requested kind of the request (stored under \<open>label\<close>)
  becomes \<^verbatim>\<open>REQUESTED\<close>, and an enumeration is dispatched for it unless one is
  counted as active.
\<close>

fun StartEnumeration_loop ::
  "env \<Rightarrow> MediaStreamManager \<Rightarrow> string \<Rightarrow> MediaStreamRequest \<Rightarrow> MediaStreamType list \<Rightarrow>
   MediaStreamManager" where
  "StartEnumeration_loop E m label req [] = m"
| "StartEnumeration_loop E m label req (stream_type # ts) =
     (if Requested req stream_type
      then (let m1 = request_SetState E m label stream_type MEDIA_REQUEST_STATE_REQUESTED;
                m2 = (if ref_count m1 stream_type = 0
                      then emit [ProviderEnumerateDevices stream_type]
                             (add_ref_count stream_type 1 m1)
                      else m1)
            in StartEnumeration_loop E m2 label req ts)
      else StartEnumeration_loop E m label req ts)"

definition StartEnumeration ::
  "env \<Rightarrow> MediaStreamManager \<Rightarrow> string \<Rightarrow> DeviceRequest \<Rightarrow> MediaStreamManager" where
  "StartEnumeration E m label r =
     StartEnumeration_loop E
       (if \<not> monitoring_started m \<and> system_monitor E then StartMonitoring E m else m)
       label (request r) media_types"

text \<open>The device kinds of \<^verbatim>\<open>base::SystemMonitor\<close> and the hot-plug notification.\<close>

datatype DeviceType = DEVTYPE_AUDIO_CAPTURE | DEVTYPE_VIDEO_CAPTURE | DEVTYPE_UNKNOWN

definition OnDevicesChanged :: "MediaStreamManager \<Rightarrow> DeviceType \<Rightarrow> MediaStreamManager" where
  "OnDevicesChanged m dt =
     (case dt of
        DEVTYPE_AUDIO_CAPTURE \<Rightarrow>
          emit [ProviderEnumerateDevices MEDIA_DEVICE_AUDIO_CAPTURE]
            (add_ref_count MEDIA_DEVICE_AUDIO_CAPTURE 1 m)
      | DEVTYPE_VIDEO_CAPTURE \<Rightarrow>
          emit [ProviderEnumerateDevices MEDIA_DEVICE_VIDEO_CAPTURE]
            (add_ref_count MEDIA_DEVICE_VIDEO_CAPTURE 1 m)
      | DEVTYPE_UNKNOWN \<Rightarrow> m)"

subsection \<open>Finalization\<close>

definition RequestDone :: "DeviceRequest \<Rightarrow> bool" where
  "RequestDone r =
     (let requested_audio = IsAudioMediaType (audio_type (request r));
          requested_video = IsVideoMediaType (video_type (request r));
          audio_done = (\<not> requested_audio \<or>
                        state r (audio_type (request r)) = MEDIA_REQUEST_STATE_DONE \<or>
                        state r (audio_type (request r)) = MEDIA_REQUEST_STATE_ERROR)
      in if \<not> audio_done then False
         else (let video_done = (\<not> requested_video \<or>
                        state r (video_type (request r)) = MEDIA_REQUEST_STATE_DONE \<or>
                        state r (video_type (request r)) = MEDIA_REQUEST_STATE_ERROR)
               in if \<not> video_done then False else True))"

text \<open>
  \<^verbatim>\<open>FinalizeRequestFailed\<close>: tell the requester, run the callback of an access check
  with no devices, delete the request.
\<close>

definition FinalizeRequestFailed ::
  "MediaStreamManager \<Rightarrow> string \<Rightarrow> DeviceRequest \<Rightarrow> MediaStreamManager option" where
  "FinalizeRequestFailed m label r =
     DeleteRequest
       (emit ((case requester r of None \<Rightarrow> [] | Some q \<Rightarrow> [StreamGenerationFailed q label]) @
              (case callback r of
                 None \<Rightarrow> []
               | Some cb \<Rightarrow>
                   if request_type (request r) = MEDIA_DEVICE_ACCESS
                   then [CallbackRun cb [] (ui_proxy r)] else [])) m)
       label"

definition FinalizeMediaAccessRequest ::
  "MediaStreamManager \<Rightarrow> string \<Rightarrow> DeviceRequest \<Rightarrow> MediaStreamDevice list \<Rightarrow>
   MediaStreamManager option" where
  "FinalizeMediaAccessRequest m label r devs =
     DeleteRequest
       (emit (case callback r of None \<Rightarrow> [] | Some cb \<Rightarrow> [CallbackRun cb devs (ui_proxy r)]) m)
       label"

text \<open>
  The three finalizers that only talk to the requester return the calls they make;
  \<open>None\<close> is the dereference of a null requester, or \<^verbatim>\<open>front()\<close> of an empty list.
\<close>

definition FinalizeGenerateStream :: "string \<Rightarrow> DeviceRequest \<Rightarrow> effect list option" where
  "FinalizeGenerateStream label r =
     (case requester r of
        None \<Rightarrow> None
      | Some q \<Rightarrow>
          Some [StreamGenerated q label
                  (filter (\<lambda>d. IsAudioMediaType (device_type (device d))) (devices r))
                  (filter (\<lambda>d. \<not> IsAudioMediaType (device_type (device d)) \<and>
                               IsVideoMediaType (device_type (device d))) (devices r))])"

definition FinalizeOpenDevice :: "string \<Rightarrow> DeviceRequest \<Rightarrow> effect list option" where
  "FinalizeOpenDevice label r =
     (case requester r of
        None \<Rightarrow> None
      | Some q \<Rightarrow>
          (case devices r of [] \<Rightarrow> None | d # ds \<Rightarrow> Some [DeviceOpened q label d]))"

text \<open>
  \<^verbatim>\<open>FinalizeEnumerateDevices\<close> rewrites the device ids of the request in place and
  sends the list; with an invalid origin it sends the empty list and leaves the request.
\<close>

definition FinalizeEnumerateDevices ::
  "env \<Rightarrow> string \<Rightarrow> DeviceRequest \<Rightarrow> (DeviceRequest \<times> effect list) option" where
  "FinalizeEnumerateDevices E label r =
     (case requester r of
        None \<Rightarrow> None
      | Some q \<Rightarrow>
          if \<not> is_valid E (security_origin (request r))
          then Some (r, [RequesterDevicesEnumerated q label []])
          else (let ds = map (\<lambda>d. d\<lparr>device := TranslateDeviceIdToSourceId E r (device d)\<rparr>)
                           (devices r)
                in Some (r\<lparr>devices := ds\<rparr>, [RequesterDevicesEnumerated q label ds])))"

definition HandleRequestDone :: "string \<Rightarrow> DeviceRequest \<Rightarrow> effect list option" where
  "HandleRequestDone label r =
     (case (case request_type (request r) of
              MEDIA_OPEN_DEVICE \<Rightarrow> FinalizeOpenDevice label r
            | MEDIA_GENERATE_STREAM \<Rightarrow> FinalizeGenerateStream label r
            | _ \<Rightarrow> Some []) of
        None \<Rightarrow> None
      | Some es \<Rightarrow> Some (es @ (if ui_proxy r \<noteq> None then [UIOnStarted label] else [])))"

subsection \<open>The permission step\<close>

text \<open>
  \<^verbatim>\<open>PostRequestToUI(label, request)\<close>; \<open>r\<close> is the request the pointer refers to,
  which the registry holds under \<open>label\<close>.
\<close>

definition PostRequestToUI ::
  "env \<Rightarrow> MediaStreamManager \<Rightarrow> string \<Rightarrow> DeviceRequest \<Rightarrow> MediaStreamManager option" where
  "PostRequestToUI E m label r =
     (let tr = TranslateRequestedSourceIdToDeviceId E m r
      in if \<not> fst tr then FinalizeRequestFailed (store_request label (snd tr) m) label (snd tr)
         else
          (let r1 = snd tr;
               a = (if IsAudioMediaType (audio_type (request r1))
                    then SetState E r1 (audio_type (request r1))
                           MEDIA_REQUEST_STATE_PENDING_APPROVAL
                    else (r1, []));
               v = (if IsVideoMediaType (video_type (request r1))
                    then SetState E (fst a) (video_type (request r1))
                           MEDIA_REQUEST_STATE_PENDING_APPROVAL
                    else (fst a, []));
               r3 = fst v;
               m1 = emit (snd a @ snd v) m
           in if use_fake_ui m1
              then (let available =
                          (if valid (audio_enumeration_cache m1)
                           then map device (cache_devices (audio_enumeration_cache m1)) else []) @
                          (if valid (video_enumeration_cache m1)
                           then map device (cache_devices (video_enumeration_cache m1)) else []);
                        r4 = r3\<lparr>ui_proxy := Some FakeUIProxy\<rparr>
                    in Some (emit [UISetAvailableDevices available,
                                   UIRequestAccess label FakeUIProxy (request r4)]
                               (store_request label r4 (m1\<lparr>fake_ui := False\<rparr>))))
              else (let r4 = r3\<lparr>ui_proxy := Some RealUIProxy\<rparr>
                    in Some (emit [UIRequestAccess label RealUIProxy (request r4)]
                               (store_request label r4 m1)))))"

subsection \<open>The setup pipeline\<close>

text \<open>\<open>None\<close> is the result \<^verbatim>\<open>false\<close>; the request is changed only on success.\<close>

definition SetupTabCaptureRequest :: "env \<Rightarrow> DeviceRequest \<Rightarrow> DeviceRequest option" where
  "SetupTabCaptureRequest E r =
     (let ms = request r;
          tab_id = AppendWebContentsDeviceScheme E
                     (if requested_video_device_id ms \<noteq> [] then requested_video_device_id ms
                      else requested_audio_device_id ms)
      in case ExtractTabCaptureTarget E tab_id of
           None \<Rightarrow> None
         | Some target \<Rightarrow>
             if (audio_type ms \<noteq> MEDIA_TAB_AUDIO_CAPTURE \<and> audio_type ms \<noteq> MEDIA_NO_SERVICE) \<or>
                (video_type ms \<noteq> MEDIA_TAB_VIDEO_CAPTURE \<and> video_type ms \<noteq> MEDIA_NO_SERVICE)
             then None
             else Some (r\<lparr>request := ms\<lparr>tab_capture_device_id := tab_id,
                                         render_process_id := fst target,
                                         render_view_id := snd target\<rparr>\<rparr>))"

definition SetupScreenCaptureRequest :: "DeviceRequest \<Rightarrow> bool" where
  "SetupScreenCaptureRequest r =
     (if video_type (request r) \<noteq> MEDIA_DESKTOP_VIDEO_CAPTURE \<or>
         (audio_type (request r) \<noteq> MEDIA_NO_SERVICE \<and>
          audio_type (request r) \<noteq> MEDIA_LOOPBACK_AUDIO_CAPTURE)
      then False else True)"

definition SetupRequest ::
  "env \<Rightarrow> MediaStreamManager \<Rightarrow> string \<Rightarrow> MediaStreamManager option" where
  "SetupRequest E m label =
     (case FindRequest m label of
        None \<Rightarrow> Some m
      | Some r \<Rightarrow>
          if \<not> is_valid E (security_origin (request r)) then FinalizeRequestFailed m label r
          else
           (let audio_type = audio_type (request r);
                video_type = video_type (request r);
                is_web_contents_capture =
                  (audio_type = MEDIA_TAB_AUDIO_CAPTURE \<or> video_type = MEDIA_TAB_VIDEO_CAPTURE)
            in case (if is_web_contents_capture then SetupTabCaptureRequest E r else Some r) of
                 None \<Rightarrow> FinalizeRequestFailed m label r
               | Some r1 \<Rightarrow>
                  (let m1 = (if is_web_contents_capture then store_request label r1 m else m);
                       is_screen_capture = (video_type = MEDIA_DESKTOP_VIDEO_CAPTURE)
                   in if is_screen_capture \<and> \<not> SetupScreenCaptureRequest r1
                      then FinalizeRequestFailed m1 label r1
                      else if \<not> is_web_contents_capture \<and> \<not> is_screen_capture \<and>
                              ((IsAudioMediaType audio_type \<and>
                                \<not> valid (audio_enumeration_cache m1)) \<or>
                               (IsVideoMediaType video_type \<and>
                                \<not> valid (video_enumeration_cache m1)))
                      then Some (StartEnumeration E m1 label r1)
                      else PostRequestToUI E m1 label r1)))"

subsection \<open>The response of the permission surface\<close>

text \<open>
  \<^verbatim>\<open>FindExistingRequestedDeviceInfo\<close>: the first device entry, in the first request
  of the same render view and request type, that has the source id and the kind of the
  new device, with the state of that request for the kind.
\<close>

fun FindExistingRequestedDeviceInfo_loop ::
  "DeviceRequest \<Rightarrow> string \<Rightarrow> MediaStreamType \<Rightarrow> (string \<times> DeviceRequest) list \<Rightarrow>
   (StreamDeviceInfo \<times> MediaRequestState) option" where
  "FindExistingRequestedDeviceInfo_loop new_request source_id t [] = None"
| "FindExistingRequestedDeviceInfo_loop new_request source_id t (p # ps) =
     (if requesting_process_id (snd p) = requesting_process_id new_request \<and>
         requesting_view_id (snd p) = requesting_view_id new_request \<and>
         request_type (request (snd p)) = request_type (request new_request)
      then (case find (\<lambda>d. device_id (device d) = source_id \<and> device_type (device d) = t)
                   (devices (snd p)) of
              Some d \<Rightarrow> Some (d, state (snd p) (device_type (device d)))
            | None \<Rightarrow> FindExistingRequestedDeviceInfo_loop new_request source_id t ps)
      else FindExistingRequestedDeviceInfo_loop new_request source_id t ps)"

definition FindExistingRequestedDeviceInfo ::
  "env \<Rightarrow> MediaStreamManager \<Rightarrow> DeviceRequest \<Rightarrow> MediaStreamDevice \<Rightarrow>
   (StreamDeviceInfo \<times> MediaRequestState) option" where
  "FindExistingRequestedDeviceInfo E m new_request new_device_info =
     FindExistingRequestedDeviceInfo_loop new_request
       (GetHMACForMediaDeviceID E (resource_context new_request)
          (security_origin (request new_request)) (device_id new_device_info))
       (device_type new_device_info) (requests m)"

text \<open>
  The device the loop works on: a tab capture device gets the tab capture id of the
  request back, and tab audio gets default parameters.
\<close>

definition prepare_device :: "env \<Rightarrow> DeviceRequest \<Rightarrow> MediaStreamDevice \<Rightarrow> MediaStreamDevice" where
  "prepare_device E r dev =
     (if device_type dev = MEDIA_TAB_VIDEO_CAPTURE \<or> device_type dev = MEDIA_TAB_AUDIO_CAPTURE
      then (let dev1 = dev\<lparr>device_id := tab_capture_device_id (request r)\<rparr>
            in if device_type dev1 = MEDIA_TAB_AUDIO_CAPTURE
               then dev1\<lparr>input :=
                      \<lparr>sample_rate =
                         (if default_output_sample_rate E \<le> 0 \<or>
                             default_output_sample_rate E > 96000
                          then 44100 else default_output_sample_rate E),
                       channel_layout = CHANNEL_LAYOUT_STEREO E\<rparr>\<rparr>
               else dev1)
      else dev)"

text \<open>
  The loop over the approved devices. The request is read from the registry at every
  step, since the search for an existing device walks the registry, which holds the
  request itself with the devices pushed so far. The two flags are \<^verbatim>\<open>found_audio\<close>
  and \<^verbatim>\<open>found_video\<close>.
\<close>

fun HandleAccessRequestResponse_devices ::
  "env \<Rightarrow> MediaStreamManager \<Rightarrow> string \<Rightarrow> bool \<Rightarrow> bool \<Rightarrow> MediaStreamDevice list \<Rightarrow>
   (MediaStreamManager \<times> bool \<times> bool) option" where
  "HandleAccessRequestResponse_devices E m label found_audio found_video [] =
     Some (m, found_audio, found_video)"
| "HandleAccessRequestResponse_devices E m label found_audio found_video (dev0 # devs) =
     (case FindRequest m label of
        None \<Rightarrow> None
      | Some r \<Rightarrow>
          (let dev = prepare_device E r dev0;
               fa = (found_audio \<or> device_type dev = audio_type (request r));
               fv = (found_video \<or> (device_type dev \<noteq> audio_type (request r) \<and>
                                     device_type dev = video_type (request r)))
           in case (if request_type (request r) = MEDIA_GENERATE_STREAM
                    then FindExistingRequestedDeviceInfo E m r dev else None) of
                Some existing \<Rightarrow>
                  (let st = SetState E (r\<lparr>devices := devices r @ [fst existing]\<rparr>)
                              (device_type (device (fst existing))) (snd existing)
                   in HandleAccessRequestResponse_devices E
                        (emit (snd st) (store_request label (fst st) m)) label fa fv devs)
              | None \<Rightarrow>
                  if \<not> GetDeviceManager (device_type dev) then None
                  else
                   (let sid = provider_Open E (effects m) dev;
                        info = \<lparr>device = TranslateDeviceIdToSourceId E r dev, session_id = sid\<rparr>;
                        st = SetState E (r\<lparr>devices := devices r @ [info]\<rparr>)
                               (device_type (device info)) MEDIA_REQUEST_STATE_OPENING
                    in HandleAccessRequestResponse_devices E
                         (emit (ProviderOpen dev sid # snd st) (store_request label (fst st) m))
                         label fa fv devs)))"

definition HandleAccessRequestResponse ::
  "env \<Rightarrow> MediaStreamManager \<Rightarrow> string \<Rightarrow> MediaStreamDevice list \<Rightarrow> MediaStreamManager option" where
  "HandleAccessRequestResponse E m label devs =
     (case FindRequest m label of
        None \<Rightarrow> Some m
      | Some r \<Rightarrow>
          if request_type (request r) = MEDIA_DEVICE_ACCESS
          then FinalizeMediaAccessRequest m label r devs
          else if devs = [] then FinalizeRequestFailed m label r
          else
           (case HandleAccessRequestResponse_devices E m label False False devs of
              None \<Rightarrow> None
            | Some res \<Rightarrow>
               (case FindRequest (fst res) label of
                  None \<Rightarrow> None
                | Some r1 \<Rightarrow>
                   (let a = (if \<not> fst (snd res) \<and> IsAudioMediaType (audio_type (request r1))
                             then SetState E r1 (audio_type (request r1)) MEDIA_REQUEST_STATE_ERROR
                             else (r1, []));
                        v = (if \<not> snd (snd res) \<and> IsVideoMediaType (video_type (request r1))
                             then SetState E (fst a) (video_type (request r1))
                                    MEDIA_REQUEST_STATE_ERROR
                             else (fst a, []));
                        m1 = emit (snd a @ snd v) (store_request label (fst v) (fst res))
                    in if RequestDone (fst v)
                       then (case HandleRequestDone label (fst v) of
                               None \<Rightarrow> None
                             | Some es \<Rightarrow> Some (emit es m1))
                       else Some m1))))"

subsection \<open>Completion of a device open\<close>

text \<open>
  \<^verbatim>\<open>Opened\<close>, for one request: the first device entry of the session must find its
  kind \<^verbatim>\<open>OPENING\<close> (a \<^verbatim>\<open>CHECK\<close>); the kind becomes \<^verbatim>\<open>DONE\<close>, an audio device
  other than tab audio takes the parameters the provider reports, and a request that is
  done is finalized. \<open>passed\<close> are the entries before the current one.
\<close>

fun Opened_devices ::
  "env \<Rightarrow> string \<Rightarrow> DeviceRequest \<Rightarrow> MediaStreamType \<Rightarrow> int \<Rightarrow>
   StreamDeviceInfo list \<Rightarrow> StreamDeviceInfo list \<Rightarrow> (DeviceRequest \<times> effect list) option" where
  "Opened_devices E label r stream_type capture_session_id passed [] = Some (r, [])"
| "Opened_devices E label r stream_type capture_session_id passed (d # ds) =
     (if device_type (device d) = stream_type \<and> session_id d = capture_session_id
      then
        (if state r (device_type (device d)) \<noteq> MEDIA_REQUEST_STATE_OPENING then None
         else
          (let st = SetState E r (device_type (device d)) MEDIA_REQUEST_STATE_DONE
           in case (if IsAudioMediaType (device_type (device d)) \<and>
                       device_type (device d) \<noteq> MEDIA_TAB_AUDIO_CAPTURE
                    then (case GetOpenedDeviceInfoById E (session_id d) of
                            None \<Rightarrow> None
                          | Some info \<Rightarrow>
                              Some (d\<lparr>device := (device d)
                                       \<lparr>input := input (device info),
                                        matched_output := matched_output (device info)\<rparr>\<rparr>))
                    else Some d) of
                None \<Rightarrow> None
              | Some d1 \<Rightarrow>
                 (let r1 = (fst st)\<lparr>devices := passed @ d1 # ds\<rparr>
                  in if RequestDone r1
                     then (case HandleRequestDone label r1 of
                             None \<Rightarrow> None
                           | Some es \<Rightarrow> Some (r1, snd st @ es))
                     else Some (r1, snd st))))
      else Opened_devices E label r stream_type capture_session_id (passed @ [d]) ds)"

fun Opened_requests ::
  "env \<Rightarrow> MediaStreamType \<Rightarrow> int \<Rightarrow> (string \<times> DeviceRequest) list \<Rightarrow>
   ((string \<times> DeviceRequest) list \<times> effect list) option" where
  "Opened_requests E stream_type capture_session_id [] = Some ([], [])"
| "Opened_requests E stream_type capture_session_id (p # ps) =
     (case Opened_devices E (fst p) (snd p) stream_type capture_session_id []
             (devices (snd p)) of
        None \<Rightarrow> None
      | Some res1 \<Rightarrow>
          (case Opened_requests E stream_type capture_session_id ps of
             None \<Rightarrow> None
           | Some res \<Rightarrow> Some ((fst p, fst res1) # fst res, snd res1 @ snd res)))"

definition Opened ::
  "env \<Rightarrow> MediaStreamManager \<Rightarrow> MediaStreamType \<Rightarrow> int \<Rightarrow> MediaStreamManager option" where
  "Opened E m stream_type capture_session_id =
     (case Opened_requests E stream_type capture_session_id (requests m) of
        None \<Rightarrow> None
      | Some res \<Rightarrow> Some (emit (snd res) (m\<lparr>requests := fst res\<rparr>)))"

subsection \<open>Results of an enumeration\<close>

text \<open>
  \<^verbatim>\<open>StopRemovedDevice\<close>: the device entries of a request that carry the source id and
  the kind of the removed device; their owners are told, then their sessions are
  stopped one by one.
\<close>

definition removed_entries ::
  "env \<Rightarrow> MediaStreamDevice \<Rightarrow> DeviceRequest \<Rightarrow> StreamDeviceInfo list" where
  "removed_entries E dev r =
     filter (\<lambda>d. device_id (device d) =
                   GetHMACForMediaDeviceID E (resource_context r) (security_origin (request r))
                     (device_id dev) \<and>
                 device_type (device d) = device_type dev) (devices r)"

fun StopDevice_sessions ::
  "env \<Rightarrow> MediaStreamManager \<Rightarrow> MediaStreamType \<Rightarrow> int list \<Rightarrow> MediaStreamManager option" where
  "StopDevice_sessions E m t [] = Some m"
| "StopDevice_sessions E m t (sid # sids) =
     (case StopDevice E m t sid of
        None \<Rightarrow> None
      | Some m1 \<Rightarrow> StopDevice_sessions E m1 t sids)"

definition StopRemovedDevice ::
  "env \<Rightarrow> MediaStreamManager \<Rightarrow> MediaStreamDevice \<Rightarrow> MediaStreamManager option" where
  "StopRemovedDevice E m dev =
     StopDevice_sessions E
       (emit (concat (map (\<lambda>p. case requester (snd p) of
                                  None \<Rightarrow> []
                                | Some q \<Rightarrow>
                                    map (DeviceStopped q (requesting_view_id (snd p)) (fst p))
                                      (removed_entries E dev (snd p)))
                        (requests m))) m)
       (device_type dev)
       (concat (map (\<lambda>p. map session_id (removed_entries E dev (snd p))) (requests m)))"

fun StopRemovedDevices ::
  "env \<Rightarrow> MediaStreamManager \<Rightarrow> StreamDeviceInfo list \<Rightarrow> StreamDeviceInfo list \<Rightarrow>
   MediaStreamManager option" where
  "StopRemovedDevices E m [] new_devices = Some m"
| "StopRemovedDevices E m (old_dev # old_devices) new_devices =
     (if list_ex (\<lambda>new_dev. device_id (device old_dev) = device_id (device new_dev)) new_devices
      then StopRemovedDevices E m old_devices new_devices
      else (case StopRemovedDevice E m (device old_dev) of
              None \<Rightarrow> None
            | Some m1 \<Rightarrow> StopRemovedDevices E m1 old_devices new_devices))"

definition NotifyDevicesChanged ::
  "env \<Rightarrow> MediaStreamManager \<Rightarrow> MediaStreamType \<Rightarrow> StreamDeviceInfo list \<Rightarrow> MediaStreamManager" where
  "NotifyDevicesChanged E m stream_type devs =
     (if \<not> media_observer E then m
      else if IsAudioMediaType stream_type
      then emit [OnAudioCaptureDevicesChanged (map device devs)] m
      else if IsVideoMediaType stream_type
      then emit [OnVideoCaptureDevicesChanged (map device devs)] m
      else m)"

text \<open>
  Modelled from the spec: \<^verbatim>\<open>StreamDeviceInfo::IsEqual\<close> is declared in a header that
  is not part of the sources; the lists are compared by content equality.
\<close>

definition IsEqual :: "StreamDeviceInfo \<Rightarrow> StreamDeviceInfo \<Rightarrow> bool" where
  "IsEqual a b \<longleftrightarrow> a = b"

definition waiting :: "MediaStreamType \<Rightarrow> DeviceRequest \<Rightarrow> bool" where
  "waiting stream_type r \<longleftrightarrow>
     state r stream_type = MEDIA_REQUEST_STATE_REQUESTED \<and> Requested (request r) stream_type"

text \<open>
  The first loop of \<^verbatim>\<open>DevicesEnumerated\<close> advances the waiting requests other than
  enumeration requests to \<^verbatim>\<open>PENDING_APPROVAL\<close>; the labels of all waiting requests
  make the list the second loop walks.
\<close>

fun DevicesEnumerated_mark ::
  "env \<Rightarrow> MediaStreamType \<Rightarrow> (string \<times> DeviceRequest) list \<Rightarrow>
   (string \<times> DeviceRequest) list \<times> effect list" where
  "DevicesEnumerated_mark E stream_type [] = ([], [])"
| "DevicesEnumerated_mark E stream_type (p # ps) =
     (let res = DevicesEnumerated_mark E stream_type ps
      in if waiting stream_type (snd p) \<and>
            request_type (request (snd p)) \<noteq> MEDIA_ENUMERATE_DEVICES
         then (let st = SetState E (snd p) stream_type MEDIA_REQUEST_STATE_PENDING_APPROVAL
               in ((fst p, fst st) # fst res, snd st @ snd res))
         else (p # fst res, snd res))"

fun DevicesEnumerated_publish ::
  "env \<Rightarrow> MediaStreamManager \<Rightarrow> bool \<Rightarrow> StreamDeviceInfo list \<Rightarrow> string list \<Rightarrow>
   MediaStreamManager option" where
  "DevicesEnumerated_publish E m need_update_clients devs [] = Some m"
| "DevicesEnumerated_publish E m need_update_clients devs (label # label_list) =
     (case FindRequest m label of
        None \<Rightarrow> None
      | Some r \<Rightarrow>
          if request_type (request r) = MEDIA_ENUMERATE_DEVICES
          then (if need_update_clients \<and> requester r \<noteq> None
                then (case FinalizeEnumerateDevices E label (r\<lparr>devices := devs\<rparr>) of
                        None \<Rightarrow> None
                      | Some res \<Rightarrow>
                          DevicesEnumerated_publish E
                            (emit (snd res) (store_request label (fst res) m))
                            need_update_clients devs label_list)
                else DevicesEnumerated_publish E m need_update_clients devs label_list)
          else if state r (audio_type (request r)) = MEDIA_REQUEST_STATE_REQUESTED \<or>
                  state r (video_type (request r)) = MEDIA_REQUEST_STATE_REQUESTED
          then DevicesEnumerated_publish E m need_update_clients devs label_list
          else (case PostRequestToUI E m label r of
                  None \<Rightarrow> None
                | Some m1 \<Rightarrow>
                    DevicesEnumerated_publish E m1 need_update_clients devs label_list))"

definition set_enumeration_cache ::
  "MediaStreamType \<Rightarrow> EnumerationCache \<Rightarrow> MediaStreamManager \<Rightarrow> MediaStreamManager" where
  "set_enumeration_cache stream_type cache m =
     (if stream_type = MEDIA_DEVICE_AUDIO_CAPTURE then m\<lparr>audio_enumeration_cache := cache\<rparr>
      else m\<lparr>video_enumeration_cache := cache\<rparr>)"

text \<open>
  \<^verbatim>\<open>DevicesEnumerated\<close> in its three parts: the update of the cache when the list
  has changed (after the sessions of the removed devices are stopped), the two loops
  over the waiting requests, and the release of the reference count.
\<close>

definition need_update_clients ::
  "MediaStreamManager \<Rightarrow> MediaStreamType \<Rightarrow> StreamDeviceInfo list \<Rightarrow> bool" where
  "need_update_clients m stream_type devs \<longleftrightarrow>
     \<not> valid (enumeration_cache m stream_type) \<or>
     length devs \<noteq> length (cache_devices (enumeration_cache m stream_type)) \<or>
     \<not> list_all2 IsEqual devs (cache_devices (enumeration_cache m stream_type))"

definition DevicesEnumerated_update_cache ::
  "env \<Rightarrow> MediaStreamManager \<Rightarrow> MediaStreamType \<Rightarrow> StreamDeviceInfo list \<Rightarrow>
   MediaStreamManager option" where
  "DevicesEnumerated_update_cache E m stream_type devs =
     (if need_update_clients m stream_type devs
      then (case StopRemovedDevices E m (cache_devices (enumeration_cache m stream_type)) devs of
              None \<Rightarrow> None
            | Some m0 \<Rightarrow>
                Some (set_enumeration_cache stream_type
                        \<lparr>valid = (devs \<noteq> []), cache_devices = devs\<rparr> m0))
      else Some m)"

definition DevicesEnumerated_waiting ::
  "env \<Rightarrow> MediaStreamManager \<Rightarrow> bool \<Rightarrow> MediaStreamType \<Rightarrow> StreamDeviceInfo list \<Rightarrow>
   MediaStreamManager option" where
  "DevicesEnumerated_waiting E m need stream_type devs =
     DevicesEnumerated_publish E
       (emit (snd (DevicesEnumerated_mark E stream_type (requests m)))
          (m\<lparr>requests := fst (DevicesEnumerated_mark E stream_type (requests m))\<rparr>))
       need devs
       (map fst (filter (\<lambda>p. waiting stream_type (snd p)) (requests m)))"

definition DevicesEnumerated ::
  "env \<Rightarrow> MediaStreamManager \<Rightarrow> MediaStreamType \<Rightarrow> StreamDeviceInfo list \<Rightarrow>
   MediaStreamManager option" where
  "DevicesEnumerated E m stream_type devs =
     (case DevicesEnumerated_update_cache E m stream_type devs of
        None \<Rightarrow> None
      | Some m1 \<Rightarrow>
          (case DevicesEnumerated_waiting E
                  (if need_update_clients m stream_type devs \<and> monitoring_started m1
                   then NotifyDevicesChanged E m1 stream_type devs else m1)
                  (need_update_clients m stream_type devs) stream_type devs of
             None \<Rightarrow> None
           | Some m4 \<Rightarrow> Some (add_ref_count stream_type (- 1) m4)))"

text \<open>\<^verbatim>\<open>DoEnumerateDevices\<close>, the continuation of \<^verbatim>\<open>EnumerateDevices\<close>.\<close>

definition DoEnumerateDevices ::
  "env \<Rightarrow> MediaStreamManager \<Rightarrow> string \<Rightarrow> MediaStreamManager option" where
  "DoEnumerateDevices E m label =
     (case FindRequest m label of
        None \<Rightarrow> Some m
      | Some r \<Rightarrow>
          (let type = (if audio_type (request r) = MEDIA_DEVICE_AUDIO_CAPTURE
                       then MEDIA_DEVICE_AUDIO_CAPTURE else MEDIA_DEVICE_VIDEO_CAPTURE);
               cache = (if audio_type (request r) = MEDIA_DEVICE_AUDIO_CAPTURE
                        then audio_enumeration_cache m else video_enumeration_cache m)
           in if valid cache
              then (let st = SetState E r type MEDIA_REQUEST_STATE_REQUESTED
                    in case FinalizeEnumerateDevices E label
                              ((fst st)\<lparr>devices := cache_devices cache\<rparr>) of
                         None \<Rightarrow> None
                       | Some res \<Rightarrow>
                           Some (emit (snd st @ snd res) (store_request label (fst res) m)))
              else Some (StartEnumeration E m label r)))"

text \<open>\<^verbatim>\<open>StopMediaStreamFromBrowser\<close>, the stop callback given to the permission surface.\<close>

definition StopMediaStreamFromBrowser ::
  "env \<Rightarrow> MediaStreamManager \<Rightarrow> string \<Rightarrow> MediaStreamManager option" where
  "StopMediaStreamFromBrowser E m label =
     (case FindRequest m label of
        None \<Rightarrow> Some m
      | Some r \<Rightarrow>
          CancelRequest E
            (emit (case requester r of
                     None \<Rightarrow> []
                   | Some q \<Rightarrow> map (DeviceStopped q (requesting_view_id r) label) (devices r)) m)
            label)"

subsection \<open>Entry points\<close>

text \<open>
  Each entry point registers a request under a fresh label and posts the continuation
  to the control context; the result is the label and the manager. \<open>labels\<close> are the
  labels the random generator returns.
\<close>

definition StreamOptions_new :: StreamOptions where
  "StreamOptions_new =
     \<lparr>options_audio_type = MEDIA_NO_SERVICE, options_video_type = MEDIA_NO_SERVICE,
      options_audio_device_id = [], options_video_device_id = []\<rparr>"

definition MakeMediaAccessRequest ::
  "MediaStreamManager \<Rightarrow> int \<Rightarrow> int \<Rightarrow> int \<Rightarrow> StreamOptions \<Rightarrow> GURL \<Rightarrow> nat option \<Rightarrow>
   string list \<Rightarrow> (string \<times> MediaStreamManager) option" where
  "MakeMediaAccessRequest m pid vid page options origin cb labels =
     (case AddRequest m
             (DeviceRequest_new None
                (MediaStreamRequest_new pid vid page origin MEDIA_DEVICE_ACCESS [] []
                   (options_audio_type options) (options_video_type options))
                pid vid None) labels of
        None \<Rightarrow> None
      | Some res \<Rightarrow>
          (case FindRequest (snd res) (fst res) of
             None \<Rightarrow> None
           | Some r \<Rightarrow>
               Some (fst res,
                     emit [PostTaskSetupRequest (fst res)]
                       (store_request (fst res) (r\<lparr>callback := cb\<rparr>) (snd res)))))"

text \<open>\<^verbatim>\<open>UseFakeDevice\<close> tells the video provider, then the audio provider.\<close>

definition UseFakeDevice :: "MediaStreamManager \<Rightarrow> MediaStreamManager" where
  "UseFakeDevice m = emit [VideoProviderUseFakeDevice, AudioProviderUseFakeDevice] m"

definition GenerateStream ::
  "env \<Rightarrow> MediaStreamManager \<Rightarrow> nat option \<Rightarrow> int \<Rightarrow> int \<Rightarrow> ResourceContext \<Rightarrow> int \<Rightarrow>
   StreamOptions \<Rightarrow> GURL \<Rightarrow> string list \<Rightarrow> (string \<times> MediaStreamManager) option" where
  "GenerateStream E m rq pid vid rc page options origin labels =
     (let m1 = (if switch_fake_device E then UseFakeDevice m else m);
          m2 = (if switch_fake_ui E then m1\<lparr>use_fake_ui := True, fake_ui := False\<rparr> else m1)
      in case AddRequest m2
                (DeviceRequest_new rq
                   (MediaStreamRequest_new pid vid page origin MEDIA_GENERATE_STREAM
                      (options_audio_device_id options) (options_video_device_id options)
                      (options_audio_type options) (options_video_type options))
                   pid vid rc) labels of
           None \<Rightarrow> None
         | Some res \<Rightarrow> Some (fst res, emit [PostTaskSetupRequest (fst res)] (snd res)))"

definition EnumerateDevices ::
  "MediaStreamManager \<Rightarrow> nat option \<Rightarrow> int \<Rightarrow> int \<Rightarrow> ResourceContext \<Rightarrow> int \<Rightarrow>
   MediaStreamType \<Rightarrow> GURL \<Rightarrow> string list \<Rightarrow> (string \<times> MediaStreamManager) option" where
  "EnumerateDevices m rq pid vid rc page type origin labels =
     (if type \<noteq> MEDIA_DEVICE_AUDIO_CAPTURE \<and> type \<noteq> MEDIA_DEVICE_VIDEO_CAPTURE
      then Some ([], m)
      else
       (let options = (if type = MEDIA_DEVICE_AUDIO_CAPTURE
                       then StreamOptions_new\<lparr>options_audio_type := type\<rparr>
                       else StreamOptions_new\<lparr>options_video_type := type\<rparr>)
        in case AddRequest m
                  (DeviceRequest_new rq
                     (MediaStreamRequest_new pid vid page origin MEDIA_ENUMERATE_DEVICES [] []
                        (options_audio_type options) (options_video_type options))
                     pid vid rc) labels of
             None \<Rightarrow> None
           | Some res \<Rightarrow> Some (fst res, emit [PostTaskDoEnumerateDevices (fst res)] (snd res))))"

definition OpenDevice ::
  "MediaStreamManager \<Rightarrow> nat option \<Rightarrow> int \<Rightarrow> int \<Rightarrow> ResourceContext \<Rightarrow> int \<Rightarrow> string \<Rightarrow>
   MediaStreamType \<Rightarrow> GURL \<Rightarrow> string list \<Rightarrow> (string \<times> MediaStreamManager) option" where
  "OpenDevice m rq pid vid rc page dev_id type origin labels =
     (if \<not> IsAudioMediaType type \<and> \<not> IsVideoMediaType type then Some ([], m)
      else
       (let options = (if IsAudioMediaType type
                       then StreamOptions_new\<lparr>options_audio_type := type,
                                               options_audio_device_id := dev_id\<rparr>
                       else StreamOptions_new\<lparr>options_video_type := type,
                                               options_video_device_id := dev_id\<rparr>)
        in case AddRequest m
                  (DeviceRequest_new rq
                     (MediaStreamRequest_new pid vid page origin MEDIA_OPEN_DEVICE
                        (options_audio_device_id options) (options_video_device_id options)
                        (options_audio_type options) (options_video_type options))
                     pid vid rc) labels of
             None \<Rightarrow> None
           | Some res \<Rightarrow> Some (fst res, emit [PostTaskSetupRequest (fst res)] (snd res))))"

section \<open>Scenarios\<close>

text \<open>
  A concrete environment and concrete requests, on which the operations are run: every
  non-empty origin is valid, the source id of a device is the origin, \<open>#\<close> and the
  true id, and a provider numbers its sessions by the length of the log.
\<close>

definition test_env :: env where
  "test_env =
     \<lparr>is_valid = (\<lambda>url. url \<noteq> []),
      GetHMACForMediaDeviceID = (\<lambda>rc origin raw_id. origin @ ''#'' @ raw_id),
      AppendWebContentsDeviceScheme = (\<lambda>s. s),
      StripWebContentsDeviceScheme = (\<lambda>s. s),
      ExtractTabCaptureTarget = (\<lambda>s. if s = [] then None else Some (1, 1)),
      media_observer = True,
      system_monitor = True,
      switch_fake_device = False,
      switch_fake_ui = False,
      provider_Open = (\<lambda>es dev. int (length es)),
      GetOpenedDeviceInfoById = (\<lambda>sid. None),
      default_output_sample_rate = 48000,
      CHANNEL_LAYOUT_STEREO = 3\<rparr>"

definition test_request ::
  "MediaStreamRequestType \<Rightarrow> MediaStreamType \<Rightarrow> MediaStreamType \<Rightarrow> DeviceRequest" where
  "test_request rt at vt =
     DeviceRequest_new (Some 7) (MediaStreamRequest_new 1 2 3 ''o'' rt [] [] at vt) 1 2 (Some 0)"

definition manager_with :: "(string \<times> DeviceRequest) list \<Rightarrow> MediaStreamManager" where
  "manager_with rs = MediaStreamManager_new\<lparr>requests := rs\<rparr>"

definition test_device :: "MediaStreamType \<Rightarrow> string \<Rightarrow> MediaStreamDevice" where
  "test_device t name =
     \<lparr>device_type = t, device_id = name, device_name = name,
      input = \<lparr>sample_rate = 0, channel_layout = 0\<rparr>,
      matched_output = \<lparr>sample_rate = 0, channel_layout = 0\<rparr>\<rparr>"

definition test_info :: "MediaStreamType \<Rightarrow> string \<Rightarrow> int \<Rightarrow> StreamDeviceInfo" where
  "test_info t name sid = \<lparr>device = test_device t name, session_id = sid\<rparr>"

section \<open>Vocabulary of the properties\<close>

text \<open>
  The device entries of a session, a device list without them, and a request with its
  state vector forgotten (to compare requests up to their states).
\<close>

definition session_entry :: "MediaStreamType \<Rightarrow> int \<Rightarrow> StreamDeviceInfo \<Rightarrow> bool" where
  "session_entry t sid d \<longleftrightarrow> device_type (device d) = t \<and> session_id d = sid"

definition without_session ::
  "MediaStreamType \<Rightarrow> int \<Rightarrow> StreamDeviceInfo list \<Rightarrow> StreamDeviceInfo list" where
  "without_session t sid ds = filter (\<lambda>d. \<not> session_entry t sid d) ds"

definition erase_state :: "DeviceRequest \<Rightarrow> DeviceRequest" where
  "erase_state r = r\<lparr>state_vector := []\<rparr>"

text \<open>
  A stream request that holds a camera on session 5 and a microphone on session 6, with
  the given states of the audio and of the video kind.
\<close>

definition holding_request :: "MediaRequestState \<Rightarrow> MediaRequestState \<Rightarrow> DeviceRequest" where
  "holding_request audio_state video_state =
     (test_request MEDIA_GENERATE_STREAM MEDIA_DEVICE_AUDIO_CAPTURE MEDIA_DEVICE_VIDEO_CAPTURE)
       \<lparr>devices := [test_info MEDIA_DEVICE_VIDEO_CAPTURE ''cam'' 5,
                    test_info MEDIA_DEVICE_AUDIO_CAPTURE ''mic'' 6],
        state_vector := [MEDIA_REQUEST_STATE_NOT_REQUESTED, audio_state, video_state,
                         MEDIA_REQUEST_STATE_NOT_REQUESTED, MEDIA_REQUEST_STATE_NOT_REQUESTED,
                         MEDIA_REQUEST_STATE_NOT_REQUESTED, MEDIA_REQUEST_STATE_NOT_REQUESTED]\<rparr>"

text \<open>The calls that deliver a stream to a requester.\<close>

definition delivers_stream :: "effect \<Rightarrow> bool" where
  "delivers_stream e = (case e of StreamGenerated q l a v \<Rightarrow> True | _ \<Rightarrow> False)"

text \<open>
  A stream request of the same render view as \<open>test_request\<close> that is done and holds
  the camera \<open>cam\<close> on session 5, under the source id the camera has for the origin.
\<close>

definition sharing_request :: DeviceRequest where
  "sharing_request =
     (holding_request MEDIA_REQUEST_STATE_DONE MEDIA_REQUEST_STATE_DONE)
       \<lparr>devices :=
          [\<lparr>device = (test_device MEDIA_DEVICE_VIDEO_CAPTURE ''cam'')\<lparr>device_id := ''o#cam''\<rparr>,
            session_id = 5\<rparr>]\<rparr>"

text \<open>
  A stream request of another render view that waits for the answer of the permission
  surface and holds no device.
\<close>

definition pending_request :: DeviceRequest where
  "pending_request =
     (DeviceRequest_new (Some 8)
        (MediaStreamRequest_new 4 5 6 ''o'' MEDIA_GENERATE_STREAM [] []
           MEDIA_DEVICE_AUDIO_CAPTURE MEDIA_NO_SERVICE) 4 5 (Some 0))
       \<lparr>ui_proxy := Some RealUIProxy,
        state_vector := [MEDIA_REQUEST_STATE_NOT_REQUESTED, MEDIA_REQUEST_STATE_PENDING_APPROVAL,
                         MEDIA_REQUEST_STATE_NOT_REQUESTED, MEDIA_REQUEST_STATE_NOT_REQUESTED,
                         MEDIA_REQUEST_STATE_NOT_REQUESTED, MEDIA_REQUEST_STATE_NOT_REQUESTED,
                         MEDIA_REQUEST_STATE_NOT_REQUESTED]\<rparr>"

text \<open>
  A manager that monitors the devices, with one microphone in a valid audio cache and
  an enumeration request for audio under the label \<open>L\<close>; and the same manager after
  \<^verbatim>\<open>DoEnumerateDevices\<close> has sent the list to the requester.
\<close>

definition listening_manager :: MediaStreamManager where
  "listening_manager =
     MediaStreamManager_new
       \<lparr>requests :=
          [(''L'', test_request MEDIA_ENUMERATE_DEVICES MEDIA_DEVICE_AUDIO_CAPTURE
                    MEDIA_NO_SERVICE)],
        audio_enumeration_cache :=
          \<lparr>valid = True, cache_devices = [test_info MEDIA_DEVICE_AUDIO_CAPTURE ''mic1'' (- 1)]\<rparr>,
        monitoring_started := True\<rparr>"

definition delivered_entry :: StreamDeviceInfo where
  "delivered_entry =
     \<lparr>device = (test_device MEDIA_DEVICE_AUDIO_CAPTURE ''mic1'')\<lparr>device_id := ''o#mic1''\<rparr>,
      session_id = - 1\<rparr>"

definition delivered_list :: "StreamDeviceInfo list" where
  "delivered_list = [delivered_entry]"

definition delivered_manager :: MediaStreamManager where
  "delivered_manager =
     listening_manager
       \<lparr>requests :=
          [(''L'', (test_request MEDIA_ENUMERATE_DEVICES MEDIA_DEVICE_AUDIO_CAPTURE
                     MEDIA_NO_SERVICE)
                     \<lparr>devices := delivered_list,
                      state_vector :=
                        [MEDIA_REQUEST_STATE_NOT_REQUESTED, MEDIA_REQUEST_STATE_REQUESTED,
                         MEDIA_REQUEST_STATE_NOT_REQUESTED, MEDIA_REQUEST_STATE_NOT_REQUESTED,
                         MEDIA_REQUEST_STATE_NOT_REQUESTED, MEDIA_REQUEST_STATE_NOT_REQUESTED,
                         MEDIA_REQUEST_STATE_NOT_REQUESTED]\<rparr>)],
        effects := [RequesterDevicesEnumerated 7 ''L'' delivered_list]\<rparr>"

section \<open>Sequences of operations\<close>

text \<open>
  Everything runs on one control context, one operation after the other. An event is a
  call of an entry point or of another public method, or one of the callbacks that
  come back to the control context: the posted continuations, the results of the
  providers, the answer of the permission surface, the stop from the browser and the
  hot-plug notification.
\<close>

datatype event =
    EvMakeMediaAccessRequest int int int StreamOptions GURL "nat option" "string list"
  | EvGenerateStream "nat option" int int ResourceContext int StreamOptions GURL "string list"
  | EvEnumerateDevices "nat option" int int ResourceContext int MediaStreamType GURL "string list"
  | EvOpenDevice "nat option" int int ResourceContext int string MediaStreamType GURL "string list"
  | EvCancelRequest string
  | EvCancelAllRequests int
  | EvStopStreamDevice int int string
  | EvEnsureDeviceMonitorStarted
  | EvStopMonitoring
  | EvSetupRequest string
  | EvDoEnumerateDevices string
  | EvDevicesEnumerated MediaStreamType "StreamDeviceInfo list"
  | EvHandleAccessRequestResponse string "MediaStreamDevice list"
  | EvOpened MediaStreamType int
  | EvStopMediaStreamFromBrowser string
  | EvOnDevicesChanged DeviceType

definition EnsureDeviceMonitorStarted :: "env \<Rightarrow> MediaStreamManager \<Rightarrow> MediaStreamManager" where
  "EnsureDeviceMonitorStarted E m = (if \<not> monitoring_started m then StartMonitoring E m else m)"

fun step :: "env \<Rightarrow> MediaStreamManager \<Rightarrow> event \<Rightarrow> MediaStreamManager option" where
  "step E m (EvMakeMediaAccessRequest pid vid page options origin cb labels) =
     map_option snd (MakeMediaAccessRequest m pid vid page options origin cb labels)"
| "step E m (EvGenerateStream rq pid vid rc page options origin labels) =
     map_option snd (GenerateStream E m rq pid vid rc page options origin labels)"
| "step E m (EvEnumerateDevices rq pid vid rc page t origin labels) =
     map_option snd (EnumerateDevices m rq pid vid rc page t origin labels)"
| "step E m (EvOpenDevice rq pid vid rc page dev_id t origin labels) =
     map_option snd (OpenDevice m rq pid vid rc page dev_id t origin labels)"
| "step E m (EvCancelRequest label) = CancelRequest E m label"
| "step E m (EvCancelAllRequests pid) = CancelAllRequests E m pid"
| "step E m (EvStopStreamDevice pid vid dev_id) = StopStreamDevice E m pid vid dev_id"
| "step E m EvEnsureDeviceMonitorStarted = Some (EnsureDeviceMonitorStarted E m)"
| "step E m EvStopMonitoring = Some (StopMonitoring m)"
| "step E m (EvSetupRequest label) = SetupRequest E m label"
| "step E m (EvDoEnumerateDevices label) = DoEnumerateDevices E m label"
| "step E m (EvDevicesEnumerated t devs) = DevicesEnumerated E m t devs"
| "step E m (EvHandleAccessRequestResponse label devs) = HandleAccessRequestResponse E m label devs"
| "step E m (EvOpened t sid) = Opened E m t sid"
| "step E m (EvStopMediaStreamFromBrowser label) = StopMediaStreamFromBrowser E m label"
| "step E m (EvOnDevicesChanged dt) = Some (OnDevicesChanged m dt)"

text \<open>
  The enumerations dispatched to the providers, in the order of the dispatches, and the
  number of enumerations of a kind that are in flight: dispatched, and the callback
  \<^verbatim>\<open>DevicesEnumerated\<close> for it not yet processed. \<open>cbs\<close> are the kinds of the
  callbacks processed so far.
\<close>

fun enums :: "effect list \<Rightarrow> MediaStreamType list" where
  "enums [] = []"
| "enums (ProviderEnumerateDevices k # es) = k # enums es"
| "enums (e # es) = enums es"

definition in_flight :: "MediaStreamManager \<Rightarrow> MediaStreamType list \<Rightarrow> MediaStreamType \<Rightarrow> int" where
  "in_flight m cbs k = int (count_list (enums (effects m)) k) - int (count_list cbs k)"

text \<open>
  A run of the manager: the events are processed in order, and the kind of every
  \<^verbatim>\<open>DevicesEnumerated\<close> callback is recorded; \<open>None\<close> is an operation that does not
  return. No event is refused.
\<close>

definition processed :: "event \<Rightarrow> MediaStreamType list \<Rightarrow> MediaStreamType list" where
  "processed ev cbs = (case ev of EvDevicesEnumerated k devs \<Rightarrow> k # cbs | _ \<Rightarrow> cbs)"

fun run ::
  "env \<Rightarrow> MediaStreamManager \<times> MediaStreamType list \<Rightarrow> event list \<Rightarrow>
   (MediaStreamManager \<times> MediaStreamType list) option" where
  "run E w [] = Some w"
| "run E w (ev # evs) =
     (case step E (fst w) ev of
        None \<Rightarrow> None
      | Some m' \<Rightarrow> run E (m', processed ev (snd w)) evs)"

text \<open>
  What the device providers are relied on for: they call \<^verbatim>\<open>DevicesEnumerated\<close> back
  only for an enumeration that is in flight. \<open>solicited E w evs\<close> says that every
  callback among the events \<open>evs\<close>, processed from \<open>w\<close> on, is such an answer.
\<close>

fun solicited ::
  "env \<Rightarrow> MediaStreamManager \<times> MediaStreamType list \<Rightarrow> event list \<Rightarrow> bool" where
  "solicited E w [] = True"
| "solicited E w (ev # evs) =
     ((case ev of
         EvDevicesEnumerated k devs \<Rightarrow> 0 < in_flight (fst w) (snd w) k
       | _ \<Rightarrow> True) \<and>
      (case step E (fst w) ev of
         None \<Rightarrow> True
       | Some m' \<Rightarrow> solicited E (m', processed ev (snd w)) evs))"

text \<open>
  Two relations between the manager before and after an operation. \<open>quiet\<close>: the
  operation has dispatched no enumeration and has left the reference counts.
  \<open>balanced\<close>: the operation has only dispatched enumerations (none for the count
  \<^verbatim>\<open>NUM_MEDIA_TYPES\<close>), and has raised the reference count of each kind by the number
  of its dispatches for the kind, in the arithmetic of 32-bit integers: the counts stay
  in the range of \<^verbatim>\<open>int\<close>, and a count moves with the number of dispatches up to a
  multiple of \<open>2^32\<close>.
\<close>

definition quiet :: "MediaStreamManager \<Rightarrow> MediaStreamManager \<Rightarrow> bool" where
  "quiet m m' \<longleftrightarrow>
     active_enumeration_ref_count m' = active_enumeration_ref_count m \<and>
     enums (effects m') = enums (effects m)"

definition in_int32 :: "MediaStreamManager \<Rightarrow> bool" where
  "in_int32 m \<longleftrightarrow> list_all (\<lambda>x. int32 x = x) (active_enumeration_ref_count m)"

definition balanced :: "MediaStreamManager \<Rightarrow> MediaStreamManager \<Rightarrow> bool" where
  "balanced m m' \<longleftrightarrow>
     length (active_enumeration_ref_count m') = length (active_enumeration_ref_count m) \<and>
     (in_int32 m \<longrightarrow> in_int32 m') \<and>
     (\<forall>k. count_list (enums (effects m)) k \<le> count_list (enums (effects m')) k) \<and>
     count_list (enums (effects m')) NUM_MEDIA_TYPES =
       count_list (enums (effects m)) NUM_MEDIA_TYPES \<and>
     (\<forall>k. k \<noteq> NUM_MEDIA_TYPES \<longrightarrow>
        (2::int) ^ 32 dvd
          (ref_count m' k - int (count_list (enums (effects m')) k)) -
          (ref_count m k - int (count_list (enums (effects m)) k)))"

text \<open>
  The invariant of a run in which every callback is an answer: the array of reference
  counts has its \<^verbatim>\<open>NUM_MEDIA_TYPES\<close> entries, each in the range of \<^verbatim>\<open>int\<close>, and for
  every kind the count is the number of enumerations in flight up to a multiple of
  \<open>2^32\<close>, and that number is not negative.
\<close>

definition ref_counts_ok :: "MediaStreamManager \<times> MediaStreamType list \<Rightarrow> bool" where
  "ref_counts_ok w \<longleftrightarrow>
     length (active_enumeration_ref_count (fst w)) = 7 \<and>
     in_int32 (fst w) \<and>
     count_list (enums (effects (fst w))) NUM_MEDIA_TYPES = 0 \<and>
     (\<forall>k. k \<noteq> NUM_MEDIA_TYPES \<longrightarrow>
        (2::int) ^ 32 dvd ref_count (fst w) k - in_flight (fst w) (snd w) k \<and>
        0 \<le> in_flight (fst w) (snd w) k)"

text \<open>
  A run with duplicate enumerations of the microphones: a page enumerates them, which
  starts the monitoring and with it one enumeration of each kind, a microphone is
  plugged in while that enumeration is in flight, and the two callbacks for the
  microphones come back.
\<close>

definition hotplug_events :: "event list" where
  "hotplug_events =
     [EvEnumerateDevices (Some 7) 1 1 None 1 MEDIA_DEVICE_AUDIO_CAPTURE ''http://a'' [''L''],
      EvDoEnumerateDevices ''L'',
      EvOnDevicesChanged DEVTYPE_AUDIO_CAPTURE,
      EvDevicesEnumerated MEDIA_DEVICE_AUDIO_CAPTURE [],
      EvDevicesEnumerated MEDIA_DEVICE_AUDIO_CAPTURE []]"

text \<open>
  The state vector of a request follows its descriptor: it has its \<^verbatim>\<open>NUM_MEDIA_TYPES\<close>
  entries, every kind that the descriptor does not ask for (\<^verbatim>\<open>Requested\<close>) is
  \<^verbatim>\<open>NOT_REQUESTED\<close>, and every device entry has a kind that the descriptor asks for.
  For the manager: this holds of every registered request, and the two caches hold
  microphones and cameras.
\<close>

definition request_kinds_ok :: "DeviceRequest \<Rightarrow> bool" where
  "request_kinds_ok r \<longleftrightarrow>
     length (state_vector r) = type_index NUM_MEDIA_TYPES \<and>
     (\<forall>k. k \<noteq> NUM_MEDIA_TYPES \<longrightarrow> \<not> Requested (request r) k \<longrightarrow>
        state r k = MEDIA_REQUEST_STATE_NOT_REQUESTED) \<and>
     (\<forall>d \<in> set (devices r).
        device_type (device d) \<noteq> NUM_MEDIA_TYPES \<and>
        Requested (request r) (device_type (device d)))"

definition manager_kinds_ok :: "MediaStreamManager \<Rightarrow> bool" where
  "manager_kinds_ok m \<longleftrightarrow>
     (\<forall>l r. FindRequest m l = Some r \<longrightarrow> request_kinds_ok r) \<and>
     (\<forall>d \<in> set (cache_devices (audio_enumeration_cache m)).
        device_type (device d) = MEDIA_DEVICE_AUDIO_CAPTURE) \<and>
     (\<forall>d \<in> set (cache_devices (video_enumeration_cache m)).
        device_type (device d) = MEDIA_DEVICE_VIDEO_CAPTURE)"

text \<open>
  What the collaborators are relied on for. The permission surface approves devices of
  a media kind that the request asked for. A provider answers an enumeration of
  microphones or of cameras, with devices of that kind. The task \<^verbatim>\<open>DoEnumerateDevices\<close>
  runs for a request for microphones or for cameras, which is what its \<^verbatim>\<open>DCHECK\<close>
  states. Every other event is free.
\<close>

fun admissible :: "MediaStreamManager \<Rightarrow> event \<Rightarrow> bool" where
  "admissible m (EvDoEnumerateDevices label) =
     (case FindRequest m label of
        None \<Rightarrow> True
      | Some r \<Rightarrow> audio_type (request r) = MEDIA_DEVICE_AUDIO_CAPTURE \<or>
                  video_type (request r) = MEDIA_DEVICE_VIDEO_CAPTURE)"
| "admissible m (EvDevicesEnumerated k devs) =
     ((k = MEDIA_DEVICE_AUDIO_CAPTURE \<or> k = MEDIA_DEVICE_VIDEO_CAPTURE) \<and>
      list_all (\<lambda>d. device_type (device d) = k) devs)"
| "admissible m (EvHandleAccessRequestResponse label devs) =
     (case FindRequest m label of
        None \<Rightarrow> True
      | Some r \<Rightarrow>
          list_all (\<lambda>dev. device_type dev \<noteq> NUM_MEDIA_TYPES \<and>
                          Requested (request r) (device_type dev)) devs)"
| "admissible m ev = True"

text \<open>
  \<open>admitted E m evs\<close>: every event of \<open>evs\<close>, processed from \<open>m\<close> on, is admissible
  in the state in which it arrives.
\<close>

fun admitted :: "env \<Rightarrow> MediaStreamManager \<Rightarrow> event list \<Rightarrow> bool" where
  "admitted E m [] = True"
| "admitted E m (ev # evs) =
     (admissible m ev \<and>
      (case step E m ev of
         None \<Rightarrow> True
       | Some m' \<Rightarrow> admitted E m' evs))"

text \<open>
  The events processed in order, none refused; \<open>None\<close> is an operation that does not
  return.
\<close>

fun play :: "env \<Rightarrow> MediaStreamManager \<Rightarrow> event list \<Rightarrow> MediaStreamManager option" where
  "play E m [] = Some m"
| "play E m (ev # evs) =
     (case step E m ev of
        None \<Rightarrow> None
      | Some m' \<Rightarrow> play E m' evs)"

text \<open>
  \<open>issues ev label\<close>: the event is an entry point for which the random generator
  returns \<open>label\<close>, so that the new request may be registered under it.
  \<open>no_new_labels m m'\<close>: every label of the registry of \<open>m'\<close> is one of \<open>m\<close>.
\<close>

fun issues :: "event \<Rightarrow> string \<Rightarrow> bool" where
  "issues (EvMakeMediaAccessRequest pid vid page options origin cb labels) label =
     (label \<in> set labels)"
| "issues (EvGenerateStream rq pid vid rc page options origin labels) label =
     (label \<in> set labels)"
| "issues (EvEnumerateDevices rq pid vid rc page t origin labels) label =
     (label \<in> set labels)"
| "issues (EvOpenDevice rq pid vid rc page dev_id t origin labels) label =
     (label \<in> set labels)"
| "issues ev label = False"

definition no_new_labels :: "MediaStreamManager \<Rightarrow> MediaStreamManager \<Rightarrow> bool" where
  "no_new_labels m m' \<longleftrightarrow> set (map fst (requests m')) \<subseteq> set (map fst (requests m))"

text \<open>
  A label that is issued twice: a stream request is registered under \<open>L\<close> and
  cancelled, a second stream request gets the label \<open>L\<close> again, and then the answer of
  the permission surface to the first request arrives, with no device.
\<close>

definition reissue_events :: "event list" where
  "reissue_events =
     [EvGenerateStream (Some 7) 1 2 (Some 0) 3
        (StreamOptions_new\<lparr>options_audio_type := MEDIA_DEVICE_AUDIO_CAPTURE\<rparr>) ''o'' [''L''],
      EvCancelRequest ''L'',
      EvGenerateStream (Some 8) 1 2 (Some 0) 4
        (StreamOptions_new\<lparr>options_audio_type := MEDIA_DEVICE_AUDIO_CAPTURE\<rparr>) ''o'' [''L''],
      EvHandleAccessRequestResponse ''L'' []]"

text \<open>
  What happens after the request \<open>L\<close> is gone: a late continuation for \<open>L\<close>, a new
  request, which gets the label \<open>M\<close>, and the cancellation of the request \<open>K\<close>.
\<close>

definition later_events :: "event list" where
  "later_events =
     [EvSetupRequest ''L'',
      EvOpenDevice (Some 9) 1 2 (Some 0) 5 ''cam'' MEDIA_DEVICE_VIDEO_CAPTURE ''o'' [''K'', ''M''],
      EvCancelRequest ''K'']"

section \<open>Properties\<close>

subsection \<open>Deleting a request\<close>

lemma FindRequest_DeleteRequest:
  "DeleteRequest m0 label = Some m1 \<Longrightarrow> FindRequest m1 label = None"
  by (auto simp: DeleteRequest_def FindRequest_def map_of_eq_None_iff split: if_splits)

subsection \<open>An empty answer of the permission surface\<close>

text \<open>
  C2. When the permission surface answers with no device, a stream or open-device
  request is failed: \<^verbatim>\<open>StreamGenerationFailed\<close> goes to its requester (if it has one)
  and nothing else is called, so no provider \<^verbatim>\<open>Open\<close>; the request is deleted and
  the other requests stay as they are. For an access check the callback (if there is
  one) runs with the empty device list, and the request is deleted.
\<close>

theorem empty_permission_response_fails_request:
  assumes "FindRequest m label = Some r"
  shows "(request_type (request r) = MEDIA_GENERATE_STREAM \<or>
          request_type (request r) = MEDIA_OPEN_DEVICE \<longrightarrow>
            (\<exists>m'. HandleAccessRequestResponse E m label [] = Some m' \<and>
                  FindRequest m' label = None \<and>
                  requests m' = filter (\<lambda>p. fst p \<noteq> label) (requests m) \<and>
                  effects m' = effects m @
                    (case requester r of None \<Rightarrow> [] | Some q \<Rightarrow> [StreamGenerationFailed q label]))) \<and>
         (request_type (request r) = MEDIA_DEVICE_ACCESS \<longrightarrow>
            (\<exists>m'. HandleAccessRequestResponse E m label [] = Some m' \<and>
                  FindRequest m' label = None \<and>
                  requests m' = filter (\<lambda>p. fst p \<noteq> label) (requests m) \<and>
                  effects m' = effects m @
                    (case callback r of None \<Rightarrow> [] | Some cb \<Rightarrow> [CallbackRun cb [] (ui_proxy r)])))"
  using assms
  by (auto simp: HandleAccessRequestResponse_def FinalizeRequestFailed_def
      FinalizeMediaAccessRequest_def DeleteRequest_def emit_def FindRequest_def
      map_of_eq_None_iff split: option.splits)

theorem empty_permission_response_witness:
  "(let r = test_request MEDIA_GENERATE_STREAM MEDIA_DEVICE_AUDIO_CAPTURE MEDIA_DEVICE_VIDEO_CAPTURE;
        a = (test_request MEDIA_DEVICE_ACCESS MEDIA_DEVICE_AUDIO_CAPTURE MEDIA_NO_SERVICE)
              \<lparr>requester := None, callback := Some 5\<rparr>;
        m = manager_with [(''A'', a), (''L'', r)]
    in FindRequest m ''L'' = Some r \<and> FindRequest m ''A'' = Some a \<and>
       (\<exists>m1. HandleAccessRequestResponse test_env m ''L'' [] = Some m1 \<and>
             FindRequest m1 ''L'' = None \<and> requests m1 = [(''A'', a)] \<and>
             effects m1 = [StreamGenerationFailed 7 ''L'']) \<and>
       (\<exists>m2. HandleAccessRequestResponse test_env m ''A'' [] = Some m2 \<and>
             FindRequest m2 ''A'' = None \<and> requests m2 = [(''L'', r)] \<and>
             effects m2 = [CallbackRun 5 [] None]))"
proof -
  let ?r = "test_request MEDIA_GENERATE_STREAM MEDIA_DEVICE_AUDIO_CAPTURE MEDIA_DEVICE_VIDEO_CAPTURE"
  let ?a = "(test_request MEDIA_DEVICE_ACCESS MEDIA_DEVICE_AUDIO_CAPTURE MEDIA_NO_SERVICE)
              \<lparr>requester := None, callback := Some 5\<rparr>"
  let ?m = "manager_with [(''A'', ?a), (''L'', ?r)]"
  have l: "FindRequest ?m ''L'' = Some ?r" and a: "FindRequest ?m ''A'' = Some ?a"
    by (simp_all add: FindRequest_def manager_with_def)
  have tl: "request_type (request ?r) = MEDIA_GENERATE_STREAM" "requester ?r = Some 7"
    and ta: "request_type (request ?a) = MEDIA_DEVICE_ACCESS" "callback ?a = Some 5" "ui_proxy ?a = None"
    by (simp_all add: test_request_def DeviceRequest_new_def MediaStreamRequest_new_def)
  have m: "requests ?m = [(''A'', ?a), (''L'', ?r)]" "effects ?m = []"
    by (simp_all add: manager_with_def MediaStreamManager_new_def)
  from empty_permission_response_fails_request [OF l, of test_env] tl
  have 1: "\<exists>m1. HandleAccessRequestResponse test_env ?m ''L'' [] = Some m1 \<and>
             FindRequest m1 ''L'' = None \<and> requests m1 = [(''A'', ?a)] \<and>
             effects m1 = [StreamGenerationFailed 7 ''L'']"
    by (simp add: m)
  from empty_permission_response_fails_request [OF a, of test_env] ta
  have 2: "\<exists>m2. HandleAccessRequestResponse test_env ?m ''A'' [] = Some m2 \<and>
             FindRequest m2 ''A'' = None \<and> requests m2 = [(''L'', ?r)] \<and>
             effects m2 = [CallbackRun 5 [] None]"
    by (simp add: m)
  show ?thesis
    unfolding Let_def using l a 1 2 by blast
qed

subsection \<open>Basic facts about the registry and the request state\<close>

lemma type_index_inject [simp]: "type_index a = type_index b \<longleftrightarrow> a = b"
  by (cases a; cases b) simp_all

lemma type_index_less: "t \<noteq> NUM_MEDIA_TYPES \<Longrightarrow> type_index t < 7"
  by (cases t) simp_all

lemma audio_not_video: "IsAudioMediaType t \<Longrightarrow> \<not> IsVideoMediaType t"
  by (cases t) simp_all

lemma audio_not_NUM: "IsAudioMediaType t \<Longrightarrow> t \<noteq> NUM_MEDIA_TYPES"
  by (cases t) simp_all

lemma video_not_NUM: "IsVideoMediaType t \<Longrightarrow> t \<noteq> NUM_MEDIA_TYPES"
  by (cases t) simp_all

lemma FindRequest_emit [simp]: "FindRequest (emit es m) l = FindRequest m l"
  by (simp add: FindRequest_def emit_def)

lemma requests_emit [simp]: "requests (emit es m) = requests m"
  by (simp add: emit_def)

lemma effects_emit [simp]: "effects (emit es m) = effects m @ es"
  by (simp add: emit_def)

lemma map_of_store:
  "map_of (map (\<lambda>p. if fst p = label then (label, r) else p) ps) l =
     (if l = label then (case map_of ps label of None \<Rightarrow> None | Some x \<Rightarrow> Some r)
      else map_of ps l)"
  by (induction ps) auto

lemma FindRequest_store_request:
  "FindRequest (store_request label r m) l =
     (if l = label then (case FindRequest m label of None \<Rightarrow> None | Some x \<Rightarrow> Some r)
      else FindRequest m l)"
  by (simp add: FindRequest_def store_request_def map_of_store)

lemma effects_store_request [simp]: "effects (store_request label r m) = effects m"
  by (simp add: store_request_def)

lemma SetState_fields [simp]:
  "request (fst (SetState E r t s)) = request r"
  "requester (fst (SetState E r t s)) = requester r"
  "devices (fst (SetState E r t s)) = devices r"
  "ui_proxy (fst (SetState E r t s)) = ui_proxy r"
  "callback (fst (SetState E r t s)) = callback r"
  "resource_context (fst (SetState E r t s)) = resource_context r"
  "requesting_process_id (fst (SetState E r t s)) = requesting_process_id r"
  "requesting_view_id (fst (SetState E r t s)) = requesting_view_id r"
  by (simp_all add: SetState_def Let_def)

lemma length_fold_update [simp]:
  "length (fold (\<lambda>t v. v[f t := s]) ts v) = length v"
  by (induction ts arbitrary: v) simp_all

lemma SetState_length [simp]:
  "length (state_vector (fst (SetState E r t s))) = length (state_vector r)"
  by (simp add: SetState_def Let_def)

lemma state_SetState:
  "t \<noteq> NUM_MEDIA_TYPES \<Longrightarrow> length (state_vector r) = 7 \<Longrightarrow> t' \<noteq> NUM_MEDIA_TYPES \<Longrightarrow>
   state (fst (SetState E r t s)) t' = (if t' = t then s else state r t')"
  by (auto simp: SetState_def Let_def state_def type_index_less)

lemma state_SetState_all:
  "length (state_vector r) = 7 \<Longrightarrow> t' \<noteq> NUM_MEDIA_TYPES \<Longrightarrow>
   state (fst (SetState E r NUM_MEDIA_TYPES s)) t' =
     (if t' = MEDIA_NO_SERVICE then state r t' else s)"
  by (cases t') (simp_all add: SetState_def Let_def state_def media_types_def)

subsection \<open>The loop over the approved devices\<close>

lemma device_type_prepare_device [simp]:
  "device_type (prepare_device E r dev) = device_type dev"
  by (simp add: prepare_device_def Let_def)

lemma HandleAccessRequestResponse_devices_request:
  "HandleAccessRequestResponse_devices E m label fa fv devs = Some res \<Longrightarrow>
   FindRequest m label = Some r \<Longrightarrow>
   \<exists>r'. FindRequest (fst res) label = Some r' \<and> request r' = request r \<and>
        requester r' = requester r \<and> ui_proxy r' = ui_proxy r \<and>
        length (state_vector r') = length (state_vector r) \<and>
        fst (snd res) = (fa \<or> list_ex (\<lambda>d. device_type d = audio_type (request r)) devs) \<and>
        snd (snd res) = (fv \<or> list_ex (\<lambda>d. device_type d \<noteq> audio_type (request r) \<and>
                                             device_type d = video_type (request r)) devs)"
proof (induction devs arbitrary: m fa fv r)
  case Nil
  then show ?case by auto
next
  case (Cons dev0 devs)
  let ?dev = "prepare_device E r dev0"
  let ?fa = "fa \<or> device_type ?dev = audio_type (request r)"
  let ?fv = "fv \<or> (device_type ?dev \<noteq> audio_type (request r) \<and>
                     device_type ?dev = video_type (request r))"
  show ?case
  proof (cases "if request_type (request r) = MEDIA_GENERATE_STREAM
                then FindExistingRequestedDeviceInfo E m r ?dev else None")
    case (Some existing)
    let ?st = "SetState E (r\<lparr>devices := devices r @ [fst existing]\<rparr>)
                (device_type (device (fst existing))) (snd existing)"
    let ?m1 = "emit (snd ?st) (store_request label (fst ?st) m)"
    from Cons.prems Some
    have run: "HandleAccessRequestResponse_devices E ?m1 label ?fa ?fv devs = Some res"
      by (simp add: Let_def)
    have find: "FindRequest ?m1 label = Some (fst ?st)"
      using Cons.prems(2) by (simp add: FindRequest_store_request)
    from Cons.IH [OF run find] show ?thesis by auto
  next
    case None
    let ?sid = "provider_Open E (effects m) ?dev"
    let ?info = "\<lparr>device = TranslateDeviceIdToSourceId E r ?dev, session_id = ?sid\<rparr>"
    let ?st = "SetState E (r\<lparr>devices := devices r @ [?info]\<rparr>)
                (device_type (device ?info)) MEDIA_REQUEST_STATE_OPENING"
    let ?m1 = "emit (ProviderOpen ?dev ?sid # snd ?st) (store_request label (fst ?st) m)"
    from Cons.prems None
    have run: "HandleAccessRequestResponse_devices E ?m1 label ?fa ?fv devs = Some res"
      by (simp add: Let_def split: if_splits)
    have find: "FindRequest ?m1 label = Some (fst ?st)"
      using Cons.prems(2) by (simp add: FindRequest_store_request)
    from Cons.IH [OF run find] show ?thesis by auto
  qed
qed

lemma HandleAccessRequestResponse_marks_audio_error:
  assumes find: "FindRequest m label = Some r"
    and len: "length (state_vector r) = 7"
    and rt: "request_type (request r) \<noteq> MEDIA_DEVICE_ACCESS"
    and devs: "devs \<noteq> []"
    and audio: "IsAudioMediaType (audio_type (request r))"
    and none: "\<not> list_ex (\<lambda>d. device_type d = audio_type (request r)) devs"
    and run: "HandleAccessRequestResponse E m label devs = Some m'"
  shows "\<exists>r'. FindRequest m' label = Some r' \<and> request r' = request r \<and>
              state r' (audio_type (request r)) = MEDIA_REQUEST_STATE_ERROR"
proof -
  from run find rt devs obtain res where
    loop: "HandleAccessRequestResponse_devices E m label False False devs = Some res"
    by (auto simp: HandleAccessRequestResponse_def split: option.splits)
  from HandleAccessRequestResponse_devices_request [OF loop find] none obtain r1 where
    r1: "FindRequest (fst res) label = Some r1" "request r1 = request r"
      "length (state_vector r1) = 7" "\<not> fst (snd res)"
    using len by auto
  let ?a = "SetState E r1 (audio_type (request r1)) MEDIA_REQUEST_STATE_ERROR"
  let ?v = "if \<not> snd (snd res) \<and> IsVideoMediaType (video_type (request r1))
            then SetState E (fst ?a) (video_type (request r1)) MEDIA_REQUEST_STATE_ERROR
            else (fst ?a, [])"
  have ne: "IsVideoMediaType (video_type (request r1)) \<Longrightarrow>
            video_type (request r1) \<noteq> audio_type (request r1)"
    using audio r1(2) audio_not_video by auto
  have st: "state (fst ?v) (audio_type (request r)) = MEDIA_REQUEST_STATE_ERROR"
    using r1 audio ne
    by (auto simp: state_SetState audio_not_NUM video_not_NUM)
  have req: "request (fst ?v) = request r"
    using r1 by auto
  have "FindRequest m' label = Some (fst ?v)"
    using run find rt devs loop r1 audio
    by (auto simp: HandleAccessRequestResponse_def Let_def FindRequest_store_request
        split: option.splits if_splits)
  with st req show ?thesis by blast
qed

subsection \<open>Completion of the open of a video device\<close>

lemma RequestDone_iff:
  "RequestDone r \<longleftrightarrow>
     (IsAudioMediaType (audio_type (request r)) \<longrightarrow>
        state r (audio_type (request r)) = MEDIA_REQUEST_STATE_DONE \<or>
        state r (audio_type (request r)) = MEDIA_REQUEST_STATE_ERROR) \<and>
     (IsVideoMediaType (video_type (request r)) \<longrightarrow>
        state r (video_type (request r)) = MEDIA_REQUEST_STATE_DONE \<or>
        state r (video_type (request r)) = MEDIA_REQUEST_STATE_ERROR)"
  by (auto simp: RequestDone_def Let_def)

lemma Opened_devices_partial:
  assumes t: "IsVideoMediaType t" "video_type (request r) = t"
    and st_open: "state r t = MEDIA_REQUEST_STATE_OPENING"
    and audio: "IsAudioMediaType (audio_type (request r))"
      "state r (audio_type (request r)) = MEDIA_REQUEST_STATE_ERROR"
    and len: "length (state_vector r) = 7"
    and rt: "request_type (request r) = MEDIA_GENERATE_STREAM"
    and rq: "requester r = Some q"
    and held: "list_ex (\<lambda>d. device_type (device d) = t \<and> session_id d = sid) ds"
  shows "\<exists>es. Opened_devices E label r t sid passed ds =
                Some ((fst (SetState E r t MEDIA_REQUEST_STATE_DONE))\<lparr>devices := passed @ ds\<rparr>, es) \<and>
              StreamGenerated q label
                (filter (\<lambda>d. IsAudioMediaType (device_type (device d))) (passed @ ds))
                (filter (\<lambda>d. \<not> IsAudioMediaType (device_type (device d)) \<and>
                             IsVideoMediaType (device_type (device d))) (passed @ ds)) \<in> set es"
  using held
proof (induction ds arbitrary: passed)
  case Nil
  then show ?case by simp
next
  case (Cons d ds)
  show ?case
  proof (cases "device_type (device d) = t \<and> session_id d = sid")
    case True
    let ?r1 = "(fst (SetState E r t MEDIA_REQUEST_STATE_DONE))\<lparr>devices := passed @ d # ds\<rparr>"
    have ne: "audio_type (request r) \<noteq> t"
      using t(1) audio(1) audio_not_video by auto
    have "state ?r1 t = MEDIA_REQUEST_STATE_DONE"
      "state ?r1 (audio_type (request r)) = MEDIA_REQUEST_STATE_ERROR"
      using state_SetState [where t = t and r = r and t' = t and E = E and s = MEDIA_REQUEST_STATE_DONE]
        state_SetState [where t = t and r = r and t' = "audio_type (request r)" and E = E
          and s = MEDIA_REQUEST_STATE_DONE]
        t audio len ne
      by (auto simp: state_def audio_not_NUM video_not_NUM)
    then have fin: "RequestDone ?r1"
      using t by (simp add: RequestDone_iff)
    have "\<not> IsAudioMediaType t"
      using t(1) audio_not_video by auto
    with True st_open fin rt rq show ?thesis
      by (simp add: Let_def HandleRequestDone_def FinalizeGenerateStream_def)
  next
    case False
    with Cons.prems have "list_ex (\<lambda>d. device_type (device d) = t \<and> session_id d = sid) ds"
      by auto
    from Cons.IH [OF this, of "passed @ [d]"] False show ?thesis
      by auto
  qed
qed

lemma Opened_requests_find:
  "Opened_requests E t sid ps = Some res \<Longrightarrow> map_of ps label = Some r \<Longrightarrow>
   \<exists>r' es. Opened_devices E label r t sid [] (devices r) = Some (r', es) \<and>
           map_of (fst res) label = Some r' \<and> set es \<subseteq> set (snd res)"
proof (induction ps arbitrary: res)
  case Nil
  then show ?case by simp
next
  case (Cons p ps)
  from Cons.prems(1) obtain res1 res2 where
    1: "Opened_devices E (fst p) (snd p) t sid [] (devices (snd p)) = Some res1"
    and 2: "Opened_requests E t sid ps = Some res2"
    and res: "res = ((fst p, fst res1) # fst res2, snd res1 @ snd res2)"
    by (auto split: option.splits)
  show ?case
  proof (cases "fst p = label")
    case True
    with Cons.prems(2) have "snd p = r" by (cases p) auto
    with True 1 res show ?thesis by (cases res1) auto
  next
    case False
    with Cons.prems(2) have "map_of ps label = Some r" by (cases p) auto
    from Cons.IH [OF 2 this] False res show ?thesis by auto
  qed
qed

lemma HandleAccessRequestResponse_devices_total:
  "FindRequest m label = Some r \<Longrightarrow>
   list_all (\<lambda>d. GetDeviceManager (device_type d)) devs \<Longrightarrow>
   \<exists>res r'. HandleAccessRequestResponse_devices E m label fa fv devs = Some res \<and>
           FindRequest (fst res) label = Some r' \<and>
           length (devices r') = length (devices r) + length devs"
proof (induction devs arbitrary: m fa fv r)
  case Nil
  then show ?case by simp
next
  case (Cons dev0 devs)
  let ?dev = "prepare_device E r dev0"
  let ?fa = "fa \<or> device_type ?dev = audio_type (request r)"
  let ?fv = "fv \<or> (device_type ?dev \<noteq> audio_type (request r) \<and>
                     device_type ?dev = video_type (request r))"
  from Cons.prems(2) have rest: "list_all (\<lambda>d. GetDeviceManager (device_type d)) devs"
    and mgr: "GetDeviceManager (device_type ?dev)"
    by simp_all
  show ?case
  proof (cases "if request_type (request r) = MEDIA_GENERATE_STREAM
                then FindExistingRequestedDeviceInfo E m r ?dev else None")
    case (Some existing)
    let ?st = "SetState E (r\<lparr>devices := devices r @ [fst existing]\<rparr>)
                (device_type (device (fst existing))) (snd existing)"
    let ?m1 = "emit (snd ?st) (store_request label (fst ?st) m)"
    have step: "HandleAccessRequestResponse_devices E m label fa fv (dev0 # devs) =
                HandleAccessRequestResponse_devices E ?m1 label ?fa ?fv devs"
      using Cons.prems(1) Some by (simp add: Let_def)
    have find: "FindRequest ?m1 label = Some (fst ?st)"
      using Cons.prems(1) by (simp add: FindRequest_store_request)
    from Cons.IH [OF find rest, where fa = ?fa and fv = ?fv] step show ?thesis by auto
  next
    case None
    let ?sid = "provider_Open E (effects m) ?dev"
    let ?info = "\<lparr>device = TranslateDeviceIdToSourceId E r ?dev, session_id = ?sid\<rparr>"
    let ?st = "SetState E (r\<lparr>devices := devices r @ [?info]\<rparr>)
                (device_type (device ?info)) MEDIA_REQUEST_STATE_OPENING"
    let ?m1 = "emit (ProviderOpen ?dev ?sid # snd ?st) (store_request label (fst ?st) m)"
    have step: "HandleAccessRequestResponse_devices E m label fa fv (dev0 # devs) =
                HandleAccessRequestResponse_devices E ?m1 label ?fa ?fv devs"
      using Cons.prems(1) None mgr by (simp add: Let_def)
    have find: "FindRequest ?m1 label = Some (fst ?st)"
      using Cons.prems(1) by (simp add: FindRequest_store_request)
    from Cons.IH [OF find rest, where fa = ?fa and fv = ?fv] step show ?thesis by auto
  qed
qed

lemma HandleRequestDone_total:
  "requester r \<noteq> None \<Longrightarrow> devices r \<noteq> [] \<Longrightarrow> \<exists>es. HandleRequestDone label r = Some es"
  by (cases "request_type (request r)"; cases "devices r")
    (auto simp: HandleRequestDone_def FinalizeOpenDevice_def FinalizeGenerateStream_def)

lemma HandleAccessRequestResponse_total:
  assumes find: "FindRequest m label = Some r"
    and rt: "request_type (request r) \<noteq> MEDIA_DEVICE_ACCESS"
    and devs: "devs \<noteq> []" "list_all (\<lambda>d. GetDeviceManager (device_type d)) devs"
    and rq: "requester r \<noteq> None"
  shows "\<exists>m'. HandleAccessRequestResponse E m label devs = Some m'"
proof -
  from HandleAccessRequestResponse_devices_total [OF find devs(2), where E = E and fa = False and fv = False]
  obtain res r1 where
    loop: "HandleAccessRequestResponse_devices E m label False False devs = Some res"
    and r1: "FindRequest (fst res) label = Some r1"
      "length (devices r1) = length (devices r) + length devs"
    by blast
  from HandleAccessRequestResponse_devices_request [OF loop find] r1(1)
  have rq1: "requester r1 = requester r" by auto
  let ?a = "if \<not> fst (snd res) \<and> IsAudioMediaType (audio_type (request r1))
            then SetState E r1 (audio_type (request r1)) MEDIA_REQUEST_STATE_ERROR
            else (r1, [])"
  let ?v = "if \<not> snd (snd res) \<and> IsVideoMediaType (video_type (request r1))
            then SetState E (fst ?a) (video_type (request r1)) MEDIA_REQUEST_STATE_ERROR
            else (fst ?a, [])"
  have "requester (fst ?v) \<noteq> None" "devices (fst ?v) \<noteq> []"
    using rq rq1 r1(2) devs(1) by auto
  from HandleRequestDone_total [OF this, where label = label] obtain es where
    "HandleRequestDone label (fst ?v) = Some es" by blast
  then show ?thesis
    using find rt devs(1) loop r1(1)
    by (simp add: HandleAccessRequestResponse_def Let_def)
qed

lemma Opened_devices_total:
  assumes t: "\<not> IsAudioMediaType t"
    and ok: "list_ex (\<lambda>d. device_type (device d) = t \<and> session_id d = sid) ds \<longrightarrow>
             state r t = MEDIA_REQUEST_STATE_OPENING \<and> requester r \<noteq> None"
  shows "\<exists>res. Opened_devices E label r t sid passed ds = Some res"
  using ok
proof (induction ds arbitrary: passed)
  case Nil
  then show ?case by simp
next
  case (Cons d ds)
  show ?case
  proof (cases "device_type (device d) = t \<and> session_id d = sid")
    case True
    let ?r1 = "(fst (SetState E r t MEDIA_REQUEST_STATE_DONE))\<lparr>devices := passed @ d # ds\<rparr>"
    from True Cons.prems have st: "state r t = MEDIA_REQUEST_STATE_OPENING"
      and rq: "requester r \<noteq> None" by auto
    have "requester ?r1 \<noteq> None" "devices ?r1 \<noteq> []" using rq by auto
    from HandleRequestDone_total [OF this, where label = label] obtain es where
      "HandleRequestDone label ?r1 = Some es" by blast
    with True st t show ?thesis by (simp add: Let_def)
  next
    case False
    with Cons.prems
    have "list_ex (\<lambda>d. device_type (device d) = t \<and> session_id d = sid) ds \<longrightarrow>
          state r t = MEDIA_REQUEST_STATE_OPENING \<and> requester r \<noteq> None"
      by auto
    from Cons.IH [OF this, of "passed @ [d]"] False show ?thesis by auto
  qed
qed

lemma Opened_requests_total:
  assumes t: "\<not> IsAudioMediaType t"
  shows "list_all (\<lambda>p. list_ex (\<lambda>d. device_type (device d) = t \<and> session_id d = sid)
                        (devices (snd p)) \<longrightarrow>
                     state (snd p) t = MEDIA_REQUEST_STATE_OPENING \<and> requester (snd p) \<noteq> None) ps \<Longrightarrow>
         \<exists>res. Opened_requests E t sid ps = Some res"
proof (induction ps)
  case Nil
  then show ?case by simp
next
  case (Cons p ps)
  from Cons.prems Opened_devices_total [OF t, where ds = "devices (snd p)" and sid = sid and r = "snd p" and E = E and label = "fst p" and passed = "[]"]
  obtain res1 where "Opened_devices E (fst p) (snd p) t sid [] (devices (snd p)) = Some res1"
    by auto
  moreover from Cons obtain res where "Opened_requests E t sid ps = Some res" by auto
  ultimately show ?case by simp
qed

lemma not_delivers_SetState [simp]:
  "list_all (\<lambda>e. \<not> delivers_stream e) (snd (SetState E r t s))"
  by (simp add: SetState_def Let_def delivers_stream_def)

lemma HandleAccessRequestResponse_devices_effects:
  "HandleAccessRequestResponse_devices E m label fa fv devs = Some res \<Longrightarrow>
   \<exists>es. effects (fst res) = effects m @ es \<and> list_all (\<lambda>e. \<not> delivers_stream e) es"
proof (induction devs arbitrary: m fa fv)
  case Nil
  then show ?case by auto
next
  case (Cons dev0 devs)
  from Cons.prems obtain r where r: "FindRequest m label = Some r"
    by (auto split: option.splits)
  from Cons.prems r obtain m' es1 fa' fv' where
    m': "effects m' = effects m @ es1" "list_all (\<lambda>e. \<not> delivers_stream e) es1"
    and run: "HandleAccessRequestResponse_devices E m' label fa' fv' devs = Some res"
  proof (cases "if request_type (request r) = MEDIA_GENERATE_STREAM
                then FindExistingRequestedDeviceInfo E m r (prepare_device E r dev0) else None")
    case None
    let ?dev = "prepare_device E r dev0"
    let ?info = "\<lparr>device = TranslateDeviceIdToSourceId E r ?dev,
                  session_id = provider_Open E (effects m) ?dev\<rparr>"
    let ?st = "SetState E (r\<lparr>devices := devices r @ [?info]\<rparr>)
                 (device_type (device ?info)) MEDIA_REQUEST_STATE_OPENING"
    let ?m' = "emit (ProviderOpen ?dev (provider_Open E (effects m) ?dev) # snd ?st)
               (store_request label (fst ?st) m)"
    from Cons.prems r None
    have "HandleAccessRequestResponse_devices E ?m'
            label (fa \<or> device_type ?dev = audio_type (request r))
            (fv \<or> (device_type ?dev \<noteq> audio_type (request r) \<and>
                    device_type ?dev = video_type (request r))) devs = Some res"
      by (simp add: Let_def split: if_splits)
    moreover have "effects ?m' = effects m @
        (ProviderOpen ?dev (provider_Open E (effects m) ?dev) # snd ?st)"
      by simp
    moreover have "list_all (\<lambda>e. \<not> delivers_stream e)
        (ProviderOpen ?dev (provider_Open E (effects m) ?dev) # snd ?st)"
      using not_delivers_SetState [of E "r\<lparr>devices := devices r @ [?info]\<rparr>"
          "device_type (device ?info)" MEDIA_REQUEST_STATE_OPENING]
      by (simp add: delivers_stream_def)
    ultimately show ?thesis using that by blast
  next
    case (Some ex)
    let ?dev = "prepare_device E r dev0"
    let ?st = "SetState E (r\<lparr>devices := devices r @ [fst ex]\<rparr>)
                 (device_type (device (fst ex))) (snd ex)"
    let ?m' = "emit (snd ?st) (store_request label (fst ?st) m)"
    from Cons.prems r Some
    have "HandleAccessRequestResponse_devices E ?m'
            label (fa \<or> device_type ?dev = audio_type (request r))
            (fv \<or> (device_type ?dev \<noteq> audio_type (request r) \<and>
                    device_type ?dev = video_type (request r))) devs = Some res"
      by (simp add: Let_def)
    moreover have "effects ?m' = effects m @ snd ?st" by simp
    moreover have "list_all (\<lambda>e. \<not> delivers_stream e) (snd ?st)"
      by (rule not_delivers_SetState)
    ultimately show ?thesis using that by blast
  qed
  from Cons.IH [OF run] obtain es where
    "effects (fst res) = effects m' @ es" "list_all (\<lambda>e. \<not> delivers_stream e) es"
    by blast
  with m' have "effects (fst res) = effects m @ (es1 @ es) \<and>
     list_all (\<lambda>e. \<not> delivers_stream e) (es1 @ es)"
    by simp
  then show ?case by blast
qed

lemma HandleAccessRequestResponse_finalizes:
  assumes find: "FindRequest m label = Some r"
    and gen: "request_type (request r) = MEDIA_GENERATE_STREAM"
    and q: "requester r = Some q"
    and ne: "devs \<noteq> []"
    and run: "HandleAccessRequestResponse E m label devs = Some m1"
  shows "\<exists>r1 es. FindRequest m1 label = Some r1 \<and> request r1 = request r \<and>
      effects m1 = effects m @ es \<and>
      (if RequestDone r1
       then \<exists>es0. list_all (\<lambda>e. \<not> delivers_stream e) es0 \<and>
              es = es0 @
                StreamGenerated q label
                  (filter (\<lambda>d. IsAudioMediaType (device_type (device d))) (devices r1))
                  (filter (\<lambda>d. \<not> IsAudioMediaType (device_type (device d)) \<and>
                               IsVideoMediaType (device_type (device d))) (devices r1)) #
                (if ui_proxy r1 \<noteq> None then [UIOnStarted label] else [])
       else list_all (\<lambda>e. \<not> delivers_stream e) es)"
proof -
  from run find gen ne obtain res r0 where
    res: "HandleAccessRequestResponse_devices E m label False False devs = Some res"
    and r0: "FindRequest (fst res) label = Some r0"
    by (auto simp: HandleAccessRequestResponse_def split: option.splits)
  from HandleAccessRequestResponse_devices_request [OF res find] r0
  have same: "request r0 = request r" "requester r0 = requester r"
    by auto
  from HandleAccessRequestResponse_devices_effects [OF res] obtain es1 where
    es1: "effects (fst res) = effects m @ es1" "list_all (\<lambda>e. \<not> delivers_stream e) es1"
    by blast
  let ?a = "if \<not> fst (snd res) \<and> IsAudioMediaType (audio_type (request r0))
            then SetState E r0 (audio_type (request r0)) MEDIA_REQUEST_STATE_ERROR
            else (r0, [])"
  let ?v = "if \<not> snd (snd res) \<and> IsVideoMediaType (video_type (request r0))
            then SetState E (fst ?a) (video_type (request r0)) MEDIA_REQUEST_STATE_ERROR
            else (fst ?a, [])"
  let ?m1 = "emit (snd ?a @ snd ?v) (store_request label (fst ?v) (fst res))"
  let ?es2 = "es1 @ snd ?a @ snd ?v"
  have fv: "request (fst ?v) = request r" "requester (fst ?v) = Some q"
    using same q by simp_all
  have f1: "FindRequest ?m1 label = Some (fst ?v)"
    using r0 by (simp add: FindRequest_store_request)
  have e1: "effects ?m1 = effects m @ ?es2" using es1 by simp
  have q2: "list_all (\<lambda>e. \<not> delivers_stream e) ?es2"
    using es1(2) by simp
  show ?thesis
  proof (cases "RequestDone (fst ?v)")
    case False
    with run find gen ne res r0 have "m1 = ?m1"
      by (simp add: HandleAccessRequestResponse_def Let_def)
    with f1 e1 q2 fv False show ?thesis by auto
  next
    case True
    let ?sg = "StreamGenerated q label
                  (filter (\<lambda>d. IsAudioMediaType (device_type (device d))) (devices (fst ?v)))
                  (filter (\<lambda>d. \<not> IsAudioMediaType (device_type (device d)) \<and>
                               IsVideoMediaType (device_type (device d))) (devices (fst ?v))) #
                (if ui_proxy (fst ?v) \<noteq> None then [UIOnStarted label] else [])"
    have hd: "HandleRequestDone label (fst ?v) = Some ?sg"
      using fv gen by (simp add: HandleRequestDone_def FinalizeGenerateStream_def)
    with run find gen ne res r0 True have m1: "m1 = emit ?sg ?m1"
      by (simp add: HandleAccessRequestResponse_def Let_def)
    then have "FindRequest m1 label = Some (fst ?v)" "effects m1 = effects m @ (?es2 @ ?sg)"
      using f1 e1 by simp_all
    with q2 fv True show ?thesis by (intro exI [of _ "fst ?v"] exI [of _ "?es2 @ ?sg"]) auto
  qed
qed

text \<open>
  C1. \<^verbatim>\<open>RequestDone\<close> holds exactly when the audio kind, if the descriptor asks for
  one, is \<^verbatim>\<open>DONE\<close> or \<^verbatim>\<open>ERROR\<close>, and likewise the video kind; a kind that
  is not asked for counts as done. A partial failure still finalizes, at whichever of
  the two places the request becomes done. When the permission surface approves devices
  none of which has the requested audio kind, \<^verbatim>\<open>HandleAccessRequestResponse\<close>
  returns with that kind \<^verbatim>\<open>ERROR\<close>. At its end \<^verbatim>\<open>HandleAccessRequestResponse\<close>
  finalizes a stream request exactly if it is done then (as when the video device is
  shared with a request that has it \<^verbatim>\<open>DONE\<close> already): the last calls it makes are
  \<^verbatim>\<open>StreamGenerated\<close> to the requester, with the audio and the video devices of the
  request, and the notification of the permission surface if the request has one; if
  the request is not done it delivers no stream. And when the open of the video device
  completes later, while the audio kind is \<^verbatim>\<open>ERROR\<close>, \<^verbatim>\<open>Opened\<close> returns, the
  request is done with audio \<^verbatim>\<open>ERROR\<close> and video \<^verbatim>\<open>DONE\<close>, and its requester
  gets \<^verbatim>\<open>StreamGenerated\<close> with the audio and the video devices of the request.
\<close>

theorem request_done_tolerates_partial_failure:
  "(RequestDone r \<longleftrightarrow>
      (IsAudioMediaType (audio_type (request r)) \<longrightarrow>
         state r (audio_type (request r)) = MEDIA_REQUEST_STATE_DONE \<or>
         state r (audio_type (request r)) = MEDIA_REQUEST_STATE_ERROR) \<and>
      (IsVideoMediaType (video_type (request r)) \<longrightarrow>
         state r (video_type (request r)) = MEDIA_REQUEST_STATE_DONE \<or>
         state r (video_type (request r)) = MEDIA_REQUEST_STATE_ERROR)) \<and>
   (FindRequest m label = Some r \<and> length (state_vector r) = 7 \<and>
    request_type (request r) \<noteq> MEDIA_DEVICE_ACCESS \<and> requester r \<noteq> None \<and>
    IsAudioMediaType (audio_type (request r)) \<and>
    devs \<noteq> [] \<and> list_all (\<lambda>d. GetDeviceManager (device_type d)) devs \<and>
    \<not> list_ex (\<lambda>d. device_type d = audio_type (request r)) devs \<longrightarrow>
      (\<exists>m1 r1. HandleAccessRequestResponse E m label devs = Some m1 \<and>
               FindRequest m1 label = Some r1 \<and> request r1 = request r \<and>
               state r1 (audio_type (request r)) = MEDIA_REQUEST_STATE_ERROR)) \<and>
   (FindRequest m label = Some r \<and> request_type (request r) = MEDIA_GENERATE_STREAM \<and>
    requester r = Some q \<and> devs \<noteq> [] \<and>
    HandleAccessRequestResponse E m label devs = Some m1 \<longrightarrow>
      (\<exists>r1 es. FindRequest m1 label = Some r1 \<and> request r1 = request r \<and>
          effects m1 = effects m @ es \<and>
          (if RequestDone r1
           then \<exists>es0. list_all (\<lambda>e. \<not> delivers_stream e) es0 \<and>
                  es = es0 @
                    StreamGenerated q label
                      (filter (\<lambda>d. IsAudioMediaType (device_type (device d))) (devices r1))
                      (filter (\<lambda>d. \<not> IsAudioMediaType (device_type (device d)) \<and>
                                   IsVideoMediaType (device_type (device d))) (devices r1)) #
                    (if ui_proxy r1 \<noteq> None then [UIOnStarted label] else [])
           else list_all (\<lambda>e. \<not> delivers_stream e) es))) \<and>
   (FindRequest m label = Some r \<and> length (state_vector r) = 7 \<and>
    request_type (request r) = MEDIA_GENERATE_STREAM \<and> requester r = Some q \<and>
    IsAudioMediaType (audio_type (request r)) \<and>
    state r (audio_type (request r)) = MEDIA_REQUEST_STATE_ERROR \<and>
    IsVideoMediaType (video_type (request r)) \<and>
    list_ex (\<lambda>d. device_type (device d) = video_type (request r) \<and> session_id d = sid)
      (devices r) \<and>
    list_all (\<lambda>p. list_ex (\<lambda>d. device_type (device d) = video_type (request r) \<and>
                               session_id d = sid) (devices (snd p)) \<longrightarrow>
                   state (snd p) (video_type (request r)) = MEDIA_REQUEST_STATE_OPENING \<and>
                   requester (snd p) \<noteq> None) (requests m) \<longrightarrow>
      (\<exists>m3 r3. Opened E m (video_type (request r)) sid = Some m3 \<and>
               FindRequest m3 label = Some r3 \<and> RequestDone r3 \<and>
               state r3 (audio_type (request r)) = MEDIA_REQUEST_STATE_ERROR \<and>
               state r3 (video_type (request r)) = MEDIA_REQUEST_STATE_DONE \<and>
               devices r3 = devices r \<and>
               StreamGenerated q label
                 (filter (\<lambda>d. IsAudioMediaType (device_type (device d))) (devices r))
                 (filter (\<lambda>d. \<not> IsAudioMediaType (device_type (device d)) \<and>
                              IsVideoMediaType (device_type (device d))) (devices r))
                 \<in> set (effects m3)))"
proof (intro conjI impI)
  show "RequestDone r \<longleftrightarrow>
      (IsAudioMediaType (audio_type (request r)) \<longrightarrow>
         state r (audio_type (request r)) = MEDIA_REQUEST_STATE_DONE \<or>
         state r (audio_type (request r)) = MEDIA_REQUEST_STATE_ERROR) \<and>
      (IsVideoMediaType (video_type (request r)) \<longrightarrow>
         state r (video_type (request r)) = MEDIA_REQUEST_STATE_DONE \<or>
         state r (video_type (request r)) = MEDIA_REQUEST_STATE_ERROR)"
    by (rule RequestDone_iff)
next
  assume a: "FindRequest m label = Some r \<and> length (state_vector r) = 7 \<and>
    request_type (request r) \<noteq> MEDIA_DEVICE_ACCESS \<and> requester r \<noteq> None \<and>
    IsAudioMediaType (audio_type (request r)) \<and>
    devs \<noteq> [] \<and> list_all (\<lambda>d. GetDeviceManager (device_type d)) devs \<and>
    \<not> list_ex (\<lambda>d. device_type d = audio_type (request r)) devs"
  then obtain ma where run: "HandleAccessRequestResponse E m label devs = Some ma"
    using HandleAccessRequestResponse_total [where m = m and label = label and r = r and devs = devs and E = E] by blast
  with a HandleAccessRequestResponse_marks_audio_error [where m = m and label = label and r = r and devs = devs and E = E and m' = ma]
  show "\<exists>m1 r1. HandleAccessRequestResponse E m label devs = Some m1 \<and>
               FindRequest m1 label = Some r1 \<and> request r1 = request r \<and>
               state r1 (audio_type (request r)) = MEDIA_REQUEST_STATE_ERROR"
    by blast
next
  assume "FindRequest m label = Some r \<and> request_type (request r) = MEDIA_GENERATE_STREAM \<and>
    requester r = Some q \<and> devs \<noteq> [] \<and>
    HandleAccessRequestResponse E m label devs = Some m1"
  then show "\<exists>r1 es. FindRequest m1 label = Some r1 \<and> request r1 = request r \<and>
          effects m1 = effects m @ es \<and>
          (if RequestDone r1
           then \<exists>es0. list_all (\<lambda>e. \<not> delivers_stream e) es0 \<and>
                  es = es0 @
                    StreamGenerated q label
                      (filter (\<lambda>d. IsAudioMediaType (device_type (device d))) (devices r1))
                      (filter (\<lambda>d. \<not> IsAudioMediaType (device_type (device d)) \<and>
                                   IsVideoMediaType (device_type (device d))) (devices r1)) #
                    (if ui_proxy r1 \<noteq> None then [UIOnStarted label] else [])
           else list_all (\<lambda>e. \<not> delivers_stream e) es)"
    using HandleAccessRequestResponse_finalizes [of m label r q devs E m1] by blast
next
  let ?t = "video_type (request r)"
  assume a: "FindRequest m label = Some r \<and> length (state_vector r) = 7 \<and>
    request_type (request r) = MEDIA_GENERATE_STREAM \<and> requester r = Some q \<and>
    IsAudioMediaType (audio_type (request r)) \<and>
    state r (audio_type (request r)) = MEDIA_REQUEST_STATE_ERROR \<and>
    IsVideoMediaType ?t \<and>
    list_ex (\<lambda>d. device_type (device d) = ?t \<and> session_id d = sid) (devices r) \<and>
    list_all (\<lambda>p. list_ex (\<lambda>d. device_type (device d) = ?t \<and> session_id d = sid)
                      (devices (snd p)) \<longrightarrow>
                   state (snd p) ?t = MEDIA_REQUEST_STATE_OPENING \<and>
                   requester (snd p) \<noteq> None) (requests m)"
  then have find: "map_of (requests m) label = Some r" by (simp add: FindRequest_def)
  then have "(label, r) \<in> set (requests m)" by (rule map_of_SomeD)
  with a have st_open: "state r ?t = MEDIA_REQUEST_STATE_OPENING"
    by (auto simp: list_all_iff)
  have nt: "\<not> IsAudioMediaType ?t" using a audio_not_video by auto
  from a Opened_requests_total [OF nt, where sid = sid and ps = "requests m" and E = E]
  obtain res where res: "Opened_requests E ?t sid (requests m) = Some res" by blast
  let ?r3 = "(fst (SetState E r ?t MEDIA_REQUEST_STATE_DONE))\<lparr>devices := devices r\<rparr>"
  let ?ev = "StreamGenerated q label
                 (filter (\<lambda>d. IsAudioMediaType (device_type (device d))) (devices r))
                 (filter (\<lambda>d. \<not> IsAudioMediaType (device_type (device d)) \<and>
                              IsVideoMediaType (device_type (device d))) (devices r))"
  from a st_open Opened_devices_partial [where t = ?t and r = r and q = q and sid = sid and ds = "devices r" and E = E and label = label and passed = "[]"]
  obtain es where es: "Opened_devices E label r ?t sid [] (devices r) = Some (?r3, es)"
    "?ev \<in> set es"
    by auto
  from Opened_requests_find [OF res find] es
  have 3: "map_of (fst res) label = Some ?r3" "set es \<subseteq> set (snd res)" by auto
  have ne: "audio_type (request r) \<noteq> ?t" using a audio_not_video by auto
  have s3: "state ?r3 ?t = MEDIA_REQUEST_STATE_DONE"
    "state ?r3 (audio_type (request r)) = MEDIA_REQUEST_STATE_ERROR"
    using state_SetState [where t = ?t and r = r and t' = ?t and E = E and s = MEDIA_REQUEST_STATE_DONE]
      state_SetState [where t = ?t and r = r and t' = "audio_type (request r)" and E = E
        and s = MEDIA_REQUEST_STATE_DONE] a ne
    by (auto simp: state_def audio_not_NUM video_not_NUM)
  then have "RequestDone ?r3" by (simp add: RequestDone_iff)
  with res 3 s3 es(2)
  show "\<exists>m3 r3. Opened E m ?t sid = Some m3 \<and>
               FindRequest m3 label = Some r3 \<and> RequestDone r3 \<and>
               state r3 (audio_type (request r)) = MEDIA_REQUEST_STATE_ERROR \<and>
               state r3 ?t = MEDIA_REQUEST_STATE_DONE \<and>
               devices r3 = devices r \<and> ?ev \<in> set (effects m3)"
    by (auto simp: Opened_def FindRequest_def emit_def)
qed

theorem partial_failure_witness:
  "(\<exists>m1 m3 r3.
     HandleAccessRequestResponse test_env
       (manager_with [(''L'', test_request MEDIA_GENERATE_STREAM MEDIA_DEVICE_AUDIO_CAPTURE
                                MEDIA_DEVICE_VIDEO_CAPTURE)])
       ''L'' [test_device MEDIA_DEVICE_VIDEO_CAPTURE ''cam''] = Some m1 \<and>
     Opened test_env m1 MEDIA_DEVICE_VIDEO_CAPTURE 0 = Some m3 \<and>
     FindRequest m3 ''L'' = Some r3 \<and> RequestDone r3 \<and>
     state r3 MEDIA_DEVICE_AUDIO_CAPTURE = MEDIA_REQUEST_STATE_ERROR \<and>
     state r3 MEDIA_DEVICE_VIDEO_CAPTURE = MEDIA_REQUEST_STATE_DONE \<and>
     StreamGenerated 7 ''L'' []
       [\<lparr>device = (test_device MEDIA_DEVICE_VIDEO_CAPTURE ''cam'')\<lparr>device_id := ''o#cam''\<rparr>,
         session_id = 0\<rparr>] \<in> set (effects m3)) \<and>
   (\<exists>m2 r2.
     HandleAccessRequestResponse test_env
       (manager_with
          [(''A'', sharing_request),
           (''B'', test_request MEDIA_GENERATE_STREAM MEDIA_DEVICE_AUDIO_CAPTURE
                     MEDIA_DEVICE_VIDEO_CAPTURE)])
       ''B'' [test_device MEDIA_DEVICE_VIDEO_CAPTURE ''cam''] = Some m2 \<and>
     FindRequest m2 ''B'' = Some r2 \<and> RequestDone r2 \<and>
     state r2 MEDIA_DEVICE_AUDIO_CAPTURE = MEDIA_REQUEST_STATE_ERROR \<and>
     state r2 MEDIA_DEVICE_VIDEO_CAPTURE = MEDIA_REQUEST_STATE_DONE \<and>
     effects m2 =
       [StreamGenerated 7 ''B'' []
          [\<lparr>device = (test_device MEDIA_DEVICE_VIDEO_CAPTURE ''cam'')\<lparr>device_id := ''o#cam''\<rparr>,
            session_id = 5\<rparr>]])"
proof -
  let ?r0 = "test_request MEDIA_GENERATE_STREAM MEDIA_DEVICE_AUDIO_CAPTURE MEDIA_DEVICE_VIDEO_CAPTURE"
  let ?cam = "test_device MEDIA_DEVICE_VIDEO_CAPTURE ''cam''"
  let ?info = "\<lparr>device = ?cam\<lparr>device_id := ''o#cam''\<rparr>, session_id = 0\<rparr>"
  let ?r1 = "?r0\<lparr>devices := [?info],
                 state_vector :=
                   [MEDIA_REQUEST_STATE_NOT_REQUESTED, MEDIA_REQUEST_STATE_ERROR,
                    MEDIA_REQUEST_STATE_OPENING, MEDIA_REQUEST_STATE_NOT_REQUESTED,
                    MEDIA_REQUEST_STATE_NOT_REQUESTED, MEDIA_REQUEST_STATE_NOT_REQUESTED,
                    MEDIA_REQUEST_STATE_NOT_REQUESTED]\<rparr>"
  let ?m1 = "(manager_with [(''L'', ?r1)])\<lparr>effects := [ProviderOpen ?cam 0]\<rparr>"
  have 1: "HandleAccessRequestResponse test_env (manager_with [(''L'', ?r0)]) ''L'' [?cam] = Some ?m1"
    by (simp add: HandleAccessRequestResponse_def FindRequest_def manager_with_def
        MediaStreamManager_new_def test_request_def DeviceRequest_new_def
        MediaStreamRequest_new_def test_device_def test_env_def prepare_device_def
        FindExistingRequestedDeviceInfo_def GetDeviceManager_def
        TranslateDeviceIdToSourceId_def SetState_def store_request_def emit_def
        RequestDone_def state_def Let_def eval_nat_numeral)
  have r1: "request ?r1 = request ?r0" "requester ?r1 = Some 7" "devices ?r1 = [?info]"
    "request_type (request ?r0) = MEDIA_GENERATE_STREAM"
    "audio_type (request ?r0) = MEDIA_DEVICE_AUDIO_CAPTURE"
    "video_type (request ?r0) = MEDIA_DEVICE_VIDEO_CAPTURE"
    "state ?r1 MEDIA_DEVICE_AUDIO_CAPTURE = MEDIA_REQUEST_STATE_ERROR"
    "state ?r1 MEDIA_DEVICE_VIDEO_CAPTURE = MEDIA_REQUEST_STATE_OPENING"
    "length (state_vector ?r1) = 7"
    by (simp_all add: test_request_def DeviceRequest_new_def MediaStreamRequest_new_def state_def eval_nat_numeral)
  have m1: "FindRequest ?m1 ''L'' = Some ?r1" "requests ?m1 = [(''L'', ?r1)]"
    by (simp_all add: FindRequest_def manager_with_def)
  have cam: "device_type (device ?info) = MEDIA_DEVICE_VIDEO_CAPTURE" "session_id ?info = 0"
    "device_type ?cam = MEDIA_DEVICE_VIDEO_CAPTURE"
    by (simp_all add: test_device_def)
  from request_done_tolerates_partial_failure
         [where m = ?m1 and label = "''L''" and r = ?r1 and q = 7 and sid = 0 and E = test_env,
          THEN conjunct2, THEN conjunct2, THEN conjunct2]
  have "\<exists>m3 r3. Opened test_env ?m1 MEDIA_DEVICE_VIDEO_CAPTURE 0 = Some m3 \<and>
     FindRequest m3 ''L'' = Some r3 \<and> RequestDone r3 \<and>
     state r3 MEDIA_DEVICE_AUDIO_CAPTURE = MEDIA_REQUEST_STATE_ERROR \<and>
     state r3 MEDIA_DEVICE_VIDEO_CAPTURE = MEDIA_REQUEST_STATE_DONE \<and>
     devices r3 = [?info] \<and>
     StreamGenerated 7 ''L'' [] [?info] \<in> set (effects m3)"
    by (simp add: m1 r1 cam)
  with 1 have first: "\<exists>m1 m3 r3.
     HandleAccessRequestResponse test_env (manager_with [(''L'', ?r0)]) ''L'' [?cam] = Some m1 \<and>
     Opened test_env m1 MEDIA_DEVICE_VIDEO_CAPTURE 0 = Some m3 \<and>
     FindRequest m3 ''L'' = Some r3 \<and> RequestDone r3 \<and>
     state r3 MEDIA_DEVICE_AUDIO_CAPTURE = MEDIA_REQUEST_STATE_ERROR \<and>
     state r3 MEDIA_DEVICE_VIDEO_CAPTURE = MEDIA_REQUEST_STATE_DONE \<and>
     StreamGenerated 7 ''L'' [] [?info] \<in> set (effects m3)"
    by blast
  let ?shared = "\<lparr>device = ?cam\<lparr>device_id := ''o#cam''\<rparr>, session_id = 5\<rparr>"
  let ?m = "manager_with [(''A'', sharing_request), (''B'', ?r0)]"
  let ?r2 = "?r0\<lparr>devices := [?shared],
                 state_vector :=
                   [MEDIA_REQUEST_STATE_NOT_REQUESTED, MEDIA_REQUEST_STATE_ERROR,
                    MEDIA_REQUEST_STATE_DONE, MEDIA_REQUEST_STATE_NOT_REQUESTED,
                    MEDIA_REQUEST_STATE_NOT_REQUESTED, MEDIA_REQUEST_STATE_NOT_REQUESTED,
                    MEDIA_REQUEST_STATE_NOT_REQUESTED]\<rparr>"
  let ?m2 = "(manager_with [(''A'', sharing_request), (''B'', ?r2)])
               \<lparr>effects := [StreamGenerated 7 ''B'' [] [?shared]]\<rparr>"
  have 2: "HandleAccessRequestResponse test_env ?m ''B'' [?cam] = Some ?m2"
    by (simp add: HandleAccessRequestResponse_def FindRequest_def manager_with_def
        MediaStreamManager_new_def test_request_def DeviceRequest_new_def
        MediaStreamRequest_new_def test_device_def test_env_def prepare_device_def
        FindExistingRequestedDeviceInfo_def GetDeviceManager_def sharing_request_def
        holding_request_def test_info_def
        TranslateDeviceIdToSourceId_def SetState_def store_request_def emit_def
        RequestDone_def state_def Let_def HandleRequestDone_def FinalizeGenerateStream_def
        eval_nat_numeral)
  have b: "FindRequest ?m ''B'' = Some ?r0" "requester ?r0 = Some 7" "effects ?m = []"
    "FindRequest ?m2 ''B'' = Some ?r2"
    by (simp_all add: FindRequest_def manager_with_def test_request_def DeviceRequest_new_def
        MediaStreamManager_new_def)
  have r2: "RequestDone ?r2" "state ?r2 MEDIA_DEVICE_AUDIO_CAPTURE = MEDIA_REQUEST_STATE_ERROR"
    "state ?r2 MEDIA_DEVICE_VIDEO_CAPTURE = MEDIA_REQUEST_STATE_DONE"
    by (simp_all add: RequestDone_def state_def test_request_def DeviceRequest_new_def
        MediaStreamRequest_new_def Let_def)
  from request_done_tolerates_partial_failure
         [where m = ?m and label = "''B''" and r = ?r0 and q = 7 and E = test_env
            and devs = "[?cam]" and ?m1.0 = ?m2,
          THEN conjunct2, THEN conjunct2, THEN conjunct1] 2 b r1(4)
  obtain ra es where
    ra: "FindRequest ?m2 ''B'' = Some ra" "effects ?m2 = effects ?m @ es"
      "if RequestDone ra
       then \<exists>es0. list_all (\<lambda>e. \<not> delivers_stream e) es0 \<and>
              es = es0 @
                StreamGenerated 7 ''B''
                  (filter (\<lambda>d. IsAudioMediaType (device_type (device d))) (devices ra))
                  (filter (\<lambda>d. \<not> IsAudioMediaType (device_type (device d)) \<and>
                               IsVideoMediaType (device_type (device d))) (devices ra)) #
                (if ui_proxy ra \<noteq> None then [UIOnStarted ''B''] else [])
       else list_all (\<lambda>e. \<not> delivers_stream e) es"
    by blast
  from ra(1) b(4) have "ra = ?r2" by simp
  with ra(2) b(3) r2 have "effects ?m2 = es \<and> RequestDone ra" by simp
  with 2 b(4) r2 have second: "\<exists>m2 r2.
     HandleAccessRequestResponse test_env ?m ''B'' [?cam] = Some m2 \<and>
     FindRequest m2 ''B'' = Some r2 \<and> RequestDone r2 \<and>
     state r2 MEDIA_DEVICE_AUDIO_CAPTURE = MEDIA_REQUEST_STATE_ERROR \<and>
     state r2 MEDIA_DEVICE_VIDEO_CAPTURE = MEDIA_REQUEST_STATE_DONE \<and>
     effects m2 = [StreamGenerated 7 ''B'' [] [?shared]]"
    by (intro exI [of _ ?m2] exI [of _ ?r2]) simp
  from first second show ?thesis by blast
qed

subsection \<open>Source ids\<close>

lemma find_inj_on_key:
  assumes "d \<in> set ds" and "inj_on f (key ` set ds)"
  shows "map_option key (find (\<lambda>x. f (key x) = f (key d)) ds) = Some (key d)"
proof -
  from assms(1) obtain x where x: "find (\<lambda>x. f (key x) = f (key d)) ds = Some x"
    by (cases "find (\<lambda>x. f (key x) = f (key d)) ds") (auto simp: find_None_iff)
  then have "x \<in> set ds" "f (key x) = f (key d)"
    by (auto simp: find_Some_iff in_set_conv_nth)
  with assms have "key x = key d" by (auto dest: inj_onD)
  with x show ?thesis by simp
qed



subsection \<open>Requested source ids that do not resolve\<close>

lemma TranslateRequestedSourceIdToDeviceId_succeeds:
  "fst (TranslateRequestedSourceIdToDeviceId E m r) = True"
  by (simp add: TranslateRequestedSourceIdToDeviceId_def Let_def split: option.splits)

text \<open>
  C7, what the code does. \<^verbatim>\<open>TranslateRequestedSourceIdToDeviceId\<close> always reports
  success. But when the requested audio source id does not resolve, it clears the audio
  id and returns at once: the requested video id is left exactly as the caller gave it,
  neither resolved nor cleared, also when it does not resolve either.
\<close>

theorem unresolved_audio_id_leaves_video_id:
  assumes "audio_type (request r) = MEDIA_DEVICE_AUDIO_CAPTURE"
    and "requested_audio_device_id (request r) \<noteq> []"
    and "TranslateSourceIdToDeviceId E m MEDIA_DEVICE_AUDIO_CAPTURE (resource_context r)
           (security_origin (request r)) (requested_audio_device_id (request r)) = None"
  shows "TranslateRequestedSourceIdToDeviceId E m r =
           (True, r\<lparr>request := (request r)\<lparr>requested_audio_device_id := []\<rparr>\<rparr>) \<and>
         requested_video_device_id (request (snd (TranslateRequestedSourceIdToDeviceId E m r))) =
           requested_video_device_id (request r)"
  using assms by (simp add: TranslateRequestedSourceIdToDeviceId_def Let_def)

theorem unresolved_audio_id_witness:
  "(let m = MediaStreamManager_new
              \<lparr>audio_enumeration_cache :=
                 \<lparr>valid = True,
                  cache_devices = [test_info MEDIA_DEVICE_AUDIO_CAPTURE ''mic'' (- 1)]\<rparr>,
               video_enumeration_cache :=
                 \<lparr>valid = True,
                  cache_devices = [test_info MEDIA_DEVICE_VIDEO_CAPTURE ''cam'' (- 1)]\<rparr>\<rparr>;
        r0 = test_request MEDIA_GENERATE_STREAM MEDIA_DEVICE_AUDIO_CAPTURE
               MEDIA_DEVICE_VIDEO_CAPTURE;
        r = r0\<lparr>request := (request r0)\<lparr>requested_audio_device_id := ''x'',
                                          requested_video_device_id := ''y''\<rparr>\<rparr>
    in TranslateSourceIdToDeviceId test_env m MEDIA_DEVICE_AUDIO_CAPTURE (Some 0) ''o'' ''x'' = None \<and>
       TranslateSourceIdToDeviceId test_env m MEDIA_DEVICE_VIDEO_CAPTURE (Some 0) ''o'' ''y'' = None \<and>
       fst (TranslateRequestedSourceIdToDeviceId test_env m r) = True \<and>
       requested_audio_device_id (request (snd (TranslateRequestedSourceIdToDeviceId test_env m r)))
         = [] \<and>
       requested_video_device_id (request (snd (TranslateRequestedSourceIdToDeviceId test_env m r)))
         = ''y'')"
proof -
  let ?m = "MediaStreamManager_new
              \<lparr>audio_enumeration_cache :=
                 \<lparr>valid = True,
                  cache_devices = [test_info MEDIA_DEVICE_AUDIO_CAPTURE ''mic'' (- 1)]\<rparr>,
               video_enumeration_cache :=
                 \<lparr>valid = True,
                  cache_devices = [test_info MEDIA_DEVICE_VIDEO_CAPTURE ''cam'' (- 1)]\<rparr>\<rparr>"
  let ?r0 = "test_request MEDIA_GENERATE_STREAM MEDIA_DEVICE_AUDIO_CAPTURE
               MEDIA_DEVICE_VIDEO_CAPTURE"
  let ?r = "?r0\<lparr>request := (request ?r0)\<lparr>requested_audio_device_id := ''x'',
                                            requested_video_device_id := ''y''\<rparr>\<rparr>"
  have r: "audio_type (request ?r) = MEDIA_DEVICE_AUDIO_CAPTURE"
    "requested_audio_device_id (request ?r) = ''x''"
    "requested_video_device_id (request ?r) = ''y''"
    "resource_context ?r = Some 0" "security_origin (request ?r) = ''o''"
    by (simp_all add: test_request_def DeviceRequest_new_def MediaStreamRequest_new_def)
  have none: "TranslateSourceIdToDeviceId test_env ?m MEDIA_DEVICE_AUDIO_CAPTURE (Some 0) ''o'' ''x'' = None"
    "TranslateSourceIdToDeviceId test_env ?m MEDIA_DEVICE_VIDEO_CAPTURE (Some 0) ''o'' ''y'' = None"
    by (simp_all add: TranslateSourceIdToDeviceId_def enumeration_cache_def
        DoesMediaDeviceIDMatchHMAC_def test_env_def test_info_def test_device_def)
  have h1: "requested_audio_device_id (request ?r) \<noteq> []"
    and h2: "TranslateSourceIdToDeviceId test_env ?m MEDIA_DEVICE_AUDIO_CAPTURE
               (resource_context ?r) (security_origin (request ?r))
               (requested_audio_device_id (request ?r)) = None"
    unfolding r using none(1) by simp_all
  note t = unresolved_audio_id_leaves_video_id [OF r(1) h1 h2]
  have "fst (TranslateRequestedSourceIdToDeviceId test_env ?m ?r) = True"
    "requested_audio_device_id
       (request (snd (TranslateRequestedSourceIdToDeviceId test_env ?m ?r))) = []"
    "requested_video_device_id
       (request (snd (TranslateRequestedSourceIdToDeviceId test_env ?m ?r))) = ''y''"
    unfolding t [THEN conjunct1] using r(3) by simp_all
  with none show ?thesis
    unfolding Let_def by blast
qed

subsection \<open>Labels are kept by the setup steps\<close>

lemma FindRequest_None_iff: "FindRequest m l = None \<longleftrightarrow> l \<notin> set (map fst (requests m))"
  by (simp add: FindRequest_def map_of_eq_None_iff)

lemma FindRequest_labels_cong:
  "map fst (requests m') = map fst (requests m) \<Longrightarrow>
   FindRequest m' l = None \<longleftrightarrow> FindRequest m l = None"
  unfolding FindRequest_None_iff by simp

lemma fst_if_label [simp]:
  "fst (if fst p = l then (l, x) else p) = fst p"
  "fst (if fst p = l then (fst p, y) else p) = fst p"
  by simp_all

lemma labels_store_request [simp]:
  "map fst (requests (store_request l r m)) = map fst (requests m)"
  by (simp add: store_request_def comp_def)

lemma labels_set_devices [simp]:
  "map fst (requests (set_devices l ds m)) = map fst (requests m)"
  by (simp add: set_devices_def comp_def)

lemma labels_request_SetState [simp]:
  "map fst (requests (request_SetState E m l t s)) = map fst (requests m)"
  by (simp add: request_SetState_def split: option.splits)

lemma requests_add_ref_count [simp]: "requests (add_ref_count t k m) = requests m"
  by (simp add: add_ref_count_def)

lemma effects_add_ref_count [simp]: "effects (add_ref_count t k m) = effects m"
  by (simp add: add_ref_count_def)

lemma requests_StartMonitoring [simp]: "requests (StartMonitoring E m) = requests m"
  by (simp add: StartMonitoring_def)

lemma labels_StartEnumeration_loop [simp]:
  "map fst (requests (StartEnumeration_loop E m l req ts)) = map fst (requests m)"
  by (induction ts arbitrary: m) (simp_all add: Let_def)

lemma labels_StartEnumeration [simp]:
  "map fst (requests (StartEnumeration E m l r)) = map fst (requests m)"
  by (simp add: StartEnumeration_def)

lemma PostRequestToUI_total:
  "\<exists>m'. PostRequestToUI E m label r = Some m' \<and>
        map fst (requests m') = map fst (requests m) \<and>
        (\<exists>es ui req. effects m' = effects m @ es @ [UIRequestAccess label ui req])"
  by (simp add: PostRequestToUI_def Let_def TranslateRequestedSourceIdToDeviceId_succeeds)

text \<open>
  C6, what the code does. \<^verbatim>\<open>SetupRequest\<close> looks at the video kind alone to decide
  that a request is a screen capture. A request for loopback audio with no video has a
  combination that \<^verbatim>\<open>SetupScreenCaptureRequest\<close> rejects, but the check is never
  made for it: the request is not failed. It stays in the registry and goes on to the
  permission prompt, or to an enumeration when the audio cache is not valid.
\<close>

theorem loopback_audio_alone_passes_setup:
  assumes "FindRequest m label = Some r"
    and "is_valid E (security_origin (request r))"
    and "audio_type (request r) = MEDIA_LOOPBACK_AUDIO_CAPTURE"
    and "video_type (request r) = MEDIA_NO_SERVICE"
  shows "SetupScreenCaptureRequest r = False \<and>
         SetupRequest E m label =
           (if valid (audio_enumeration_cache m) then PostRequestToUI E m label r
            else Some (StartEnumeration E m label r)) \<and>
         (\<exists>m'. SetupRequest E m label = Some m' \<and> FindRequest m' label \<noteq> None)"
proof -
  have eq: "SetupRequest E m label =
           (if valid (audio_enumeration_cache m) then PostRequestToUI E m label r
            else Some (StartEnumeration E m label r))"
    using assms by (simp add: SetupRequest_def Let_def)
  have "\<exists>m'. SetupRequest E m label = Some m' \<and>
             map fst (requests m') = map fst (requests m)"
  proof (cases "valid (audio_enumeration_cache m)")
    case True
    with PostRequestToUI_total [of E m label r] show ?thesis by (auto simp: eq)
  next
    case False
    then show ?thesis by (simp add: eq)
  qed
  then obtain m' where
    m': "SetupRequest E m label = Some m'" "map fst (requests m') = map fst (requests m)"
    by blast
  from FindRequest_labels_cong [OF m'(2), of label] assms(1)
  have "FindRequest m' label \<noteq> None" by simp
  with m'(1) have "\<exists>m'. SetupRequest E m label = Some m' \<and> FindRequest m' label \<noteq> None"
    by blast
  with eq assms show ?thesis
    by (simp add: SetupScreenCaptureRequest_def)
qed

theorem loopback_audio_alone_witness:
  "(let r = test_request MEDIA_GENERATE_STREAM MEDIA_LOOPBACK_AUDIO_CAPTURE MEDIA_NO_SERVICE;
        m = manager_with [(''L'', r)]
    in SetupScreenCaptureRequest r = False \<and>
       SetupRequest test_env m ''L'' = Some (StartEnumeration test_env m ''L'' r) \<and>
       (\<exists>m'. SetupRequest test_env m ''L'' = Some m' \<and> FindRequest m' ''L'' \<noteq> None) \<and>
       effects (StartEnumeration test_env m ''L'' r) =
         [AddDevicesChangedObserver,
          ProviderEnumerateDevices MEDIA_DEVICE_AUDIO_CAPTURE,
          ProviderEnumerateDevices MEDIA_DEVICE_VIDEO_CAPTURE,
          ProviderEnumerateDevices MEDIA_LOOPBACK_AUDIO_CAPTURE])"
proof -
  let ?r = "test_request MEDIA_GENERATE_STREAM MEDIA_LOOPBACK_AUDIO_CAPTURE MEDIA_NO_SERVICE"
  let ?m = "manager_with [(''L'', ?r)]"
  have find: "FindRequest ?m ''L'' = Some ?r"
    by (simp add: FindRequest_def manager_with_def)
  have r: "is_valid test_env (security_origin (request ?r))"
    "audio_type (request ?r) = MEDIA_LOOPBACK_AUDIO_CAPTURE"
    "video_type (request ?r) = MEDIA_NO_SERVICE"
    by (simp_all add: test_request_def DeviceRequest_new_def MediaStreamRequest_new_def
        test_env_def)
  have inv: "\<not> valid (audio_enumeration_cache ?m)"
    by (simp add: manager_with_def MediaStreamManager_new_def)
  have es: "effects (StartEnumeration test_env ?m ''L'' ?r) =
         [AddDevicesChangedObserver,
          ProviderEnumerateDevices MEDIA_DEVICE_AUDIO_CAPTURE,
          ProviderEnumerateDevices MEDIA_DEVICE_VIDEO_CAPTURE,
          ProviderEnumerateDevices MEDIA_LOOPBACK_AUDIO_CAPTURE]"
    by (simp add: StartEnumeration_def StartMonitoring_def media_types_def Requested_def
        request_SetState_def SetState_def FindRequest_store_request ref_count_def
        add_ref_count_def emit_def store_request_def FindRequest_def Let_def
        manager_with_def MediaStreamManager_new_def test_request_def DeviceRequest_new_def
        MediaStreamRequest_new_def test_env_def eval_nat_numeral)
  from loopback_audio_alone_passes_setup [OF find r] inv
  have t: "SetupScreenCaptureRequest ?r = False"
    "SetupRequest test_env ?m ''L'' = Some (StartEnumeration test_env ?m ''L'' ?r)"
    "\<exists>m'. SetupRequest test_env ?m ''L'' = Some m' \<and> FindRequest m' ''L'' \<noteq> None"
    by auto
  show ?thesis
    unfolding Let_def using t es by blast
qed

subsection \<open>Stopping a device\<close>

text \<open>
  \<open>keep t sid\<close> holds of the device entries that are not of the session;
  \<open>erase_state\<close> forgets the state vector of a request.
\<close>

lemma FindRequest_set_devices:
  "FindRequest (set_devices l ds m) l' =
     (if l' = l then map_option (\<lambda>r. r\<lparr>devices := ds\<rparr>) (FindRequest m l)
      else FindRequest m l')"
proof -
  have "map_of (map (\<lambda>p. if fst p = l then (fst p, (snd p)\<lparr>devices := ds\<rparr>) else p) ps) l' =
        (if l' = l then map_option (\<lambda>r. r\<lparr>devices := ds\<rparr>) (map_of ps l) else map_of ps l')"
    for ps :: "(string \<times> DeviceRequest) list"
    by (induction ps) auto
  then show ?thesis by (simp add: FindRequest_def set_devices_def)
qed

lemma effects_set_devices [simp]: "effects (set_devices l ds m) = effects m"
  by (simp add: set_devices_def)

lemma DeleteRequest_Some:
  assumes "FindRequest m l \<noteq> None"
  shows "\<exists>m'. DeleteRequest m l = Some m' \<and> effects m' = effects m \<and>
        map fst (requests m') = filter (\<lambda>x. x \<noteq> l) (map fst (requests m)) \<and>
        (\<forall>l'. FindRequest m' l' = (if l' = l then None else FindRequest m l'))"
proof -
  have "map_of (filter (\<lambda>p. fst p \<noteq> l) ps) l' = (if l' = l then None else map_of ps l')"
    for ps :: "(string \<times> DeviceRequest) list" and l'
    by (induction ps) auto
  with assms show ?thesis
    by (simp add: DeleteRequest_def FindRequest_def filter_map comp_def)
qed

lemma CloseDevice_devices_fields [simp]:
  "(fst (CloseDevice_devices E r t sid ds))\<lparr>state_vector := x\<rparr> = r\<lparr>state_vector := x\<rparr>"
  "devices (fst (CloseDevice_devices E r t sid ds)) = devices r"
  by (induction ds arbitrary: r) (simp_all add: Let_def SetState_def)

lemma CloseDevice_devices_keep:
  "list_all (\<lambda>d. \<not> (device_type (device d) = t \<and> session_id d = sid)) ds \<Longrightarrow>
   CloseDevice_devices E r t sid ds = (r, [])"
  by (induction ds) auto

lemma map_of_CloseDevice_requests:
  "map_of (fst (CloseDevice_requests E t sid ps)) l =
     map_option (\<lambda>r. fst (CloseDevice_devices E r t sid (devices r))) (map_of ps l)"
  by (induction ps) (auto simp: Let_def)

lemma labels_CloseDevice_requests [simp]:
  "map fst (fst (CloseDevice_requests E t sid ps)) = map fst ps"
  by (induction ps) (auto simp: Let_def)

lemma CloseDevice_Some:
  "GetDeviceManager t \<Longrightarrow>
   \<exists>m' es. CloseDevice E m t sid = Some m' \<and>
          effects m' = effects m @ ProviderClose t sid # es \<and>
          map fst (requests m') = map fst (requests m) \<and>
          (\<forall>l. FindRequest m' l =
                 map_option (\<lambda>r. fst (CloseDevice_devices E r t sid (devices r)))
                   (FindRequest m l))"
  by (simp add: CloseDevice_def FindRequest_def map_of_CloseDevice_requests)

lemma erase_state_simps [simp]:
  "devices (erase_state r) = devices r"
  "erase_state (r\<lparr>devices := ds\<rparr>) = (erase_state r)\<lparr>devices := ds\<rparr>"
  "erase_state (fst (CloseDevice_devices E r t sid ds')) = erase_state r"
  by (simp_all add: erase_state_def)

lemma erase_state_devices: "erase_state a = erase_state b \<Longrightarrow> devices a = devices b"
  by (metis erase_state_simps(1))

lemma without_session_simps [simp]:
  "without_session t sid [] = []"
  "without_session t sid (d # ds) =
     (if session_entry t sid d then without_session t sid ds else d # without_session t sid ds)"
  by (simp_all add: without_session_def)

lemma StopDevice_devices_result:
  assumes mgr: "GetDeviceManager t"
  shows "FindRequest m l = Some r \<Longrightarrow> devices r = kept @ ds \<Longrightarrow>
    \<exists>m1 r1 es. StopDevice_devices E m l t sid kept ds = Some m1 \<and>
       effects m1 = effects m @ es \<and>
       FindRequest m1 l = Some r1 \<and>
       erase_state r1 = erase_state (r\<lparr>devices := kept @ without_session t sid ds\<rparr>) \<and>
       map fst (requests m1) = map fst (requests m) \<and>
       (\<forall>l'. l' \<noteq> l \<longrightarrow>
          map_option erase_state (FindRequest m1 l') = map_option erase_state (FindRequest m l')) \<and>
       (state r t = MEDIA_REQUEST_STATE_DONE \<and> list_ex (session_entry t sid) ds \<longrightarrow>
          ProviderClose t sid \<in> set es) \<and>
       (\<not> (state r t = MEDIA_REQUEST_STATE_DONE \<and> list_ex (session_entry t sid) ds) \<longrightarrow>
          es = [] \<and> r1 = r\<lparr>devices := kept @ without_session t sid ds\<rparr> \<and>
          (\<forall>l'. l' \<noteq> l \<longrightarrow> FindRequest m1 l' = FindRequest m l'))"
proof (induction ds arbitrary: m r kept)
  case Nil
  then show ?case by simp
next
  case (Cons d ds)
  show ?case
  proof (cases "session_entry t sid d")
    case False
    then have step: "StopDevice_devices E m l t sid kept (d # ds) =
                     StopDevice_devices E m l t sid (kept @ [d]) ds"
      by (auto simp: session_entry_def)
    from Cons.prems have "devices r = (kept @ [d]) @ ds" by simp
    from Cons.IH [OF Cons.prems(1) this] False show ?thesis
      unfolding step by simp
  next
    case True
    then have match: "\<not> (device_type (device d) \<noteq> t \<or> session_id d \<noteq> sid)"
      by (simp add: session_entry_def)
    show ?thesis
    proof (cases "state r t = MEDIA_REQUEST_STATE_DONE")
      case False
      let ?m' = "set_devices l (kept @ ds) m"
      have step: "StopDevice_devices E m l t sid kept (d # ds) =
                  StopDevice_devices E ?m' l t sid kept ds"
        using match Cons.prems(1) False by simp
      have find: "FindRequest ?m' l = Some (r\<lparr>devices := kept @ ds\<rparr>)"
        using Cons.prems(1) by (simp add: FindRequest_set_devices)
      have st: "state (r\<lparr>devices := kept @ ds\<rparr>) t = state r t"
        by (simp add: state_def)
      from Cons.IH [OF find, of kept] False True st show ?thesis
        unfolding step by (auto simp: FindRequest_set_devices)
    next
      case done_state: True
      from CloseDevice_Some [OF mgr, of E m sid] obtain mc esc where
        mc: "CloseDevice E m t sid = Some mc"
          "effects mc = effects m @ ProviderClose t sid # esc"
          "map fst (requests mc) = map fst (requests m)"
          "\<And>l'. FindRequest mc l' =
                 map_option (\<lambda>r. fst (CloseDevice_devices E r t sid (devices r)))
                   (FindRequest m l')"
        by blast
      let ?rc = "fst (CloseDevice_devices E r t sid (devices r))"
      let ?m' = "set_devices l (kept @ ds) mc"
      have step: "StopDevice_devices E m l t sid kept (d # ds) =
                  StopDevice_devices E ?m' l t sid kept ds"
        using match Cons.prems(1) done_state mc(1) by simp
      have find: "FindRequest ?m' l = Some (?rc\<lparr>devices := kept @ ds\<rparr>)"
        using Cons.prems(1) by (simp add: FindRequest_set_devices mc(4))
      from Cons.IH [OF find, of kept] obtain m1 r1 es where
        ih: "StopDevice_devices E ?m' l t sid kept ds = Some m1"
          "effects m1 = effects ?m' @ es"
          "FindRequest m1 l = Some r1"
          "erase_state r1 =
             erase_state (?rc\<lparr>devices := kept @ ds, devices := kept @ without_session t sid ds\<rparr>)"
          "map fst (requests m1) = map fst (requests ?m')"
          "\<forall>l'. l' \<noteq> l \<longrightarrow>
             map_option erase_state (FindRequest m1 l') =
             map_option erase_state (FindRequest ?m' l')"
        by auto
      have others: "l' \<noteq> l \<Longrightarrow>
            map_option erase_state (FindRequest ?m' l') = map_option erase_state (FindRequest m l')"
        for l'
        by (simp add: FindRequest_set_devices mc(4) option.map_comp comp_def)
      show ?thesis
        unfolding step
        using ih mc(2,3) others True done_state
        by (auto simp: list_ex_iff)
    qed
  qed
qed

text \<open>
  The registry after the outer loop has passed the labels \<open>ls\<close>, seen from the
  registry before it.
\<close>

lemma StopDevice_requests_result:
  assumes mgr: "GetDeviceManager t"
  shows "distinct ls \<Longrightarrow> set ls \<subseteq> set (map fst (requests m)) \<Longrightarrow>
    \<exists>m' es. StopDevice_requests E m t sid ls = Some m' \<and>
       effects m' = effects m @ es \<and>
       (\<forall>l. map_option erase_state (FindRequest m' l) =
          (case FindRequest m l of
             None \<Rightarrow> None
           | Some r \<Rightarrow>
               if l \<in> set ls
               then (if without_session t sid (devices r) = [] then None
                     else Some (erase_state (r\<lparr>devices := without_session t sid (devices r)\<rparr>)))
               else Some (erase_state r))) \<and>
       ((\<exists>l r. l \<in> set ls \<and> FindRequest m l = Some r \<and>
               state r t = MEDIA_REQUEST_STATE_DONE \<and>
               list_ex (session_entry t sid) (devices r)) \<longrightarrow>
          ProviderClose t sid \<in> set es) \<and>
       (\<not> (\<exists>l r. l \<in> set ls \<and> FindRequest m l = Some r \<and>
               state r t = MEDIA_REQUEST_STATE_DONE \<and>
               list_ex (session_entry t sid) (devices r)) \<longrightarrow>
          es = [] \<and>
          (\<forall>l. FindRequest m' l =
             (case FindRequest m l of
                None \<Rightarrow> None
              | Some r \<Rightarrow>
                  if l \<in> set ls
                  then (if without_session t sid (devices r) = [] then None
                        else Some (r\<lparr>devices := without_session t sid (devices r)\<rparr>))
                  else Some r)))"
proof (induction ls arbitrary: m)
  case Nil
  then show ?case by (auto split: option.splits)
next
  case (Cons l ls)
  from Cons.prems have "l \<in> set (map fst (requests m))" by simp
  then have "FindRequest m l \<noteq> None" unfolding FindRequest_None_iff by simp
  then obtain r where r: "FindRequest m l = Some r" by blast
  from StopDevice_devices_result [OF mgr r, of "[]" "devices r" E sid]
  obtain m1 r1 es1 where
    m1: "StopDevice_devices E m l t sid [] (devices r) = Some m1"
      "effects m1 = effects m @ es1"
      "FindRequest m1 l = Some r1"
      "erase_state r1 = erase_state (r\<lparr>devices := without_session t sid (devices r)\<rparr>)"
      "map fst (requests m1) = map fst (requests m)"
      "\<And>l'. l' \<noteq> l \<Longrightarrow>
          map_option erase_state (FindRequest m1 l') = map_option erase_state (FindRequest m l')"
      "state r t = MEDIA_REQUEST_STATE_DONE \<and> list_ex (session_entry t sid) (devices r) \<longrightarrow>
          ProviderClose t sid \<in> set es1"
      "\<not> (state r t = MEDIA_REQUEST_STATE_DONE \<and> list_ex (session_entry t sid) (devices r)) \<longrightarrow>
          es1 = [] \<and> r1 = r\<lparr>devices := without_session t sid (devices r)\<rparr> \<and>
          (\<forall>l'. l' \<noteq> l \<longrightarrow> FindRequest m1 l' = FindRequest m l')"
    by auto
  have dev1: "devices r1 = without_session t sid (devices r)"
    using erase_state_devices [OF m1(4)] by simp
  obtain m2 where
    m2: "(if devices r1 = [] then DeleteRequest m1 l else Some m1) = Some m2"
      "effects m2 = effects m1"
      "map fst (requests m2) =
         (if devices r1 = [] then filter (\<lambda>x. x \<noteq> l) (map fst (requests m1))
          else map fst (requests m1))"
      "\<And>l'. FindRequest m2 l' =
         (if l' = l \<and> devices r1 = [] then None else FindRequest m1 l')"
    using DeleteRequest_Some [of m1 l] m1(3) by (cases "devices r1 = []") auto
  have step: "StopDevice_requests E m t sid (l # ls) = StopDevice_requests E m2 t sid ls"
    using r m1(1,3) m2(1) by simp
  from Cons.prems have d: "distinct ls" and nl: "l \<notin> set ls"
    and sub: "set ls \<subseteq> set (map fst (requests m2))"
    by (auto simp: m2(3) m1(5))
  from Cons.IH [OF d sub] obtain m' es2 where
    ih: "StopDevice_requests E m2 t sid ls = Some m'"
      "effects m' = effects m2 @ es2"
      "\<And>l'. map_option erase_state (FindRequest m' l') =
          (case FindRequest m2 l' of
             None \<Rightarrow> None
           | Some r \<Rightarrow>
               if l' \<in> set ls
               then (if without_session t sid (devices r) = [] then None
                     else Some (erase_state (r\<lparr>devices := without_session t sid (devices r)\<rparr>)))
               else Some (erase_state r))"
      "(\<exists>l r. l \<in> set ls \<and> FindRequest m2 l = Some r \<and>
               state r t = MEDIA_REQUEST_STATE_DONE \<and>
               list_ex (session_entry t sid) (devices r)) \<longrightarrow>
          ProviderClose t sid \<in> set es2"
      "\<not> (\<exists>l r. l \<in> set ls \<and> FindRequest m2 l = Some r \<and>
               state r t = MEDIA_REQUEST_STATE_DONE \<and>
               list_ex (session_entry t sid) (devices r)) \<longrightarrow>
          es2 = [] \<and>
          (\<forall>l'. FindRequest m' l' =
             (case FindRequest m2 l' of
                None \<Rightarrow> None
              | Some r \<Rightarrow>
                  if l' \<in> set ls
                  then (if without_session t sid (devices r) = [] then None
                        else Some (r\<lparr>devices := without_session t sid (devices r)\<rparr>))
                  else Some r))"
    by auto
  let ?done = "\<lambda>m ls. \<exists>l r. l \<in> set ls \<and> FindRequest m l = Some r \<and>
               state r t = MEDIA_REQUEST_STATE_DONE \<and>
               list_ex (session_entry t sid) (devices r)"
  have eff: "effects m' = effects m @ es1 @ es2"
    by (simp add: ih(2) m2(2) m1(2))
  have shape: "map_option erase_state (FindRequest m' l') =
          (case FindRequest m l' of
             None \<Rightarrow> None
           | Some r \<Rightarrow>
               if l' \<in> set (l # ls)
               then (if without_session t sid (devices r) = [] then None
                     else Some (erase_state (r\<lparr>devices := without_session t sid (devices r)\<rparr>)))
               else Some (erase_state r))" for l'
  proof (cases "l' = l")
    case True
    with nl ih(3) [of l] m2(4) [of l] m1(3,4) r dev1 show ?thesis by simp
  next
    case False
    show ?thesis
    proof (cases "FindRequest m l'")
      case None
      with m1(6) [OF False] have "FindRequest m1 l' = None" by simp
      with None False ih(3) [of l'] m2(4) [of l'] show ?thesis by simp
    next
      case (Some r')
      with m1(6) [OF False] obtain r1' where
        r1': "FindRequest m1 l' = Some r1'" "erase_state r1' = erase_state r'"
        by auto
      from erase_state_devices [OF r1'(2)] have "devices r1' = devices r'" .
      with Some False ih(3) [of l'] m2(4) [of l'] r1' show ?thesis by simp
    qed
  qed
  have closed: "ProviderClose t sid \<in> set (es1 @ es2)" if "?done m (l # ls)"
  proof (cases "state r t = MEDIA_REQUEST_STATE_DONE \<and> list_ex (session_entry t sid) (devices r)")
    case True
    with m1(7) show ?thesis by simp
  next
    case False
    with m1(8) have same: "\<And>l'. l' \<noteq> l \<Longrightarrow> FindRequest m1 l' = FindRequest m l'" by simp
    from that False r nl obtain l0 r0 where
      "l0 \<in> set ls" "l0 \<noteq> l" "FindRequest m l0 = Some r0"
      "state r0 t = MEDIA_REQUEST_STATE_DONE" "list_ex (session_entry t sid) (devices r0)"
      by auto
    with same [of l0] m2(4) [of l0] have "?done m2 ls" by auto
    with ih(4) show ?thesis by simp
  qed
  have quiet: "es1 @ es2 = [] \<and>
          (\<forall>l'. FindRequest m' l' =
             (case FindRequest m l' of
                None \<Rightarrow> None
              | Some r \<Rightarrow>
                  if l' \<in> set (l # ls)
                  then (if without_session t sid (devices r) = [] then None
                        else Some (r\<lparr>devices := without_session t sid (devices r)\<rparr>))
                  else Some r))" if "\<not> ?done m (l # ls)"
  proof -
    from that r
    have "\<not> (state r t = MEDIA_REQUEST_STATE_DONE \<and> list_ex (session_entry t sid) (devices r))"
      by auto
    with m1(8) have b: "es1 = []" "r1 = r\<lparr>devices := without_session t sid (devices r)\<rparr>"
      "\<And>l'. l' \<noteq> l \<Longrightarrow> FindRequest m1 l' = FindRequest m l'"
      by simp_all
    have "\<not> ?done m2 ls"
    proof
      assume "?done m2 ls"
      then obtain l0 r0 where l0: "l0 \<in> set ls" "FindRequest m2 l0 = Some r0"
        "state r0 t = MEDIA_REQUEST_STATE_DONE" "list_ex (session_entry t sid) (devices r0)"
        by auto
      with nl have "l0 \<noteq> l" by auto
      with l0 b(3) [of l0] m2(4) [of l0] have "?done m (l # ls)" by auto
      with that show False by blast
    qed
    with ih(5) have c: "es2 = []"
      "\<And>l'. FindRequest m' l' =
             (case FindRequest m2 l' of
                None \<Rightarrow> None
              | Some r \<Rightarrow>
                  if l' \<in> set ls
                  then (if without_session t sid (devices r) = [] then None
                        else Some (r\<lparr>devices := without_session t sid (devices r)\<rparr>))
                  else Some r)"
      by simp_all
    have "FindRequest m' l' =
             (case FindRequest m l' of
                None \<Rightarrow> None
              | Some r \<Rightarrow>
                  if l' \<in> set (l # ls)
                  then (if without_session t sid (devices r) = [] then None
                        else Some (r\<lparr>devices := without_session t sid (devices r)\<rparr>))
                  else Some r)" for l'
    proof (cases "l' = l")
      case True
      with nl c(2) [of l] m2(4) [of l] m1(3) b(2) r dev1 show ?thesis by simp
    next
      case False
      with c(2) [of l'] m2(4) [of l'] b(3) [of l'] show ?thesis
        by (simp split: option.splits)
    qed
    with b(1) c(1) show ?thesis by simp
  qed
  show ?case
    unfolding step using ih(1) eff shape closed quiet by blast
qed

text \<open>
  C8, what the code does. \<^verbatim>\<open>StopDevice\<close> closes the session only inside the test
  \<^verbatim>\<open>request->state(type) == MEDIA_REQUEST_STATE_DONE\<close>. When no request that holds an
  entry of the session has the kind \<^verbatim>\<open>DONE\<close> (the device is still \<^verbatim>\<open>OPENING\<close>, say),
  the call returns without calling any collaborator: the session is not closed with
  its provider and no kind is marked \<^verbatim>\<open>CLOSING\<close>. The entries of the session are
  erased, every request is otherwise exactly as before, and every request whose device
  list is empty after that is deleted, also a request that held no device before the
  call.
\<close>

theorem StopDevice_leaves_opening_session_open:
  assumes "distinct (map fst (requests m))" and "GetDeviceManager t"
    and "\<not> (\<exists>l r. FindRequest m l = Some r \<and> state r t = MEDIA_REQUEST_STATE_DONE \<and>
               list_ex (session_entry t sid) (devices r))"
  shows "\<exists>m'. StopDevice E m t sid = Some m' \<and> effects m' = effects m \<and>
       (\<forall>l. FindRequest m' l =
          (case FindRequest m l of
             None \<Rightarrow> None
           | Some r \<Rightarrow>
               if without_session t sid (devices r) = [] then None
               else Some (r\<lparr>devices := without_session t sid (devices r)\<rparr>)))"
proof -
  let ?ls = "map fst (requests m)"
  have in_ls: "l \<in> set ?ls" if "FindRequest m l = Some r" for l r
    using that FindRequest_None_iff [of m l] by auto
  from StopDevice_requests_result [OF assms(2) assms(1) subset_refl, of E sid]
  obtain m' es where
    res: "StopDevice_requests E m t sid ?ls = Some m'" "effects m' = effects m @ es"
      "\<not> (\<exists>l r. l \<in> set ?ls \<and> FindRequest m l = Some r \<and>
               state r t = MEDIA_REQUEST_STATE_DONE \<and>
               list_ex (session_entry t sid) (devices r)) \<longrightarrow>
          es = [] \<and>
          (\<forall>l. FindRequest m' l =
             (case FindRequest m l of
                None \<Rightarrow> None
              | Some r \<Rightarrow>
                  if l \<in> set ?ls
                  then (if without_session t sid (devices r) = [] then None
                        else Some (r\<lparr>devices := without_session t sid (devices r)\<rparr>))
                  else Some r))"
    by blast
  from assms(3) res(3) have es: "es = []"
    and eq: "\<And>l. FindRequest m' l =
             (case FindRequest m l of
                None \<Rightarrow> None
              | Some r \<Rightarrow>
                  if l \<in> set ?ls
                  then (if without_session t sid (devices r) = [] then None
                        else Some (r\<lparr>devices := without_session t sid (devices r)\<rparr>))
                  else Some r)"
    by blast+
  have "FindRequest m' l =
             (case FindRequest m l of
                None \<Rightarrow> None
              | Some r \<Rightarrow>
                  if without_session t sid (devices r) = [] then None
                  else Some (r\<lparr>devices := without_session t sid (devices r)\<rparr>))" for l
    using eq [of l] in_ls [of l] by (cases "FindRequest m l") simp_all
  with res(1,2) es show ?thesis
    unfolding StopDevice_def by simp
qed

theorem StopDevice_opening_session_witness:
  "\<exists>m'.
     StopDevice test_env
       (manager_with
          [(''A'', holding_request MEDIA_REQUEST_STATE_DONE MEDIA_REQUEST_STATE_OPENING),
           (''B'', pending_request)])
       MEDIA_DEVICE_VIDEO_CAPTURE 5 = Some m' \<and>
     effects m' = [] \<and>
     FindRequest m' ''A'' =
       Some ((holding_request MEDIA_REQUEST_STATE_DONE MEDIA_REQUEST_STATE_OPENING)
               \<lparr>devices := [test_info MEDIA_DEVICE_AUDIO_CAPTURE ''mic'' 6]\<rparr>) \<and>
     state ((holding_request MEDIA_REQUEST_STATE_DONE MEDIA_REQUEST_STATE_OPENING)
               \<lparr>devices := [test_info MEDIA_DEVICE_AUDIO_CAPTURE ''mic'' 6]\<rparr>)
       MEDIA_DEVICE_VIDEO_CAPTURE = MEDIA_REQUEST_STATE_OPENING \<and>
     devices pending_request = [] \<and>
     FindRequest m' ''B'' = None"
proof -
  let ?a = "holding_request MEDIA_REQUEST_STATE_DONE MEDIA_REQUEST_STATE_OPENING"
  let ?m = "manager_with [(''A'', ?a), (''B'', pending_request)]"
  have d: "distinct (map fst (requests ?m))" and g: "GetDeviceManager MEDIA_DEVICE_VIDEO_CAPTURE"
    and e: "effects ?m = []"
    by (simp_all add: manager_with_def GetDeviceManager_def MediaStreamManager_new_def)
  have find: "FindRequest ?m l = (if l = ''A'' then Some ?a
                else if l = ''B'' then Some pending_request else None)" for l
    by (simp add: FindRequest_def manager_with_def)
  have a: "without_session MEDIA_DEVICE_VIDEO_CAPTURE 5 (devices ?a) =
            [test_info MEDIA_DEVICE_AUDIO_CAPTURE ''mic'' 6]"
    and st: "state ?a MEDIA_DEVICE_VIDEO_CAPTURE = MEDIA_REQUEST_STATE_OPENING"
      "state (?a\<lparr>devices := [test_info MEDIA_DEVICE_AUDIO_CAPTURE ''mic'' 6]\<rparr>)
         MEDIA_DEVICE_VIDEO_CAPTURE = MEDIA_REQUEST_STATE_OPENING"
    and b: "devices pending_request = []"
    by (simp_all add: holding_request_def session_entry_def test_info_def test_device_def
        state_def pending_request_def DeviceRequest_new_def)
  have none: "\<not> (\<exists>l r. FindRequest ?m l = Some r \<and>
                 state r MEDIA_DEVICE_VIDEO_CAPTURE = MEDIA_REQUEST_STATE_DONE \<and>
                 list_ex (session_entry MEDIA_DEVICE_VIDEO_CAPTURE 5) (devices r))"
    using st(1) b by (auto simp: find split: if_splits)
  from StopDevice_leaves_opening_session_open [OF d g none, of test_env]
  obtain m' where
    res: "StopDevice test_env ?m MEDIA_DEVICE_VIDEO_CAPTURE 5 = Some m'"
      "effects m' = effects ?m"
      "\<And>l. FindRequest m' l =
          (case FindRequest ?m l of
             None \<Rightarrow> None
           | Some r \<Rightarrow>
               if without_session MEDIA_DEVICE_VIDEO_CAPTURE 5 (devices r) = [] then None
               else Some (r\<lparr>devices := without_session MEDIA_DEVICE_VIDEO_CAPTURE 5 (devices r)\<rparr>))"
    by blast
  from res(3) [of "''A''"] a
  have "FindRequest m' ''A'' =
          Some (?a\<lparr>devices := [test_info MEDIA_DEVICE_AUDIO_CAPTURE ''mic'' 6]\<rparr>)"
    by (simp add: find)
  moreover from res(3) [of "''B''"] b have "FindRequest m' ''B'' = None"
    by (simp add: find)
  ultimately show ?thesis using res(1,2) e st(2) b by auto
qed

subsection \<open>An enumeration request and a device that goes away\<close>

text \<open>
  C10, what the code does. \<^verbatim>\<open>DoEnumerateDevices\<close> sends the cached list and leaves
  the enumeration request in the registry with its kind \<^verbatim>\<open>REQUESTED\<close>. But when the
  next enumeration reports another microphone in place of the cached one, the request
  is not sent the new list: \<^verbatim>\<open>StopRemovedDevices\<close> finds the source id of the removed
  device in the device list of the enumeration request, tells the requester that the
  device stopped, and \<^verbatim>\<open>StopDevice\<close> erases the entries and deletes the request,
  before the list of waiting requests is made.
\<close>

theorem enumeration_request_deleted_on_device_removal:
  "DoEnumerateDevices test_env listening_manager ''L'' = Some delivered_manager \<and>
   map_option (\<lambda>m. (requests m, effects m))
     (DevicesEnumerated test_env (OnDevicesChanged delivered_manager DEVTYPE_AUDIO_CAPTURE)
        MEDIA_DEVICE_AUDIO_CAPTURE [test_info MEDIA_DEVICE_AUDIO_CAPTURE ''mic2'' (- 1)]) =
   Some ([],
         [RequesterDevicesEnumerated 7 ''L'' delivered_list,
          ProviderEnumerateDevices MEDIA_DEVICE_AUDIO_CAPTURE,
          DeviceStopped 7 2 ''L'' delivered_entry,
          OnAudioCaptureDevicesChanged [test_device MEDIA_DEVICE_AUDIO_CAPTURE ''mic2'']])"
  by code_simp

theorem enumeration_request_deleted_witness:
  "\<exists>m'. DevicesEnumerated test_env (OnDevicesChanged delivered_manager DEVTYPE_AUDIO_CAPTURE)
          MEDIA_DEVICE_AUDIO_CAPTURE [test_info MEDIA_DEVICE_AUDIO_CAPTURE ''mic2'' (- 1)] =
        Some m' \<and>
        FindRequest delivered_manager ''L'' \<noteq> None \<and>
        FindRequest m' ''L'' = None \<and>
        filter (\<lambda>e. case e of RequesterDevicesEnumerated q l ds \<Rightarrow> True | _ \<Rightarrow> False)
          (effects m') = [RequesterDevicesEnumerated 7 ''L'' delivered_list]"
proof -
  from enumeration_request_deleted_on_device_removal obtain m' where
    m': "DevicesEnumerated test_env (OnDevicesChanged delivered_manager DEVTYPE_AUDIO_CAPTURE)
          MEDIA_DEVICE_AUDIO_CAPTURE [test_info MEDIA_DEVICE_AUDIO_CAPTURE ''mic2'' (- 1)] =
         Some m'"
      "requests m' = []"
      "effects m' =
         [RequesterDevicesEnumerated 7 ''L'' delivered_list,
          ProviderEnumerateDevices MEDIA_DEVICE_AUDIO_CAPTURE,
          DeviceStopped 7 2 ''L'' delivered_entry,
          OnAudioCaptureDevicesChanged [test_device MEDIA_DEVICE_AUDIO_CAPTURE ''mic2'']]"
    by auto
  have "FindRequest delivered_manager ''L'' \<noteq> None"
    by (simp add: FindRequest_def delivered_manager_def)
  with m' show ?thesis by (simp add: FindRequest_def)
qed

subsection \<open>Operations that dispatch no enumeration\<close>

lemma enums_append [simp]: "enums (es @ es') = enums es @ enums es'"
  by (induction es rule: enums.induct) simp_all

lemma enums_snd_SetState [simp]: "enums (snd (SetState E r t s)) = []"
  by (simp add: SetState_def Let_def)

lemma ref_counts_kept [simp]:
  "active_enumeration_ref_count (emit es m) = active_enumeration_ref_count m"
  "active_enumeration_ref_count (store_request l r m) = active_enumeration_ref_count m"
  "active_enumeration_ref_count (set_devices l ds m) = active_enumeration_ref_count m"
  "active_enumeration_ref_count (request_SetState E m l t s) = active_enumeration_ref_count m"
  "active_enumeration_ref_count (set_enumeration_cache t c m) = active_enumeration_ref_count m"
  by (simp_all add: emit_def store_request_def set_devices_def request_SetState_def
      set_enumeration_cache_def split: option.splits)

lemma enums_effects_kept [simp]:
  "enums (effects (request_SetState E m l t s)) = enums (effects m)"
  "effects (set_enumeration_cache t c m) = effects m"
  by (simp_all add: request_SetState_def set_enumeration_cache_def split: option.splits)

lemma quiet_refl [simp]: "quiet m m"
  by (simp add: quiet_def)

lemma quiet_trans: "quiet m m1 \<Longrightarrow> quiet m1 m2 \<Longrightarrow> quiet m m2"
  by (simp add: quiet_def)

lemma quiet_emit: "enums es = [] \<Longrightarrow> quiet m (emit es m)"
  by (simp add: quiet_def emit_def)

lemma quiet_emit_iff [simp]: "enums es = [] \<Longrightarrow> quiet m (emit es m') \<longleftrightarrow> quiet m m'"
  by (simp add: quiet_def emit_def)

lemma quiet_store_request [simp]: "quiet m (store_request l r m') \<longleftrightarrow> quiet m m'"
  by (simp add: quiet_def store_request_def)

lemma quiet_set_devices [simp]: "quiet m (set_devices l ds m') \<longleftrightarrow> quiet m m'"
  by (simp add: quiet_def set_devices_def)

lemma quiet_left [simp]:
  "quiet (emit es m) m' \<longleftrightarrow> enums (effects m') = enums (effects m) @ enums es \<and>
     active_enumeration_ref_count m' = active_enumeration_ref_count m"
  "quiet (store_request l r m) m' \<longleftrightarrow> quiet m m'"
  "quiet (set_devices l ds m) m' \<longleftrightarrow> quiet m m'"
  "quiet (request_SetState E m l t s) m' \<longleftrightarrow> quiet m m'"
  by (auto simp: quiet_def emit_def store_request_def set_devices_def request_SetState_def
      split: option.splits)

lemma quiet_requests_update [simp]: "quiet m (m'\<lparr>requests := rs\<rparr>) \<longleftrightarrow> quiet m m'"
  by (simp add: quiet_def)

lemma quiet_request_SetState [simp]: "quiet m (request_SetState E m' l t s) \<longleftrightarrow> quiet m m'"
  by (simp add: request_SetState_def split: option.splits)

lemma quiet_DeleteRequest: "DeleteRequest m l = Some m' \<Longrightarrow> quiet m m'"
  by (auto simp: DeleteRequest_def quiet_def split: if_splits)

lemma enums_CloseDevice_devices [simp]: "enums (snd (CloseDevice_devices E r t sid ds)) = []"
  by (induction ds arbitrary: r) (simp_all add: Let_def)

lemma enums_CloseDevice_requests [simp]: "enums (snd (CloseDevice_requests E t sid ps)) = []"
  by (induction ps) (simp_all add: Let_def)

lemma quiet_CloseDevice: "CloseDevice E m t sid = Some m' \<Longrightarrow> quiet m m'"
  by (auto simp: CloseDevice_def quiet_def split: if_splits)

lemma quiet_StopDevice_devices:
  "StopDevice_devices E m l t sid kept ds = Some m' \<Longrightarrow> quiet m m'"
proof (induction ds arbitrary: m kept)
  case Nil
  then show ?case by simp
next
  case (Cons d ds)
  show ?case
  proof (cases "device_type (device d) \<noteq> t \<or> session_id d \<noteq> sid")
    case True
    with Cons show ?thesis by simp
  next
    case False
    with Cons.prems obtain m1 where
      m1: "CloseDevice E m t sid = Some m1 \<or> m1 = m"
      and rest: "StopDevice_devices E (set_devices l (kept @ ds) m1) l t sid kept ds = Some m'"
      by (auto split: option.splits if_splits)
    from m1 have "quiet m m1" by (auto dest: quiet_CloseDevice)
    moreover from Cons.IH [OF rest] have "quiet m1 m'" by simp
    ultimately show ?thesis by (rule quiet_trans)
  qed
qed

lemma quiet_StopDevice_requests:
  "StopDevice_requests E m t sid ls = Some m' \<Longrightarrow> quiet m m'"
proof (induction ls arbitrary: m)
  case Nil
  then show ?case by simp
next
  case (Cons l ls)
  from Cons.prems obtain ds0 m1 m2 where
    1: "StopDevice_devices E m l t sid [] ds0 = Some m1"
    and 2: "DeleteRequest m1 l = Some m2 \<or> m2 = m1"
    and 3: "StopDevice_requests E m2 t sid ls = Some m'"
    by (auto split: option.splits if_splits; blast)
  from 1 have "quiet m m1" by (rule quiet_StopDevice_devices)
  moreover from 2 have "quiet m1 m2" by (auto dest: quiet_DeleteRequest)
  moreover from 3 have "quiet m2 m'" by (rule Cons.IH)
  ultimately show ?case by (blast intro: quiet_trans)
qed

lemma quiet_StopDevice: "StopDevice E m t sid = Some m' \<Longrightarrow> quiet m m'"
  unfolding StopDevice_def by (rule quiet_StopDevice_requests)

lemma quiet_StopDevice_sessions: "StopDevice_sessions E m t sids = Some m' \<Longrightarrow> quiet m m'"
proof (induction sids arbitrary: m)
  case Nil
  then show ?case by simp
next
  case (Cons sid sids)
  then show ?case
    by (auto split: option.splits intro: quiet_trans dest: quiet_StopDevice)
qed

lemma quiet_CancelRequest_devices:
  "CancelRequest_devices E m l ds = Some m' \<Longrightarrow> quiet m m'"
proof (induction ds arbitrary: m)
  case Nil
  then show ?case by simp
next
  case (Cons d ds)
  then show ?case
    by (auto split: option.splits if_splits intro: quiet_trans dest: quiet_CloseDevice)
qed

lemma quiet_CancelRequest: "CancelRequest E m l = Some m' \<Longrightarrow> quiet m m'"
proof -
  assume run: "CancelRequest E m l = Some m'"
  show ?thesis
  proof (cases "FindRequest m l")
    case None
    with run show ?thesis by (simp add: CancelRequest_def)
  next
    case (Some r)
    show ?thesis
    proof (cases "request_type (request r) = MEDIA_ENUMERATE_DEVICES")
      case True
      with run Some show ?thesis by (auto simp: CancelRequest_def dest: quiet_DeleteRequest)
    next
      case False
      with run Some obtain m1 m2 where
        1: "CancelRequest_devices E m l (devices r) = Some m1"
        and 2: "m2 = request_SetState E m1 l NUM_MEDIA_TYPES MEDIA_REQUEST_STATE_CLOSING"
        and 3: "DeleteRequest m2 l = Some m'"
        by (auto simp: CancelRequest_def CancelRequest_closing_def split: option.splits)
      from 1 have "quiet m m1" by (rule quiet_CancelRequest_devices)
      then have "quiet m m2" by (simp add: 2)
      moreover from 3 have "quiet m2 m'" by (rule quiet_DeleteRequest)
      ultimately show ?thesis by (rule quiet_trans)
    qed
  qed
qed

lemma quiet_CancelAllRequests_loop:
  "CancelAllRequests_loop E m pid ls = Some m' \<Longrightarrow> quiet m m'"
proof (induction ls arbitrary: m)
  case Nil
  then show ?case by simp
next
  case (Cons l ls)
  then show ?case
    by (auto split: option.splits if_splits intro: quiet_trans dest: quiet_CancelRequest)
qed

lemma quiet_StopStreamDevice_loop:
  "StopStreamDevice_loop E m pid vid dev_id ps = Some m' \<Longrightarrow> quiet m m'"
proof (induction ps)
  case Nil
  then show ?case by simp
next
  case (Cons p ps)
  then show ?case
    by (auto split: option.splits if_splits dest: quiet_StopDevice)
qed

lemma quiet_FinalizeRequestFailed: "FinalizeRequestFailed m l r = Some m' \<Longrightarrow> quiet m m'"
  by (auto simp: FinalizeRequestFailed_def quiet_def DeleteRequest_def emit_def
      split: option.splits if_splits)

lemma quiet_FinalizeMediaAccessRequest:
  "FinalizeMediaAccessRequest m l r devs = Some m' \<Longrightarrow> quiet m m'"
  by (auto simp: FinalizeMediaAccessRequest_def quiet_def DeleteRequest_def emit_def
      split: option.splits if_splits)

lemma quiet_PostRequestToUI: "PostRequestToUI E m l r = Some m' \<Longrightarrow> quiet m m'"
  by (auto simp: PostRequestToUI_def Let_def TranslateRequestedSourceIdToDeviceId_succeeds
      quiet_def emit_def store_request_def split: if_splits)

lemma enums_HandleRequestDone: "HandleRequestDone l r = Some es \<Longrightarrow> enums es = []"
  by (auto simp: HandleRequestDone_def FinalizeOpenDevice_def FinalizeGenerateStream_def
      split: option.splits MediaStreamRequestType.splits list.splits if_splits)

lemma quiet_HandleAccessRequestResponse_devices:
  "HandleAccessRequestResponse_devices E m l fa fv devs = Some res \<Longrightarrow> quiet m (fst res)"
proof (induction devs arbitrary: m fa fv)
  case Nil
  then show ?case by auto
next
  case (Cons dev0 devs)
  from Cons.prems show ?case
    by (auto simp: Let_def quiet_def dest!: Cons.IH split: option.splits if_splits)
qed

lemma quiet_HandleAccessRequestResponse:
  "HandleAccessRequestResponse E m l devs = Some m' \<Longrightarrow> quiet m m'"
proof -
  assume run: "HandleAccessRequestResponse E m l devs = Some m'"
  show ?thesis
  proof (cases "FindRequest m l")
    case None
    with run show ?thesis by (simp add: HandleAccessRequestResponse_def)
  next
    case (Some r)
    show ?thesis
    proof (cases "request_type (request r) = MEDIA_DEVICE_ACCESS \<or> devs = []")
      case True
      with run Some show ?thesis
        by (auto simp: HandleAccessRequestResponse_def
            dest: quiet_FinalizeMediaAccessRequest quiet_FinalizeRequestFailed split: if_splits)
    next
      case False
      with run Some obtain res es where
        1: "HandleAccessRequestResponse_devices E m l False False devs = Some res"
        and 2: "quiet (fst res) m'"
        by (auto simp: HandleAccessRequestResponse_def Let_def
            dest: enums_HandleRequestDone split: option.splits if_splits)
      from quiet_HandleAccessRequestResponse_devices [OF 1] 2 show ?thesis
        by (rule quiet_trans)
    qed
  qed
qed

lemma enums_Opened_devices:
  "Opened_devices E l r t sid passed ds = Some res \<Longrightarrow> enums (snd res) = []"
proof (induction ds arbitrary: passed)
  case Nil
  then show ?case by auto
next
  case (Cons d ds)
  then show ?case
    by (auto simp: Let_def dest: enums_HandleRequestDone split: option.splits if_splits)
qed

lemma enums_Opened_requests:
  "Opened_requests E t sid ps = Some res \<Longrightarrow> enums (snd res) = []"
proof (induction ps arbitrary: res)
  case Nil
  then show ?case by auto
next
  case (Cons p ps)
  then show ?case
    by (auto dest: enums_Opened_devices split: option.splits)
qed

lemma quiet_Opened: "Opened E m t sid = Some m' \<Longrightarrow> quiet m m'"
  by (auto simp: Opened_def dest: enums_Opened_requests split: option.splits)

lemma enums_DeviceStopped [simp]:
  "enums (map (DeviceStopped q v l) ds) = []"
  by (induction ds) simp_all

lemma enums_stopped_notifications [simp]:
  "enums (concat (map (\<lambda>p. case requester (snd p) of
                                  None \<Rightarrow> []
                                | Some q \<Rightarrow>
                                    map (DeviceStopped q (requesting_view_id (snd p)) (fst p))
                                      (removed_entries E dev (snd p))) ps)) = []"
  by (induction ps) (simp_all split: option.splits)

lemma quiet_StopRemovedDevice: "StopRemovedDevice E m dev = Some m' \<Longrightarrow> quiet m m'"
  unfolding StopRemovedDevice_def
  by (drule quiet_StopDevice_sessions) (simp add: quiet_def)

lemma quiet_StopRemovedDevices:
  "StopRemovedDevices E m old_devices new_devices = Some m' \<Longrightarrow> quiet m m'"
proof (induction old_devices arbitrary: m)
  case Nil
  then show ?case by simp
next
  case (Cons d ds)
  then show ?case
    by (auto split: option.splits if_splits intro: quiet_trans dest: quiet_StopRemovedDevice)
qed

lemma quiet_NotifyDevicesChanged [simp]: "quiet m (NotifyDevicesChanged E m t devs)"
  by (simp add: NotifyDevicesChanged_def)

lemma enums_DevicesEnumerated_mark [simp]: "enums (snd (DevicesEnumerated_mark E t ps)) = []"
  by (induction ps) (simp_all add: Let_def)

lemma enums_FinalizeEnumerateDevices:
  "FinalizeEnumerateDevices E l r = Some res \<Longrightarrow> enums (snd res) = []"
  by (auto simp: FinalizeEnumerateDevices_def Let_def split: option.splits if_splits)

lemma quiet_DevicesEnumerated_publish:
  "DevicesEnumerated_publish E m need devs ls = Some m' \<Longrightarrow> quiet m m'"
proof (induction ls arbitrary: m)
  case Nil
  then show ?case by simp
next
  case (Cons l ls)
  from Cons.prems obtain r where r: "FindRequest m l = Some r"
    by (auto split: option.splits)
  consider (deliver) res where
      "FinalizeEnumerateDevices E l (r\<lparr>devices := devs\<rparr>) = Some res"
      "DevicesEnumerated_publish E (emit (snd res) (store_request l (fst res) m)) need devs ls =
         Some m'"
    | (skip) "DevicesEnumerated_publish E m need devs ls = Some m'"
    | (post) m1 where "PostRequestToUI E m l r = Some m1"
      "DevicesEnumerated_publish E m1 need devs ls = Some m'"
    using Cons.prems r by (auto split: option.splits if_splits)
  then show ?case
  proof cases
    case deliver
    from Cons.IH [OF deliver(2)] enums_FinalizeEnumerateDevices [OF deliver(1)]
    show ?thesis by (simp add: quiet_def)
  next
    case skip
    then show ?thesis by (rule Cons.IH)
  next
    case post
    from quiet_PostRequestToUI [OF post(1)] Cons.IH [OF post(2)]
    show ?thesis by (rule quiet_trans)
  qed
qed

lemma quiet_DevicesEnumerated_update_cache:
  "DevicesEnumerated_update_cache E m t devs = Some m1 \<Longrightarrow> quiet m m1"
  by (auto simp: DevicesEnumerated_update_cache_def quiet_def
      dest!: quiet_StopRemovedDevices split: if_splits option.splits)

lemma quiet_DevicesEnumerated_waiting:
  "DevicesEnumerated_waiting E m need t devs = Some m4 \<Longrightarrow> quiet m m4"
  unfolding DevicesEnumerated_waiting_def
  by (drule quiet_DevicesEnumerated_publish) (simp add: quiet_def)

lemma DevicesEnumerated_quiet_then_release:
  assumes "DevicesEnumerated E m t devs = Some m'"
  shows "\<exists>m4. quiet m m4 \<and> m' = add_ref_count t (- 1) m4"
proof -
  from assms obtain m1 m4 where
    1: "DevicesEnumerated_update_cache E m t devs = Some m1"
    and 2: "DevicesEnumerated_waiting E
              (if need_update_clients m t devs \<and> monitoring_started m1
               then NotifyDevicesChanged E m1 t devs else m1)
              (need_update_clients m t devs) t devs = Some m4"
    and 3: "m' = add_ref_count t (- 1) m4"
    by (auto simp: DevicesEnumerated_def split: option.splits)
  from quiet_DevicesEnumerated_update_cache [OF 1] have "quiet m m1" .
  moreover have "quiet m1 (if need_update_clients m t devs \<and> monitoring_started m1
               then NotifyDevicesChanged E m1 t devs else m1)"
    by simp
  moreover note quiet_DevicesEnumerated_waiting [OF 2]
  ultimately have "quiet m m4" by (blast intro: quiet_trans)
  with 3 show ?thesis by blast
qed

subsection \<open>The reference counts follow the enumerations in flight\<close>

lemma quiet_AddRequest: "AddRequest m r labels = Some res \<Longrightarrow> quiet m (snd res)"
  by (induction labels) (auto simp: quiet_def split: if_splits)

lemma quiet_entry_points:
  "MakeMediaAccessRequest m pid vid page options origin cb labels = Some (label, m') \<Longrightarrow>
   quiet m m'"
  "GenerateStream E m rq pid vid rc page options origin labels = Some (label, m') \<Longrightarrow>
   quiet m m'"
  "EnumerateDevices m rq pid vid rc page t origin labels = Some (label, m') \<Longrightarrow> quiet m m'"
  "OpenDevice m rq pid vid rc page dev_id t origin labels = Some (label, m') \<Longrightarrow> quiet m m'"
  by (auto simp: MakeMediaAccessRequest_def GenerateStream_def EnumerateDevices_def
      OpenDevice_def UseFakeDevice_def Let_def quiet_def emit_def
      dest!: quiet_AddRequest split: option.splits if_splits)

lemma quiet_StopMediaStreamFromBrowser:
  "StopMediaStreamFromBrowser E m l = Some m' \<Longrightarrow> quiet m m'"
  by (auto simp: StopMediaStreamFromBrowser_def quiet_def
      dest!: quiet_CancelRequest split: option.splits)

lemma quiet_StopMonitoring [simp]: "quiet m (StopMonitoring m)"
  by (simp add: StopMonitoring_def quiet_def emit_def)

lemma int32_dvd: "(2::int) ^ 32 dvd int32 y - y"
proof -
  have "int32 y - y = - ((y + 2 ^ 31) - (y + 2 ^ 31) mod 2 ^ 32)"
    by (simp add: int32_def signed_take_bit_eq_take_bit_shift take_bit_eq_mod)
  then show ?thesis by (simp only: dvd_minus_iff dvd_minus_mod)
qed

lemma int32_idem [simp]: "int32 (int32 x) = int32 x"
  by (simp add: int32_def)

lemma int32_range: "int32 x = x \<longleftrightarrow> - (2 ^ 31) \<le> x \<and> x < 2 ^ 31"
  by (simp add: int32_def signed_take_bit_int_eq_self_iff)

lemma dvd_small_eq:
  fixes r f :: int
  assumes "2 ^ 32 dvd r - f" "- (2 ^ 31) \<le> r" "r < 2 ^ 31" "0 \<le> f" "f < 2 ^ 31"
  shows "r = f"
proof -
  from assms(1) obtain q where q: "r - f = 2 ^ 32 * q" by (auto simp: dvd_def)
  with assms(2-) have "q = 0" by simp
  with q show ?thesis by simp
qed

lemma in_int32_kept [simp]:
  "in_int32 (emit es m) = in_int32 m"
  "in_int32 (request_SetState E m l t s) = in_int32 m"
  "in_int32 (m\<lparr>monitoring_started := b\<rparr>) = in_int32 m"
  by (simp_all add: in_int32_def)

lemma in_int32_add_ref_count: "in_int32 m \<Longrightarrow> in_int32 (add_ref_count k d m)"
  by (auto simp: in_int32_def add_ref_count_def list_all_iff dest!: set_update_subset_insert [THEN subsetD])

lemma balanced_refl [simp]: "balanced m m"
  by (simp add: balanced_def)

lemma balanced_trans:
  assumes "balanced m m1" and "balanced m1 m2"
  shows "balanced m m2"
proof -
  have "(2::int) ^ 32 dvd
          (ref_count m2 k - int (count_list (enums (effects m2)) k)) -
          (ref_count m k - int (count_list (enums (effects m)) k))"
    if "k \<noteq> NUM_MEDIA_TYPES" for k
  proof -
    from assms that
    have "(2::int) ^ 32 dvd
            ((ref_count m2 k - int (count_list (enums (effects m2)) k)) -
             (ref_count m1 k - int (count_list (enums (effects m1)) k))) +
            ((ref_count m1 k - int (count_list (enums (effects m1)) k)) -
             (ref_count m k - int (count_list (enums (effects m)) k)))"
      unfolding balanced_def by (intro dvd_add) blast+
    then show ?thesis by (simp add: algebra_simps)
  qed
  moreover have "count_list (enums (effects m)) k \<le> count_list (enums (effects m2)) k" for k
    using assms unfolding balanced_def by (meson order_trans)
  ultimately show ?thesis using assms by (simp add: balanced_def)
qed

lemma quiet_balanced: "quiet m m' \<Longrightarrow> balanced m m'"
  by (simp add: quiet_def balanced_def ref_count_def in_int32_def)

lemma balanced_request_SetState [simp]:
  "balanced m (request_SetState E m' l t s) \<longleftrightarrow> balanced m m'"
  by (simp add: balanced_def ref_count_def)

lemma balanced_dispatch:
  assumes "length (active_enumeration_ref_count m) = 7" and "k \<noteq> NUM_MEDIA_TYPES"
  shows "balanced m (emit [ProviderEnumerateDevices k] (add_ref_count k 1 m))"
proof -
  let ?m' = "emit [ProviderEnumerateDevices k] (add_ref_count k 1 m)"
  have r: "ref_count ?m' k' = (if k' = k then int32 (ref_count m k + 1) else ref_count m k')"
    if "k' \<noteq> NUM_MEDIA_TYPES" for k'
    using assms that type_index_less [of k] type_index_less [of k']
    by (auto simp: ref_count_def add_ref_count_def emit_def nth_list_update)
  have c: "count_list (enums (effects ?m')) k' =
           count_list (enums (effects m)) k' + (if k' = k then 1 else 0)" for k'
    by simp
  have "(2::int) ^ 32 dvd
          (ref_count ?m' k' - int (count_list (enums (effects ?m')) k')) -
          (ref_count m k' - int (count_list (enums (effects m)) k'))"
    if k': "k' \<noteq> NUM_MEDIA_TYPES" for k'
  proof (cases "k' = k")
    case True
    have eq: "(ref_count ?m' k - int (count_list (enums (effects ?m')) k)) -
          (ref_count m k - int (count_list (enums (effects m)) k)) =
          int32 (ref_count m k + 1) - (ref_count m k + 1)"
      using r [OF assms(2)] by (simp only: c) simp
    from int32_dvd [of "ref_count m k + 1"] show ?thesis unfolding True eq .
  next
    case False
    with r [OF k'] show ?thesis by (simp only: c) simp
  qed
  moreover have "length (active_enumeration_ref_count ?m') = length (active_enumeration_ref_count m)"
    by (simp add: add_ref_count_def)
  moreover have "in_int32 m \<longrightarrow> in_int32 ?m'"
    by (simp add: in_int32_add_ref_count)
  moreover have "count_list (enums (effects ?m')) NUM_MEDIA_TYPES =
                 count_list (enums (effects m)) NUM_MEDIA_TYPES"
    using assms(2) by simp
  moreover have "\<forall>k'. count_list (enums (effects m)) k' \<le> count_list (enums (effects ?m')) k'"
    by simp
  ultimately show ?thesis unfolding balanced_def by blast
qed

lemma balanced_length:
  "balanced m m' \<Longrightarrow> length (active_enumeration_ref_count m') =
     length (active_enumeration_ref_count m)"
  by (simp add: balanced_def)

lemma balanced_StartMonitoring:
  assumes "length (active_enumeration_ref_count m) = 7"
  shows "balanced m (StartMonitoring E m)"
proof -
  let ?m0 = "emit [AddDevicesChangedObserver] (m\<lparr>monitoring_started := True\<rparr>)"
  let ?m1 = "emit [ProviderEnumerateDevices MEDIA_DEVICE_AUDIO_CAPTURE]
               (add_ref_count MEDIA_DEVICE_AUDIO_CAPTURE 1 ?m0)"
  let ?m2 = "emit [ProviderEnumerateDevices MEDIA_DEVICE_VIDEO_CAPTURE]
               (add_ref_count MEDIA_DEVICE_VIDEO_CAPTURE 1 ?m1)"
  have 0: "balanced m ?m0" by (simp add: balanced_def ref_count_def emit_def in_int32_def)
  have l0: "length (active_enumeration_ref_count ?m0) = 7" using assms by simp
  from balanced_dispatch [OF l0, of MEDIA_DEVICE_AUDIO_CAPTURE] have 1: "balanced ?m0 ?m1"
    by simp
  have l1: "length (active_enumeration_ref_count ?m1) = 7"
    using balanced_length [OF 1] l0 by simp
  from balanced_dispatch [OF l1, of MEDIA_DEVICE_VIDEO_CAPTURE] have 2: "balanced ?m1 ?m2"
    by simp
  from 0 1 2 have "balanced m ?m2" by (blast intro: balanced_trans)
  then show ?thesis by (simp add: StartMonitoring_def)
qed

lemma balanced_StartEnumeration_loop:
  "length (active_enumeration_ref_count m) = 7 \<Longrightarrow> NUM_MEDIA_TYPES \<notin> set ts \<Longrightarrow>
   balanced m (StartEnumeration_loop E m l req ts)"
proof (induction ts arbitrary: m)
  case Nil
  then show ?case by simp
next
  case (Cons t ts)
  let ?m1 = "request_SetState E m l t MEDIA_REQUEST_STATE_REQUESTED"
  let ?m2 = "if ref_count ?m1 t = 0
             then emit [ProviderEnumerateDevices t] (add_ref_count t 1 ?m1) else ?m1"
  have l1: "length (active_enumeration_ref_count ?m1) = 7" using Cons.prems by simp
  have 1: "balanced m ?m1" by simp
  have "t \<noteq> NUM_MEDIA_TYPES" using Cons.prems by auto
  from balanced_dispatch [OF l1 this] have 2: "balanced ?m1 ?m2" by simp
  have l2: "length (active_enumeration_ref_count ?m2) = 7"
    using balanced_length [OF 2] l1 by simp
  show ?case
  proof (cases "Requested req t")
    case True
    from Cons.IH [OF l2] Cons.prems
    have "balanced ?m2 (StartEnumeration_loop E ?m2 l req ts)" by simp
    with 1 2 have "balanced m (StartEnumeration_loop E ?m2 l req ts)"
      by (blast intro: balanced_trans)
    with True show ?thesis by (simp add: Let_def)
  next
    case False
    with Cons show ?thesis by simp
  qed
qed

lemma balanced_StartEnumeration:
  assumes "length (active_enumeration_ref_count m) = 7"
  shows "balanced m (StartEnumeration E m l r)"
proof -
  let ?m0 = "if \<not> monitoring_started m \<and> system_monitor E then StartMonitoring E m else m"
  have 0: "balanced m ?m0" using balanced_StartMonitoring [OF assms] by simp
  have "length (active_enumeration_ref_count ?m0) = 7"
    using balanced_length [OF 0] assms by simp
  from balanced_StartEnumeration_loop [OF this, of media_types E l "request r"]
  have "balanced ?m0 (StartEnumeration E m l r)"
    by (simp add: StartEnumeration_def media_types_def)
  with 0 show ?thesis by (rule balanced_trans)
qed

lemma balanced_SetupRequest:
  assumes "length (active_enumeration_ref_count m) = 7" and "SetupRequest E m l = Some m'"
  shows "balanced m m'"
proof (cases "FindRequest m l")
  case None
  with assms show ?thesis by (simp add: SetupRequest_def)
next
  case (Some r)
  from assms(2) Some consider
      (failed) m0 r0 where "quiet m m0" "FinalizeRequestFailed m0 l r0 = Some m'"
    | (enum) m0 r0 where "quiet m m0" "m' = StartEnumeration E m0 l r0"
    | (post) m0 r0 where "quiet m m0" "PostRequestToUI E m0 l r0 = Some m'"
    unfolding SetupRequest_def Let_def
    by (simp split: option.splits if_splits) (metis quiet_refl quiet_store_request)+
  then show ?thesis
  proof cases
    case failed
    from failed(1) quiet_FinalizeRequestFailed [OF failed(2)] show ?thesis
      by (blast intro: quiet_trans quiet_balanced)
  next
    case enum
    have "length (active_enumeration_ref_count m0) = 7"
      using enum(1) assms(1) by (simp add: quiet_def)
    from balanced_StartEnumeration [OF this, of E l r0] enum show ?thesis
      by (blast intro: balanced_trans quiet_balanced)
  next
    case post
    from post(1) quiet_PostRequestToUI [OF post(2)] show ?thesis
      by (blast intro: quiet_trans quiet_balanced)
  qed
qed

lemma balanced_DoEnumerateDevices:
  assumes "length (active_enumeration_ref_count m) = 7" and "DoEnumerateDevices E m l = Some m'"
  shows "balanced m m'"
proof (cases "FindRequest m l")
  case None
  with assms show ?thesis by (simp add: DoEnumerateDevices_def)
next
  case (Some r)
  from assms(2) Some consider
      (cached) "quiet m m'"
    | (enum) "m' = StartEnumeration E m l r"
    unfolding DoEnumerateDevices_def Let_def
    by (auto simp: quiet_def dest: enums_FinalizeEnumerateDevices
        split: option.splits if_splits)
  then show ?thesis
  proof cases
    case cached
    then show ?thesis by (rule quiet_balanced)
  next
    case enum
    with balanced_StartEnumeration [OF assms(1)] show ?thesis by simp
  qed
qed

lemma balanced_OnDevicesChanged:
  "length (active_enumeration_ref_count m) = 7 \<Longrightarrow> balanced m (OnDevicesChanged m dt)"
  by (cases dt) (simp_all add: OnDevicesChanged_def balanced_dispatch)

lemma step_balanced:
  assumes len: "length (active_enumeration_ref_count m) = 7"
    and run: "step E m ev = Some m'"
  shows "case ev of
           EvDevicesEnumerated k devs \<Rightarrow> \<exists>m4. quiet m m4 \<and> m' = add_ref_count k (- 1) m4
         | _ \<Rightarrow> balanced m m'"
proof (cases ev)
  case (EvDevicesEnumerated k devs)
  with run DevicesEnumerated_quiet_then_release [of E m k devs m'] show ?thesis by simp
next
  case (EvSetupRequest l)
  with run balanced_SetupRequest [OF len, of E l m'] show ?thesis by simp
next
  case (EvDoEnumerateDevices l)
  with run balanced_DoEnumerateDevices [OF len, of E l m'] show ?thesis by simp
next
  case (EvOnDevicesChanged dt)
  with run balanced_OnDevicesChanged [OF len, of dt] show ?thesis by auto
next
  case EvEnsureDeviceMonitorStarted
  with run balanced_StartMonitoring [OF len, of E] show ?thesis
    by (auto simp: EnsureDeviceMonitorStarted_def)
next
  case EvStopMonitoring
  with run show ?thesis by (auto intro: quiet_balanced)
next
  case (EvMakeMediaAccessRequest pid vid page options origin cb labels)
  with run show ?thesis by (auto dest: quiet_entry_points intro: quiet_balanced)
next
  case (EvGenerateStream rq pid vid rc page options origin labels)
  with run show ?thesis by (auto dest: quiet_entry_points intro: quiet_balanced)
next
  case (EvEnumerateDevices rq pid vid rc page t origin labels)
  with run show ?thesis by (auto dest: quiet_entry_points intro: quiet_balanced)
next
  case (EvOpenDevice rq pid vid rc page dev_id t origin labels)
  with run show ?thesis by (auto dest: quiet_entry_points intro: quiet_balanced)
next
  case (EvCancelRequest l)
  with run show ?thesis by (auto dest: quiet_CancelRequest intro: quiet_balanced)
next
  case (EvCancelAllRequests pid)
  with run show ?thesis
    by (auto simp: CancelAllRequests_def dest: quiet_CancelAllRequests_loop
        intro: quiet_balanced)
next
  case (EvStopStreamDevice pid vid dev_id)
  with run show ?thesis
    by (auto simp: StopStreamDevice_def dest: quiet_StopStreamDevice_loop
        intro: quiet_balanced)
next
  case (EvHandleAccessRequestResponse l devs)
  with run show ?thesis
    by (auto dest: quiet_HandleAccessRequestResponse intro: quiet_balanced)
next
  case (EvOpened t sid)
  with run show ?thesis by (auto dest: quiet_Opened intro: quiet_balanced)
next
  case (EvStopMediaStreamFromBrowser l)
  with run show ?thesis
    by (auto dest: quiet_StopMediaStreamFromBrowser intro: quiet_balanced)
qed

lemma ref_counts_ok_new: "ref_counts_ok (MediaStreamManager_new, [])"
proof -
  have "t \<noteq> NUM_MEDIA_TYPES \<Longrightarrow> replicate 7 (0::int) ! type_index t = 0" for t
    using type_index_less [of t] by simp
  then show ?thesis
    by (simp add: ref_counts_ok_def MediaStreamManager_new_def ref_count_def in_flight_def
        in_int32_def list_all_iff int32_def)
qed

lemma ref_counts_ok_balanced:
  assumes "ref_counts_ok (m, cbs)" and "balanced m m'"
  shows "ref_counts_ok (m', cbs)"
proof -
  have "(2::int) ^ 32 dvd ref_count m' k - in_flight m' cbs k \<and> 0 \<le> in_flight m' cbs k"
    if k: "k \<noteq> NUM_MEDIA_TYPES" for k
  proof -
    from assms(1) k have a: "(2::int) ^ 32 dvd ref_count m k - in_flight m cbs k"
      "0 \<le> in_flight m cbs k"
      by (simp_all add: ref_counts_ok_def)
    from assms(2) k
    have b: "(2::int) ^ 32 dvd
          (ref_count m' k - int (count_list (enums (effects m')) k)) -
          (ref_count m k - int (count_list (enums (effects m)) k))"
      "count_list (enums (effects m)) k \<le> count_list (enums (effects m')) k"
      by (simp_all add: balanced_def)
    from a(1) b(1) have "(2::int) ^ 32 dvd
          ((ref_count m' k - int (count_list (enums (effects m')) k)) -
           (ref_count m k - int (count_list (enums (effects m)) k))) +
          (ref_count m k - in_flight m cbs k)"
      by (rule dvd_add [rotated])
    then have "(2::int) ^ 32 dvd ref_count m' k - in_flight m' cbs k"
      by (simp add: in_flight_def algebra_simps)
    with a(2) b(2) show ?thesis by (simp add: in_flight_def)
  qed
  with assms show ?thesis by (simp add: ref_counts_ok_def balanced_def)
qed

lemma ref_counts_ok_callback:
  assumes ok: "ref_counts_ok (m, cbs)" and enabled: "0 < in_flight m cbs k"
    and q: "quiet m m4"
  shows "ref_counts_ok (add_ref_count k (- 1) m4, k # cbs)"
proof -
  from ok have len: "length (active_enumeration_ref_count m) = 7"
    and no: "count_list (enums (effects m)) NUM_MEDIA_TYPES = 0"
    and rng: "in_int32 m"
    by (simp_all add: ref_counts_ok_def)
  from enabled no have k: "k \<noteq> NUM_MEDIA_TYPES"
    by (auto simp: in_flight_def)
  from q have m4: "active_enumeration_ref_count m4 = active_enumeration_ref_count m"
    "enums (effects m4) = enums (effects m)"
    by (simp_all add: quiet_def)
  from rng m4(1) have "in_int32 m4" by (simp add: in_int32_def)
  then have rng': "in_int32 (add_ref_count k (- 1) m4)" by (rule in_int32_add_ref_count)
  have "(2::int) ^ 32 dvd ref_count (add_ref_count k (- 1) m4) k' -
          in_flight (add_ref_count k (- 1) m4) (k # cbs) k' \<and>
        0 \<le> in_flight (add_ref_count k (- 1) m4) (k # cbs) k'"
    if k': "k' \<noteq> NUM_MEDIA_TYPES" for k'
  proof -
    from ok k' have a: "(2::int) ^ 32 dvd ref_count m k' - in_flight m cbs k'"
      "0 \<le> in_flight m cbs k'"
      by (simp_all add: ref_counts_ok_def)
    have r: "ref_count (add_ref_count k (- 1) m4) k' =
          (if k' = k then int32 (ref_count m k - 1) else ref_count m k')"
      using len k k' type_index_less [of k] type_index_less [of k'] m4(1)
      by (auto simp: ref_count_def add_ref_count_def nth_list_update)
    have f: "in_flight (add_ref_count k (- 1) m4) (k # cbs) k' =
          in_flight m cbs k' - (if k' = k then 1 else 0)"
      using m4(2) by (simp add: in_flight_def)
    show ?thesis
    proof (cases "k' = k")
      case True
      from a(1) int32_dvd [of "ref_count m k - 1"] True
      have "(2::int) ^ 32 dvd
              (int32 (ref_count m k - 1) - (ref_count m k - 1)) +
              (ref_count m k - in_flight m cbs k)"
        by (intro dvd_add) simp_all
      then have "(2::int) ^ 32 dvd int32 (ref_count m k - 1) - (in_flight m cbs k - 1)"
        by (simp add: algebra_simps)
      with True r f enabled show ?thesis by simp
    next
      case False
      with r f a show ?thesis by simp
    qed
  qed
  with len no m4 rng' show ?thesis
    by (simp add: ref_counts_ok_def add_ref_count_def)
qed

lemma run_ref_counts_ok:
  "ref_counts_ok w \<Longrightarrow> solicited E w evs \<Longrightarrow> run E w evs = Some w' \<Longrightarrow> ref_counts_ok w'"
proof (induction evs arbitrary: w)
  case Nil
  then show ?case by simp
next
  case (Cons ev evs)
  obtain m cbs where w: "w = (m, cbs)" by (cases w)
  from Cons.prems(1) w have len: "length (active_enumeration_ref_count m) = 7"
    by (simp add: ref_counts_ok_def)
  from Cons.prems(3) w obtain m' where
    st: "step E m ev = Some m'"
    and rest: "run E (m', processed ev cbs) evs = Some w'"
    by (auto split: option.splits)
  from Cons.prems(2) w st have sol: "solicited E (m', processed ev cbs) evs"
    by simp
  show ?case
  proof (cases "\<exists>k devs. ev = EvDevicesEnumerated k devs")
    case True
    then obtain k devs where ev: "ev = EvDevicesEnumerated k devs" by blast
    from Cons.prems(2) w ev have enabled: "0 < in_flight m cbs k" by simp
    from step_balanced [OF len st] ev obtain m4 where
      "quiet m m4" "m' = add_ref_count k (- 1) m4" by auto
    with ref_counts_ok_callback [OF _ enabled, of m4] Cons.prems(1) w ev
    have "ref_counts_ok (m', processed ev cbs)" by (simp add: processed_def)
    from Cons.IH [OF this sol rest] show ?thesis .
  next
    case False
    then have p: "processed ev cbs = cbs" by (cases ev) (simp_all add: processed_def)
    from step_balanced [OF len st] False have "balanced m m'"
      by (cases ev) auto
    with ref_counts_ok_balanced Cons.prems(1) w p
    have "ref_counts_ok (m', processed ev cbs)" by auto
    from Cons.IH [OF this sol rest] show ?thesis .
  qed
qed




subsection \<open>The state vector follows the descriptor\<close>

lemma request_kinds_ok_SetState:
  "request_kinds_ok r \<Longrightarrow> t \<noteq> NUM_MEDIA_TYPES \<Longrightarrow> Requested (request r) t \<Longrightarrow>
   request_kinds_ok (fst (SetState E r t s))"
  by (auto simp: request_kinds_ok_def state_SetState)

lemma request_kinds_ok_devices:
  "request_kinds_ok r \<Longrightarrow>
   \<forall>d \<in> set ds. device_type (device d) \<noteq> NUM_MEDIA_TYPES \<and>
      Requested (request r) (device_type (device d)) \<Longrightarrow>
   request_kinds_ok (r\<lparr>devices := ds\<rparr>)"
  by (simp add: request_kinds_ok_def state_def)

lemma request_kinds_ok_sublist:
  "request_kinds_ok r \<Longrightarrow> set ds \<subseteq> set (devices r) \<Longrightarrow> request_kinds_ok (r\<lparr>devices := ds\<rparr>)"
  by (rule request_kinds_ok_devices) (auto simp: request_kinds_ok_def)

lemma request_kinds_ok_request:
  "request_kinds_ok r \<Longrightarrow> audio_type req = audio_type (request r) \<Longrightarrow>
   video_type req = video_type (request r) \<Longrightarrow> request_kinds_ok (r\<lparr>request := req\<rparr>)"
  by (simp add: request_kinds_ok_def state_def Requested_def)

lemma request_kinds_ok_other_fields [simp]:
  "request_kinds_ok (r\<lparr>ui_proxy := u\<rparr>) = request_kinds_ok r"
  "request_kinds_ok (r\<lparr>callback := c\<rparr>) = request_kinds_ok r"
  by (simp_all add: request_kinds_ok_def state_def)

lemma request_kinds_ok_new: "request_kinds_ok (DeviceRequest_new rq req pid vid rc)"
proof -
  have "k \<noteq> NUM_MEDIA_TYPES \<Longrightarrow>
        replicate 7 MEDIA_REQUEST_STATE_NOT_REQUESTED ! type_index k =
        MEDIA_REQUEST_STATE_NOT_REQUESTED" for k
    using type_index_less [of k] by simp
  then show ?thesis by (simp add: request_kinds_ok_def DeviceRequest_new_def state_def)
qed

lemma manager_kinds_ok_find:
  "manager_kinds_ok m \<Longrightarrow> FindRequest m l = Some r \<Longrightarrow> request_kinds_ok r"
  by (auto simp: manager_kinds_ok_def)

lemma manager_kinds_ok_emit [simp]: "manager_kinds_ok (emit es m) = manager_kinds_ok m"
  by (simp add: manager_kinds_ok_def emit_def FindRequest_def)

lemma manager_kinds_ok_add_ref_count [simp]:
  "manager_kinds_ok (add_ref_count t k m) = manager_kinds_ok m"
  by (simp add: manager_kinds_ok_def add_ref_count_def FindRequest_def)

lemma manager_kinds_ok_flags [simp]:
  "manager_kinds_ok (m\<lparr>fake_ui := b\<rparr>) = manager_kinds_ok m"
  "manager_kinds_ok (m\<lparr>use_fake_ui := b\<rparr>) = manager_kinds_ok m"
  "manager_kinds_ok (m\<lparr>monitoring_started := b\<rparr>) = manager_kinds_ok m"
  by (simp_all add: manager_kinds_ok_def FindRequest_def)

lemma caches_store_request [simp]:
  "audio_enumeration_cache (store_request l r m) = audio_enumeration_cache m"
  "video_enumeration_cache (store_request l r m) = video_enumeration_cache m"
  "use_fake_ui (store_request l r m) = use_fake_ui m"
  by (simp_all add: store_request_def)

lemma manager_kinds_ok_store_request:
  "manager_kinds_ok m \<Longrightarrow> request_kinds_ok r \<Longrightarrow> manager_kinds_ok (store_request l r m)"
  by (auto simp: manager_kinds_ok_def FindRequest_store_request split: if_splits option.splits)

lemma manager_kinds_ok_request_SetState:
  assumes "manager_kinds_ok m" and "t \<noteq> NUM_MEDIA_TYPES"
    and "\<And>r. FindRequest m l = Some r \<Longrightarrow> Requested (request r) t"
  shows "manager_kinds_ok (request_SetState E m l t s)"
proof (cases "FindRequest m l")
  case None
  with assms(1) show ?thesis by (simp add: request_SetState_def)
next
  case (Some r)
  with assms have "request_kinds_ok (fst (SetState E r t s))"
    by (auto intro: request_kinds_ok_SetState manager_kinds_ok_find)
  with assms(1) Some show ?thesis
    by (simp add: request_SetState_def manager_kinds_ok_store_request)
qed

lemma manager_kinds_ok_DeleteRequest:
  assumes "DeleteRequest m l = Some m'"
    and "\<And>l' r. l' \<noteq> l \<Longrightarrow> FindRequest m l' = Some r \<Longrightarrow> request_kinds_ok r"
    and "manager_kinds_ok m0"
    and "audio_enumeration_cache m = audio_enumeration_cache m0"
    and "video_enumeration_cache m = video_enumeration_cache m0"
  shows "manager_kinds_ok m'"
proof -
  from assms(1) have f: "FindRequest m l \<noteq> None"
    by (auto simp: DeleteRequest_def split: if_splits)
  from DeleteRequest_Some [OF f] assms(1)
  have find: "FindRequest m' l' = (if l' = l then None else FindRequest m l')" for l'
    by auto
  from assms(1) have "audio_enumeration_cache m' = audio_enumeration_cache m"
    "video_enumeration_cache m' = video_enumeration_cache m"
    by (auto simp: DeleteRequest_def split: if_splits)
  with assms(2-) find show ?thesis
    by (auto simp: manager_kinds_ok_def split: if_splits)
qed

lemma manager_kinds_ok_delete:
  "manager_kinds_ok m \<Longrightarrow> DeleteRequest m l = Some m' \<Longrightarrow> manager_kinds_ok m'"
  by (rule manager_kinds_ok_DeleteRequest [where m = m and l = l and ?m0.0 = m])
    (auto dest: manager_kinds_ok_find)

lemma request_kinds_ok_CloseDevice_devices:
  "request_kinds_ok r \<Longrightarrow> set ds \<subseteq> set (devices r) \<Longrightarrow>
   request_kinds_ok (fst (CloseDevice_devices E r t sid ds))"
proof (induction ds arbitrary: r)
  case Nil
  then show ?case by simp
next
  case (Cons d ds)
  show ?case
  proof (cases "session_id d = sid \<and> device_type (device d) = t")
    case True
    with Cons.prems have "t \<noteq> NUM_MEDIA_TYPES" "Requested (request r) t"
      by (auto simp: request_kinds_ok_def)
    with Cons.prems have "request_kinds_ok (fst (SetState E r t MEDIA_REQUEST_STATE_CLOSING))"
      by (simp add: request_kinds_ok_SetState)
    with Cons.IH [of "fst (SetState E r t MEDIA_REQUEST_STATE_CLOSING)"] Cons.prems(2) True
    show ?thesis by (simp add: Let_def)
  next
    case False
    with Cons show ?thesis by auto
  qed
qed

lemma manager_kinds_ok_CloseDevice:
  assumes "manager_kinds_ok m" and "CloseDevice E m t sid = Some m'"
  shows "manager_kinds_ok m'"
proof -
  from assms(2) have mgr: "GetDeviceManager t"
    by (auto simp: CloseDevice_def split: if_splits)
  from CloseDevice_Some [OF mgr, of E m sid] assms(2)
  have find: "FindRequest m' l =
      map_option (\<lambda>r. fst (CloseDevice_devices E r t sid (devices r))) (FindRequest m l)" for l
    by auto
  from assms(2) have "audio_enumeration_cache m' = audio_enumeration_cache m"
    "video_enumeration_cache m' = video_enumeration_cache m"
    by (auto simp: CloseDevice_def split: if_splits)
  with assms(1) find show ?thesis
    by (auto simp: manager_kinds_ok_def intro!: request_kinds_ok_CloseDevice_devices)
qed

lemma devices_CloseDevice:
  "CloseDevice E m t sid = Some m' \<Longrightarrow> FindRequest m l = Some r \<Longrightarrow>
   \<exists>r'. FindRequest m' l = Some r' \<and> devices r' = devices r \<and> request r' = request r"
proof -
  assume a: "CloseDevice E m t sid = Some m'" and f: "FindRequest m l = Some r"
  from a have mgr: "GetDeviceManager t"
    by (auto simp: CloseDevice_def split: if_splits)
  have "request (fst (CloseDevice_devices E r0 t sid ds)) = request r0" for r0 ds
    by (induction ds arbitrary: r0) (simp_all add: Let_def)
  with CloseDevice_Some [OF mgr, of E m sid] a f show ?thesis by auto
qed

lemma manager_kinds_ok_set_devices:
  assumes "manager_kinds_ok m" and "FindRequest m l = Some r" and "set ds \<subseteq> set (devices r)"
  shows "manager_kinds_ok (set_devices l ds m)"
proof -
  have "audio_enumeration_cache (set_devices l ds m) = audio_enumeration_cache m"
    "video_enumeration_cache (set_devices l ds m) = video_enumeration_cache m"
    by (simp_all add: set_devices_def)
  with assms show ?thesis
    by (auto simp: manager_kinds_ok_def FindRequest_set_devices
        intro: request_kinds_ok_sublist split: if_splits)
qed

lemma manager_kinds_ok_StopDevice_devices:
  "manager_kinds_ok m \<Longrightarrow>
   (\<And>r. FindRequest m l = Some r \<Longrightarrow> set kept \<union> set ds \<subseteq> set (devices r)) \<Longrightarrow>
   StopDevice_devices E m l t sid kept ds = Some m' \<Longrightarrow> manager_kinds_ok m'"
proof (induction ds arbitrary: m kept)
  case Nil
  then show ?case by simp
next
  case (Cons d ds)
  show ?case
  proof (cases "device_type (device d) \<noteq> t \<or> session_id d \<noteq> sid")
    case True
    with Cons.prems(3)
    have run: "StopDevice_devices E m l t sid (kept @ [d]) ds = Some m'" by simp
    show ?thesis
      by (rule Cons.IH [OF Cons.prems(1) _ run]) (use Cons.prems(2) in auto)
  next
    case False
    with Cons.prems(3) obtain r m1 where
      r: "FindRequest m l = Some r"
      and m1: "(CloseDevice E m t sid = Some m1 \<or> m1 = m)"
      and run: "StopDevice_devices E (set_devices l (kept @ ds) m1) l t sid kept ds = Some m'"
      by (auto split: option.splits if_splits)
    from m1 Cons.prems(1) have ok1: "manager_kinds_ok m1"
      by (auto intro: manager_kinds_ok_CloseDevice)
    from m1 r obtain r1 where r1: "FindRequest m1 l = Some r1" "devices r1 = devices r"
      by (auto dest: devices_CloseDevice)
    from Cons.prems(2) [OF r] r1 have sub: "set (kept @ ds) \<subseteq> set (devices r1)" by auto
    have ok2: "manager_kinds_ok (set_devices l (kept @ ds) m1)"
      by (rule manager_kinds_ok_set_devices [OF ok1 r1(1) sub])
    show ?thesis
      by (rule Cons.IH [OF ok2 _ run]) (use r1 in \<open>auto simp: FindRequest_set_devices\<close>)
  qed
qed

lemma manager_kinds_ok_StopDevice_requests:
  "manager_kinds_ok m \<Longrightarrow> StopDevice_requests E m t sid ls = Some m' \<Longrightarrow> manager_kinds_ok m'"
proof (induction ls arbitrary: m)
  case Nil
  then show ?case by simp
next
  case (Cons l ls)
  from Cons.prems(2) obtain r m1 r1 m2 where
    r: "FindRequest m l = Some r"
    and m1: "StopDevice_devices E m l t sid [] (devices r) = Some m1"
    and m2: "DeleteRequest m1 l = Some m2 \<or> m2 = m1"
    and run: "StopDevice_requests E m2 t sid ls = Some m'"
    by (auto split: option.splits if_splits)
  have "manager_kinds_ok m1"
    by (rule manager_kinds_ok_StopDevice_devices [OF Cons.prems(1) _ m1]) (use r in auto)
  with m2 have "manager_kinds_ok m2" by (auto intro: manager_kinds_ok_delete)
  from Cons.IH [OF this run] show ?case .
qed

lemma manager_kinds_ok_StopDevice:
  "manager_kinds_ok m \<Longrightarrow> StopDevice E m t sid = Some m' \<Longrightarrow> manager_kinds_ok m'"
  unfolding StopDevice_def by (rule manager_kinds_ok_StopDevice_requests)

lemma manager_kinds_ok_StopDevice_sessions:
  "manager_kinds_ok m \<Longrightarrow> StopDevice_sessions E m t sids = Some m' \<Longrightarrow> manager_kinds_ok m'"
  by (induction sids arbitrary: m)
    (auto split: option.splits dest: manager_kinds_ok_StopDevice)

lemma manager_kinds_ok_CancelRequest_devices:
  "manager_kinds_ok m \<Longrightarrow> CancelRequest_devices E m l ds = Some m' \<Longrightarrow> manager_kinds_ok m'"
  by (induction ds arbitrary: m)
    (auto split: option.splits if_splits dest: manager_kinds_ok_CloseDevice)

lemma caches_request_SetState [simp]:
  "audio_enumeration_cache (request_SetState E m l t s) = audio_enumeration_cache m"
  "video_enumeration_cache (request_SetState E m l t s) = video_enumeration_cache m"
  by (simp_all add: request_SetState_def emit_def split: option.splits)

lemma FindRequest_request_SetState_other:
  "l' \<noteq> l \<Longrightarrow> FindRequest (request_SetState E m l t s) l' = FindRequest m l'"
  by (simp add: request_SetState_def FindRequest_store_request split: option.splits)

lemma manager_kinds_ok_CancelRequest:
  assumes "manager_kinds_ok m" and "CancelRequest E m l = Some m'"
  shows "manager_kinds_ok m'"
proof (cases "FindRequest m l")
  case None
  with assms show ?thesis by (simp add: CancelRequest_def)
next
  case (Some r)
  show ?thesis
  proof (cases "request_type (request r) = MEDIA_ENUMERATE_DEVICES")
    case True
    with assms Some show ?thesis
      by (auto simp: CancelRequest_def intro: manager_kinds_ok_delete)
  next
    case False
    with assms(2) Some obtain m1 where
      m1: "CancelRequest_devices E m l (devices r) = Some m1"
      and del: "DeleteRequest (request_SetState E m1 l NUM_MEDIA_TYPES MEDIA_REQUEST_STATE_CLOSING) l =
                Some m'"
      by (auto simp: CancelRequest_def CancelRequest_closing_def split: option.splits)
    from manager_kinds_ok_CancelRequest_devices [OF assms(1) m1]
    have ok1: "manager_kinds_ok m1" .
    show ?thesis
      by (rule manager_kinds_ok_DeleteRequest [OF del _ ok1])
        (use ok1 in \<open>auto simp: FindRequest_request_SetState_other dest: manager_kinds_ok_find\<close>)
  qed
qed

lemma manager_kinds_ok_CancelAllRequests_loop:
  "manager_kinds_ok m \<Longrightarrow> CancelAllRequests_loop E m pid ls = Some m' \<Longrightarrow> manager_kinds_ok m'"
  by (induction ls arbitrary: m)
    (auto split: option.splits if_splits dest: manager_kinds_ok_CancelRequest)

lemma manager_kinds_ok_StopStreamDevice_loop:
  "manager_kinds_ok m \<Longrightarrow> StopStreamDevice_loop E m pid vid dev_id ps = Some m' \<Longrightarrow>
   manager_kinds_ok m'"
  by (induction ps)
    (auto split: option.splits if_splits dest: manager_kinds_ok_StopDevice)

lemma manager_kinds_ok_FinalizeRequestFailed:
  "manager_kinds_ok m \<Longrightarrow> FinalizeRequestFailed m l r = Some m' \<Longrightarrow> manager_kinds_ok m'"
  unfolding FinalizeRequestFailed_def
  using manager_kinds_ok_delete manager_kinds_ok_emit by blast

lemma manager_kinds_ok_FinalizeMediaAccessRequest:
  "manager_kinds_ok m \<Longrightarrow> FinalizeMediaAccessRequest m l r devs = Some m' \<Longrightarrow>
   manager_kinds_ok m'"
  unfolding FinalizeMediaAccessRequest_def
  using manager_kinds_ok_delete manager_kinds_ok_emit by blast

lemma TranslateRequestedSourceIdToDeviceId_kinds:
  "audio_type (request (snd (TranslateRequestedSourceIdToDeviceId E m r))) = audio_type (request r)"
  "video_type (request (snd (TranslateRequestedSourceIdToDeviceId E m r))) = video_type (request r)"
  "devices (snd (TranslateRequestedSourceIdToDeviceId E m r)) = devices r"
  "state_vector (snd (TranslateRequestedSourceIdToDeviceId E m r)) = state_vector r"
  by (simp_all add: TranslateRequestedSourceIdToDeviceId_def Let_def split: option.splits)

lemma request_kinds_ok_Translate:
  "request_kinds_ok r \<Longrightarrow> request_kinds_ok (snd (TranslateRequestedSourceIdToDeviceId E m r))"
  by (simp add: request_kinds_ok_def state_def Requested_def
      TranslateRequestedSourceIdToDeviceId_kinds)

lemma fields_emit [simp]:
  "use_fake_ui (emit es m) = use_fake_ui m"
  "audio_enumeration_cache (emit es m) = audio_enumeration_cache m"
  "video_enumeration_cache (emit es m) = video_enumeration_cache m"
  "monitoring_started (emit es m) = monitoring_started m"
  by (simp_all add: emit_def)

lemma FindRequest_fake_ui [simp]: "FindRequest (m\<lparr>fake_ui := b\<rparr>) l = FindRequest m l"
  by (simp add: FindRequest_def)

lemma store_request_fake_ui:
  "store_request l r (m\<lparr>fake_ui := b\<rparr>) = (store_request l r m)\<lparr>fake_ui := b\<rparr>"
  by (simp add: store_request_def)

lemma PostRequestToUI_result:
  assumes "PostRequestToUI E m l r = Some m'"
  shows "\<exists>r4. (request_kinds_ok r \<longrightarrow> request_kinds_ok r4) \<and>
     audio_type (request r4) = audio_type (request r) \<and>
     video_type (request r4) = video_type (request r) \<and>
     (\<forall>l'. FindRequest m' l' = FindRequest (store_request l r4 m) l') \<and>
     (manager_kinds_ok m' \<longleftrightarrow> manager_kinds_ok (store_request l r4 m))"
proof -
  let ?r1 = "snd (TranslateRequestedSourceIdToDeviceId E m r)"
  let ?a = "if IsAudioMediaType (audio_type (request ?r1))
            then SetState E ?r1 (audio_type (request ?r1)) MEDIA_REQUEST_STATE_PENDING_APPROVAL
            else (?r1, [])"
  let ?v = "if IsVideoMediaType (video_type (request ?r1))
            then SetState E (fst ?a) (video_type (request ?r1)) MEDIA_REQUEST_STATE_PENDING_APPROVAL
            else (fst ?a, [])"
  have kinds: "audio_type (request (fst ?v)) = audio_type (request r)"
    "video_type (request (fst ?v)) = video_type (request r)"
    by (simp_all add: TranslateRequestedSourceIdToDeviceId_kinds)
  have ok: "request_kinds_ok (fst ?v)" if r: "request_kinds_ok r"
  proof -
    from r have r1: "request_kinds_ok ?r1" by (rule request_kinds_ok_Translate)
    then have a: "request_kinds_ok (fst ?a)"
      by (simp add: request_kinds_ok_SetState audio_not_NUM Requested_def)
    then show ?thesis
      by (simp add: request_kinds_ok_SetState video_not_NUM Requested_def)
  qed
  from TranslateRequestedSourceIdToDeviceId_succeeds [of E m r]
  have tr: "fst (TranslateRequestedSourceIdToDeviceId E m r)" by simp
  define u where "u = (if use_fake_ui m then FakeUIProxy else RealUIProxy)"
  define r4 where "r4 = (fst ?v)\<lparr>ui_proxy := Some u\<rparr>"
  have r4: "request_kinds_ok r \<longrightarrow> request_kinds_ok r4"
    "audio_type (request r4) = audio_type (request r)"
    "video_type (request r4) = video_type (request r)"
    using ok kinds by (simp_all add: r4_def)
  from assms tr have m': "\<exists>es es1.
      m' = emit es (store_request l r4 (emit es1 m)) \<or>
      m' = emit es (store_request l r4 ((emit es1 m)\<lparr>fake_ui := False\<rparr>))"
    unfolding PostRequestToUI_def Let_def r4_def u_def
    by (auto split: if_splits)
  then obtain es es1 where
    "m' = emit es (store_request l r4 (emit es1 m)) \<or>
     m' = emit es (store_request l r4 ((emit es1 m)\<lparr>fake_ui := False\<rparr>))"
    by blast
  then have find: "FindRequest m' l' = FindRequest (store_request l r4 m) l'"
    and caches: "audio_enumeration_cache m' = audio_enumeration_cache m"
      "video_enumeration_cache m' = video_enumeration_cache m" for l'
    by (auto simp: FindRequest_store_request store_request_fake_ui)
  have "manager_kinds_ok m' \<longleftrightarrow> manager_kinds_ok (store_request l r4 m)"
    unfolding manager_kinds_ok_def by (simp only: find caches caches_store_request)
  with r4 find show ?thesis by blast
qed

lemma manager_kinds_ok_PostRequestToUI:
  assumes "manager_kinds_ok m" and "request_kinds_ok r" and "PostRequestToUI E m l r = Some m'"
  shows "manager_kinds_ok m'"
  using PostRequestToUI_result [OF assms(3)] assms(1,2)
  by (auto intro: manager_kinds_ok_store_request)

lemma PostRequestToUI_kinds:
  assumes "PostRequestToUI E m l r = Some m'" and "FindRequest m' l' = Some r'"
  shows "if l' = l then audio_type (request r') = audio_type (request r) \<and>
                        video_type (request r') = video_type (request r)
         else FindRequest m l' = Some r'"
  using PostRequestToUI_result [OF assms(1)] assms(2)
  by (auto simp: FindRequest_store_request split: if_splits option.splits)

lemma FindRequest_add_ref_count [simp]: "FindRequest (add_ref_count t k m) l = FindRequest m l"
  by (simp add: FindRequest_def)

lemma FindRequest_request_SetState:
  "FindRequest (request_SetState E m l t s) l' =
     (if l' = l then map_option (\<lambda>r. fst (SetState E r t s)) (FindRequest m l)
      else FindRequest m l')"
  by (simp add: request_SetState_def FindRequest_store_request split: option.splits)

lemma manager_kinds_ok_StartEnumeration_loop:
  "manager_kinds_ok m \<Longrightarrow>
   (\<And>r. FindRequest m l = Some r \<Longrightarrow>
      audio_type (request r) = audio_type req \<and> video_type (request r) = video_type req) \<Longrightarrow>
   NUM_MEDIA_TYPES \<notin> set ts \<Longrightarrow>
   manager_kinds_ok (StartEnumeration_loop E m l req ts)"
proof (induction ts arbitrary: m)
  case Nil
  then show ?case by simp
next
  case (Cons t ts)
  show ?case
  proof (cases "Requested req t")
    case False
    with Cons show ?thesis by simp
  next
    case True
    let ?m1 = "request_SetState E m l t MEDIA_REQUEST_STATE_REQUESTED"
    let ?m2 = "if ref_count ?m1 t = 0
               then emit [ProviderEnumerateDevices t] (add_ref_count t 1 ?m1) else ?m1"
    from Cons.prems True have ok1: "manager_kinds_ok ?m1"
      by (intro manager_kinds_ok_request_SetState) (auto simp: Requested_def)
    then have ok2: "manager_kinds_ok ?m2" by simp
    have "manager_kinds_ok (StartEnumeration_loop E ?m2 l req ts)"
    proof (rule Cons.IH [OF ok2])
      fix r assume "FindRequest ?m2 l = Some r"
      then show "audio_type (request r) = audio_type req \<and>
                 video_type (request r) = video_type req"
        using Cons.prems(2) by (auto simp: FindRequest_request_SetState split: if_splits)
    next
      from Cons.prems(3) show "NUM_MEDIA_TYPES \<notin> set ts" by simp
    qed
    with True show ?thesis by (simp add: Let_def)
  qed
qed

lemma manager_kinds_ok_StartMonitoring [simp]:
  "manager_kinds_ok (StartMonitoring E m) = manager_kinds_ok m"
  by (simp add: StartMonitoring_def)

lemma FindRequest_StartMonitoring [simp]:
  "FindRequest (StartMonitoring E m) l = FindRequest m l"
  by (simp add: FindRequest_def)

lemma manager_kinds_ok_StartEnumeration:
  assumes "manager_kinds_ok m"
    and "\<And>r0. FindRequest m l = Some r0 \<Longrightarrow>
           audio_type (request r0) = audio_type (request r) \<and>
           video_type (request r0) = video_type (request r)"
  shows "manager_kinds_ok (StartEnumeration E m l r)"
  unfolding StartEnumeration_def
  by (rule manager_kinds_ok_StartEnumeration_loop)
    (use assms in \<open>auto simp: media_types_def split: if_splits\<close>)

lemma SetupTabCaptureRequest_kinds:
  "SetupTabCaptureRequest E r = Some r1 \<Longrightarrow>
   audio_type (request r1) = audio_type (request r) \<and>
   video_type (request r1) = video_type (request r) \<and>
   (request_kinds_ok r \<longrightarrow> request_kinds_ok r1)"
  by (auto simp: SetupTabCaptureRequest_def Let_def request_kinds_ok_def state_def Requested_def
      split: option.splits if_splits)

lemma manager_kinds_ok_SetupRequest:
  assumes ok: "manager_kinds_ok m" and run: "SetupRequest E m l = Some m'"
  shows "manager_kinds_ok m'"
proof (cases "FindRequest m l")
  case None
  with assms show ?thesis by (simp add: SetupRequest_def)
next
  case (Some r)
  from ok Some have r: "request_kinds_ok r" by (rule manager_kinds_ok_find)
  let ?web = "audio_type (request r) = MEDIA_TAB_AUDIO_CAPTURE \<or>
              video_type (request r) = MEDIA_TAB_VIDEO_CAPTURE"
  from run Some consider
    (failed) r0 m0 where "FinalizeRequestFailed m0 l r0 = Some m'" "manager_kinds_ok m0"
    | (go) r1 where "(if ?web then SetupTabCaptureRequest E r else Some r) = Some r1"
      "Some (StartEnumeration E (if ?web then store_request l r1 m else m) l r1) = Some m' \<or>
       PostRequestToUI E (if ?web then store_request l r1 m else m) l r1 = Some m'"
  proof -
    assume f: "\<And>m0 r0. FinalizeRequestFailed m0 l r0 = Some m' \<Longrightarrow> manager_kinds_ok m0 \<Longrightarrow> thesis"
      and g: "\<And>r1. (if ?web then SetupTabCaptureRequest E r else Some r) = Some r1 \<Longrightarrow>
        Some (StartEnumeration E (if ?web then store_request l r1 m else m) l r1) = Some m' \<or>
        PostRequestToUI E (if ?web then store_request l r1 m else m) l r1 = Some m' \<Longrightarrow> thesis"
    show thesis
    proof (cases "is_valid E (security_origin (request r))")
      case False
      with run Some ok show thesis by (intro f [of m r]) (simp_all add: SetupRequest_def)
    next
      case valid: True
      show thesis
      proof (cases "if ?web then SetupTabCaptureRequest E r else Some r")
        case None
        with run Some ok valid show thesis
          by (intro f [of m r]) (simp_all add: SetupRequest_def Let_def)
      next
        case (Some r1)
        have r1: "request_kinds_ok r1"
          using Some r by (auto split: if_splits dest: SetupTabCaptureRequest_kinds)
        let ?m1 = "if ?web then store_request l r1 m else m"
        have ok1: "manager_kinds_ok ?m1"
          using ok r1 by (simp add: manager_kinds_ok_store_request)
        show thesis
        proof (cases "video_type (request r) = MEDIA_DESKTOP_VIDEO_CAPTURE \<and>
                      \<not> SetupScreenCaptureRequest r1")
          case True
          with run \<open>FindRequest m l = Some r\<close> valid Some
          have "FinalizeRequestFailed ?m1 l r1 = Some m'"
            by (simp add: SetupRequest_def Let_def)
          from this ok1 show thesis by (rule f)
        next
          case False
          with run \<open>FindRequest m l = Some r\<close> valid Some
          have "Some (StartEnumeration E ?m1 l r1) = Some m' \<or>
                PostRequestToUI E ?m1 l r1 = Some m'"
            by (auto simp: SetupRequest_def Let_def split: if_splits)
          with Some show thesis by (rule g)
        qed
      qed
    qed
  qed
  then show ?thesis
  proof cases
    case failed
    then show ?thesis by (auto intro: manager_kinds_ok_FinalizeRequestFailed)
  next
    case go
    have r1: "request_kinds_ok r1"
      and kinds: "audio_type (request r1) = audio_type (request r)"
        "video_type (request r1) = video_type (request r)"
      using go(1) r by (auto split: if_splits dest: SetupTabCaptureRequest_kinds)
    let ?m1 = "if ?web then store_request l r1 m else m"
    have ok1: "manager_kinds_ok ?m1"
      using ok r1 by (simp add: manager_kinds_ok_store_request)
    have find: "FindRequest ?m1 l = Some r0 \<Longrightarrow>
        audio_type (request r0) = audio_type (request r1) \<and>
        video_type (request r0) = video_type (request r1)" for r0
      using Some kinds by (auto simp: FindRequest_store_request split: if_splits)
    from go(2) show ?thesis
    proof
      assume "Some (StartEnumeration E ?m1 l r1) = Some m'"
      then have "m' = StartEnumeration E ?m1 l r1" by simp
      with manager_kinds_ok_StartEnumeration [OF ok1 find] show ?thesis by simp
    next
      assume "PostRequestToUI E ?m1 l r1 = Some m'"
      with ok1 r1 show ?thesis by (rule manager_kinds_ok_PostRequestToUI)
    qed
  qed
qed

subsection \<open>Operations that register no request\<close>

lemma no_new_labels_refl [simp]: "no_new_labels m m"
  by (simp add: no_new_labels_def)

lemma no_new_labels_trans: "no_new_labels m m1 \<Longrightarrow> no_new_labels m1 m2 \<Longrightarrow> no_new_labels m m2"
  by (auto simp: no_new_labels_def)

lemma no_new_labels_same:
  "map fst (requests m') = map fst (requests m) \<Longrightarrow> no_new_labels m m'"
  by (simp add: no_new_labels_def)

lemma requests_set_enumeration_cache [simp]:
  "requests (set_enumeration_cache t c m) = requests m"
  by (simp add: set_enumeration_cache_def)

lemma no_new_labels_right [simp]:
  "no_new_labels m (emit es m') \<longleftrightarrow> no_new_labels m m'"
  "no_new_labels m (store_request l r m') \<longleftrightarrow> no_new_labels m m'"
  "no_new_labels m (set_devices l ds m') \<longleftrightarrow> no_new_labels m m'"
  "no_new_labels m (request_SetState E m' l t s) \<longleftrightarrow> no_new_labels m m'"
  "no_new_labels m (add_ref_count t k m') \<longleftrightarrow> no_new_labels m m'"
  "no_new_labels m (set_enumeration_cache t c m') \<longleftrightarrow> no_new_labels m m'"
  "no_new_labels m (m'\<lparr>fake_ui := b\<rparr>) \<longleftrightarrow> no_new_labels m m'"
  by (simp_all add: no_new_labels_def)

lemma no_new_labels_left [simp]:
  "no_new_labels (emit es m) m' \<longleftrightarrow> no_new_labels m m'"
  "no_new_labels (store_request l r m) m' \<longleftrightarrow> no_new_labels m m'"
  "no_new_labels (set_devices l ds m) m' \<longleftrightarrow> no_new_labels m m'"
  "no_new_labels (request_SetState E m l t s) m' \<longleftrightarrow> no_new_labels m m'"
  by (simp_all add: no_new_labels_def)

lemma no_new_labels_absent:
  "no_new_labels m m' \<Longrightarrow> FindRequest m l = None \<Longrightarrow> FindRequest m' l = None"
  by (auto simp: no_new_labels_def FindRequest_None_iff)

lemma no_new_labels_DeleteRequest: "DeleteRequest m l = Some m' \<Longrightarrow> no_new_labels m m'"
  by (auto simp: DeleteRequest_def no_new_labels_def split: if_splits)

lemma no_new_labels_CloseDevice: "CloseDevice E m t sid = Some m' \<Longrightarrow> no_new_labels m m'"
  by (auto simp: CloseDevice_def intro!: no_new_labels_same split: if_splits)

lemma no_new_labels_StopDevice_devices:
  "StopDevice_devices E m l t sid kept ds = Some m' \<Longrightarrow> no_new_labels m m'"
proof (induction ds arbitrary: m kept)
  case Nil
  then show ?case by simp
next
  case (Cons d ds)
  show ?case
  proof (cases "device_type (device d) \<noteq> t \<or> session_id d \<noteq> sid")
    case True
    with Cons show ?thesis by simp
  next
    case False
    with Cons.prems obtain m1 where
      m1: "CloseDevice E m t sid = Some m1 \<or> m1 = m"
      and rest: "StopDevice_devices E (set_devices l (kept @ ds) m1) l t sid kept ds = Some m'"
      by (auto split: option.splits if_splits)
    from m1 have "no_new_labels m m1" by (auto dest: no_new_labels_CloseDevice)
    moreover from Cons.IH [OF rest] have "no_new_labels m1 m'" by simp
    ultimately show ?thesis by (rule no_new_labels_trans)
  qed
qed

lemma no_new_labels_StopDevice_requests:
  "StopDevice_requests E m t sid ls = Some m' \<Longrightarrow> no_new_labels m m'"
proof (induction ls arbitrary: m)
  case Nil
  then show ?case by simp
next
  case (Cons l ls)
  from Cons.prems obtain ds0 m1 m2 where
    1: "StopDevice_devices E m l t sid [] ds0 = Some m1"
    and 2: "DeleteRequest m1 l = Some m2 \<or> m2 = m1"
    and 3: "StopDevice_requests E m2 t sid ls = Some m'"
    by (auto split: option.splits if_splits; blast)
  from 1 have "no_new_labels m m1" by (rule no_new_labels_StopDevice_devices)
  moreover from 2 have "no_new_labels m1 m2" by (auto dest: no_new_labels_DeleteRequest)
  moreover from 3 have "no_new_labels m2 m'" by (rule Cons.IH)
  ultimately show ?case by (blast intro: no_new_labels_trans)
qed

lemma no_new_labels_StopDevice: "StopDevice E m t sid = Some m' \<Longrightarrow> no_new_labels m m'"
  unfolding StopDevice_def by (rule no_new_labels_StopDevice_requests)

lemma no_new_labels_StopDevice_sessions:
  "StopDevice_sessions E m t sids = Some m' \<Longrightarrow> no_new_labels m m'"
proof (induction sids arbitrary: m)
  case Nil
  then show ?case by simp
next
  case (Cons sid sids)
  then show ?case
    by (auto split: option.splits intro: no_new_labels_trans dest: no_new_labels_StopDevice)
qed

lemma no_new_labels_CancelRequest_devices:
  "CancelRequest_devices E m l ds = Some m' \<Longrightarrow> no_new_labels m m'"
proof (induction ds arbitrary: m)
  case Nil
  then show ?case by simp
next
  case (Cons d ds)
  then show ?case
    by (auto split: option.splits if_splits intro: no_new_labels_trans
        dest: no_new_labels_CloseDevice)
qed

lemma no_new_labels_CancelRequest: "CancelRequest E m l = Some m' \<Longrightarrow> no_new_labels m m'"
proof -
  assume run: "CancelRequest E m l = Some m'"
  show ?thesis
  proof (cases "FindRequest m l")
    case None
    with run show ?thesis by (simp add: CancelRequest_def)
  next
    case (Some r)
    show ?thesis
    proof (cases "request_type (request r) = MEDIA_ENUMERATE_DEVICES")
      case True
      with run Some show ?thesis
        by (auto simp: CancelRequest_def dest: no_new_labels_DeleteRequest)
    next
      case False
      with run Some obtain m1 m2 where
        1: "CancelRequest_devices E m l (devices r) = Some m1"
        and 2: "m2 = request_SetState E m1 l NUM_MEDIA_TYPES MEDIA_REQUEST_STATE_CLOSING"
        and 3: "DeleteRequest m2 l = Some m'"
        by (auto simp: CancelRequest_def CancelRequest_closing_def split: option.splits)
      from 1 have "no_new_labels m m1" by (rule no_new_labels_CancelRequest_devices)
      then have "no_new_labels m m2" by (simp add: 2)
      moreover from 3 have "no_new_labels m2 m'" by (rule no_new_labels_DeleteRequest)
      ultimately show ?thesis by (rule no_new_labels_trans)
    qed
  qed
qed

lemma no_new_labels_CancelAllRequests_loop:
  "CancelAllRequests_loop E m pid ls = Some m' \<Longrightarrow> no_new_labels m m'"
proof (induction ls arbitrary: m)
  case Nil
  then show ?case by simp
next
  case (Cons l ls)
  then show ?case
    by (auto split: option.splits if_splits intro: no_new_labels_trans
        dest: no_new_labels_CancelRequest)
qed

lemma no_new_labels_StopStreamDevice_loop:
  "StopStreamDevice_loop E m pid vid dev_id ps = Some m' \<Longrightarrow> no_new_labels m m'"
proof (induction ps)
  case Nil
  then show ?case by simp
next
  case (Cons p ps)
  then show ?case
    by (auto split: option.splits if_splits dest: no_new_labels_StopDevice)
qed

lemma no_new_labels_FinalizeRequestFailed:
  "FinalizeRequestFailed m l r = Some m' \<Longrightarrow> no_new_labels m m'"
  unfolding FinalizeRequestFailed_def
  by (drule no_new_labels_DeleteRequest) simp

lemma no_new_labels_FinalizeMediaAccessRequest:
  "FinalizeMediaAccessRequest m l r devs = Some m' \<Longrightarrow> no_new_labels m m'"
  unfolding FinalizeMediaAccessRequest_def
  by (drule no_new_labels_DeleteRequest) simp

lemma no_new_labels_PostRequestToUI:
  "PostRequestToUI E m l r = Some m' \<Longrightarrow> no_new_labels m m'"
  by (auto simp: PostRequestToUI_def Let_def TranslateRequestedSourceIdToDeviceId_succeeds
      split: if_splits)

lemma no_new_labels_HandleAccessRequestResponse_devices:
  "HandleAccessRequestResponse_devices E m l fa fv devs = Some res \<Longrightarrow>
   no_new_labels m (fst res)"
proof (induction devs arbitrary: m fa fv)
  case Nil
  then show ?case by auto
next
  case (Cons dev0 devs)
  from Cons.prems show ?case
    by (auto simp: Let_def dest!: Cons.IH split: option.splits if_splits)
qed

lemma no_new_labels_HandleAccessRequestResponse:
  "HandleAccessRequestResponse E m l devs = Some m' \<Longrightarrow> no_new_labels m m'"
proof -
  assume run: "HandleAccessRequestResponse E m l devs = Some m'"
  show ?thesis
  proof (cases "FindRequest m l")
    case None
    with run show ?thesis by (simp add: HandleAccessRequestResponse_def)
  next
    case (Some r)
    show ?thesis
    proof (cases "request_type (request r) = MEDIA_DEVICE_ACCESS \<or> devs = []")
      case True
      with run Some show ?thesis
        by (auto simp: HandleAccessRequestResponse_def
            dest: no_new_labels_FinalizeMediaAccessRequest no_new_labels_FinalizeRequestFailed
            split: if_splits)
    next
      case False
      with run Some obtain res where
        1: "HandleAccessRequestResponse_devices E m l False False devs = Some res"
        and 2: "no_new_labels (fst res) m'"
        by (auto simp: HandleAccessRequestResponse_def Let_def split: option.splits if_splits)
      from no_new_labels_HandleAccessRequestResponse_devices [OF 1] 2 show ?thesis
        by (rule no_new_labels_trans)
    qed
  qed
qed

lemma labels_Opened_requests:
  "Opened_requests E t sid ps = Some res \<Longrightarrow> map fst (fst res) = map fst ps"
  by (induction ps arbitrary: res) (auto split: option.splits)

lemma no_new_labels_Opened: "Opened E m t sid = Some m' \<Longrightarrow> no_new_labels m m'"
  by (rule no_new_labels_same)
    (auto simp: Opened_def dest: labels_Opened_requests split: option.splits)

lemma no_new_labels_StopRemovedDevice:
  "StopRemovedDevice E m dev = Some m' \<Longrightarrow> no_new_labels m m'"
  unfolding StopRemovedDevice_def
  by (drule no_new_labels_StopDevice_sessions) simp

lemma no_new_labels_StopRemovedDevices:
  "StopRemovedDevices E m old_devices new_devices = Some m' \<Longrightarrow> no_new_labels m m'"
proof (induction old_devices arbitrary: m)
  case Nil
  then show ?case by simp
next
  case (Cons d ds)
  then show ?case
    by (auto split: option.splits if_splits intro: no_new_labels_trans
        dest: no_new_labels_StopRemovedDevice)
qed

lemma requests_NotifyDevicesChanged [simp]:
  "requests (NotifyDevicesChanged E m t devs) = requests m"
  by (simp add: NotifyDevicesChanged_def)

lemma labels_DevicesEnumerated_mark [simp]:
  "map fst (fst (DevicesEnumerated_mark E t ps)) = map fst ps"
  by (induction ps) (simp_all add: Let_def)

lemma no_new_labels_DevicesEnumerated_publish:
  "DevicesEnumerated_publish E m need devs ls = Some m' \<Longrightarrow> no_new_labels m m'"
proof (induction ls arbitrary: m)
  case Nil
  then show ?case by simp
next
  case (Cons l ls)
  from Cons.prems obtain r where r: "FindRequest m l = Some r"
    by (auto split: option.splits)
  consider (deliver) res where
      "FinalizeEnumerateDevices E l (r\<lparr>devices := devs\<rparr>) = Some res"
      "DevicesEnumerated_publish E (emit (snd res) (store_request l (fst res) m)) need devs ls =
         Some m'"
    | (skip) "DevicesEnumerated_publish E m need devs ls = Some m'"
    | (post) m1 where "PostRequestToUI E m l r = Some m1"
      "DevicesEnumerated_publish E m1 need devs ls = Some m'"
    using Cons.prems r by (auto split: option.splits if_splits)
  then show ?case
  proof cases
    case deliver
    from Cons.IH [OF deliver(2)] show ?thesis by simp
  next
    case skip
    then show ?thesis by (rule Cons.IH)
  next
    case post
    from no_new_labels_PostRequestToUI [OF post(1)] Cons.IH [OF post(2)]
    show ?thesis by (rule no_new_labels_trans)
  qed
qed

lemma no_new_labels_DevicesEnumerated:
  assumes "DevicesEnumerated E m t devs = Some m'"
  shows "no_new_labels m m'"
proof -
  from assms obtain m1 m4 where
    1: "DevicesEnumerated_update_cache E m t devs = Some m1"
    and 2: "DevicesEnumerated_waiting E
              (if need_update_clients m t devs \<and> monitoring_started m1
               then NotifyDevicesChanged E m1 t devs else m1)
              (need_update_clients m t devs) t devs = Some m4"
    and 3: "m' = add_ref_count t (- 1) m4"
    by (auto simp: DevicesEnumerated_def split: option.splits)
  from 1 have a: "no_new_labels m m1"
    by (auto simp: DevicesEnumerated_update_cache_def
        dest!: no_new_labels_StopRemovedDevices split: if_splits option.splits)
  let ?m2 = "if need_update_clients m t devs \<and> monitoring_started m1
             then NotifyDevicesChanged E m1 t devs else m1"
  have b: "no_new_labels m1 ?m2" by (simp add: no_new_labels_def)
  let ?m3 = "emit (snd (DevicesEnumerated_mark E t (requests ?m2)))
               (?m2\<lparr>requests := fst (DevicesEnumerated_mark E t (requests ?m2))\<rparr>)"
  from 2 have "no_new_labels ?m3 m4"
    unfolding DevicesEnumerated_waiting_def by (rule no_new_labels_DevicesEnumerated_publish)
  moreover have "no_new_labels ?m2 ?m3" by (rule no_new_labels_same) simp
  ultimately have c: "no_new_labels ?m2 m4" by (rule no_new_labels_trans [rotated])
  from a b c 3 show ?thesis by (auto intro: no_new_labels_trans)
qed

lemma no_new_labels_SetupRequest: "SetupRequest E m l = Some m' \<Longrightarrow> no_new_labels m m'"
proof -
  assume run: "SetupRequest E m l = Some m'"
  show ?thesis
  proof (cases "FindRequest m l")
    case None
    with run show ?thesis by (simp add: SetupRequest_def)
  next
    case (Some r)
    from run Some consider
        (failed) m0 r0 where "no_new_labels m m0" "FinalizeRequestFailed m0 l r0 = Some m'"
      | (enum) m0 r0 where "no_new_labels m m0" "m' = StartEnumeration E m0 l r0"
      | (post) m0 r0 where "no_new_labels m m0" "PostRequestToUI E m0 l r0 = Some m'"
      unfolding SetupRequest_def Let_def
      by (simp split: option.splits if_splits)
        (metis no_new_labels_refl no_new_labels_right(2))+
    then show ?thesis
    proof cases
      case failed
      from failed(1) no_new_labels_FinalizeRequestFailed [OF failed(2)] show ?thesis
        by (rule no_new_labels_trans)
    next
      case enum
      then show ?thesis by (simp add: no_new_labels_def)
    next
      case post
      from post(1) no_new_labels_PostRequestToUI [OF post(2)] show ?thesis
        by (rule no_new_labels_trans)
    qed
  qed
qed

lemma no_new_labels_DoEnumerateDevices:
  "DoEnumerateDevices E m l = Some m' \<Longrightarrow> no_new_labels m m'"
  by (rule no_new_labels_same)
    (auto simp: DoEnumerateDevices_def Let_def split: option.splits if_splits)

lemma no_new_labels_StopMediaStreamFromBrowser:
  "StopMediaStreamFromBrowser E m l = Some m' \<Longrightarrow> no_new_labels m m'"
  by (auto simp: StopMediaStreamFromBrowser_def
      dest!: no_new_labels_CancelRequest split: option.splits)

lemma AddRequest_absent:
  "AddRequest m r labels = Some res \<Longrightarrow> l \<notin> set labels \<Longrightarrow> FindRequest m l = None \<Longrightarrow>
   FindRequest (snd res) l = None"
  by (induction labels) (auto simp: FindRequest_None_iff set_insort_key split: if_splits)

lemma FindRequest_UseFakeDevice [simp]: "FindRequest (UseFakeDevice m) l = FindRequest m l"
  by (simp add: UseFakeDevice_def)

lemma FindRequest_use_fake_ui [simp]:
  "FindRequest (m\<lparr>use_fake_ui := a\<rparr>) l = FindRequest m l"
  by (simp add: FindRequest_def)

lemma entry_points_absent:
  assumes "l \<notin> set labels" and "FindRequest m l = None"
  shows
  "MakeMediaAccessRequest m pid vid page options origin cb labels = Some (label, m') \<Longrightarrow>
   FindRequest m' l = None"
  "GenerateStream E m rq pid vid rc page options origin labels = Some (label, m') \<Longrightarrow>
   FindRequest m' l = None"
  "EnumerateDevices m rq pid vid rc page t origin labels = Some (label, m') \<Longrightarrow>
   FindRequest m' l = None"
  "OpenDevice m rq pid vid rc page dev_id t origin labels = Some (label, m') \<Longrightarrow>
   FindRequest m' l = None"
  using assms
  by (auto simp: MakeMediaAccessRequest_def GenerateStream_def EnumerateDevices_def
      OpenDevice_def Let_def FindRequest_store_request
      dest!: AddRequest_absent [where l = l] split: option.splits if_splits)

lemma step_keeps_absent:
  assumes "step E m ev = Some m'" and "\<not> issues ev l" and "FindRequest m l = None"
  shows "FindRequest m' l = None"
proof (cases ev)
  case (EvMakeMediaAccessRequest pid vid page options origin cb labels)
  with assms obtain label where
    "MakeMediaAccessRequest m pid vid page options origin cb labels = Some (label, m')"
    by auto
  from entry_points_absent(1) [OF _ assms(3) this] assms(2) EvMakeMediaAccessRequest show ?thesis
    by simp
next
  case (EvGenerateStream rq pid vid rc page options origin labels)
  with assms obtain label where
    "GenerateStream E m rq pid vid rc page options origin labels = Some (label, m')"
    by auto
  from entry_points_absent(2) [OF _ assms(3) this] assms(2) EvGenerateStream show ?thesis
    by simp
next
  case (EvEnumerateDevices rq pid vid rc page t origin labels)
  with assms obtain label where
    "EnumerateDevices m rq pid vid rc page t origin labels = Some (label, m')"
    by auto
  from entry_points_absent(3) [OF _ assms(3) this] assms(2) EvEnumerateDevices show ?thesis
    by simp
next
  case (EvOpenDevice rq pid vid rc page dev_id t origin labels)
  with assms obtain label where
    "OpenDevice m rq pid vid rc page dev_id t origin labels = Some (label, m')"
    by auto
  from entry_points_absent(4) [OF _ assms(3) this] assms(2) EvOpenDevice show ?thesis
    by simp
next
  case (EvCancelRequest x)
  with assms show ?thesis
    by (auto dest!: no_new_labels_CancelRequest intro: no_new_labels_absent)
next
  case (EvCancelAllRequests pid)
  with assms show ?thesis
    by (auto simp: CancelAllRequests_def dest!: no_new_labels_CancelAllRequests_loop
        intro: no_new_labels_absent)
next
  case (EvStopStreamDevice pid vid dev_id)
  with assms show ?thesis
    by (auto simp: StopStreamDevice_def dest!: no_new_labels_StopStreamDevice_loop
        intro: no_new_labels_absent)
next
  case EvEnsureDeviceMonitorStarted
  with assms show ?thesis
    by (auto simp: EnsureDeviceMonitorStarted_def FindRequest_def split: if_splits)
next
  case EvStopMonitoring
  with assms show ?thesis
    by (auto simp: StopMonitoring_def FindRequest_def emit_def split: if_splits)
next
  case (EvSetupRequest x)
  with assms show ?thesis
    by (auto dest!: no_new_labels_SetupRequest intro: no_new_labels_absent)
next
  case (EvDoEnumerateDevices x)
  with assms show ?thesis
    by (auto dest!: no_new_labels_DoEnumerateDevices intro: no_new_labels_absent)
next
  case (EvDevicesEnumerated t devs)
  with assms show ?thesis
    by (auto dest!: no_new_labels_DevicesEnumerated intro: no_new_labels_absent)
next
  case (EvHandleAccessRequestResponse x devs)
  with assms show ?thesis
    by (auto dest!: no_new_labels_HandleAccessRequestResponse intro: no_new_labels_absent)
next
  case (EvOpened t sid)
  with assms show ?thesis
    by (auto dest!: no_new_labels_Opened intro: no_new_labels_absent)
next
  case (EvStopMediaStreamFromBrowser x)
  with assms show ?thesis
    by (auto dest!: no_new_labels_StopMediaStreamFromBrowser intro: no_new_labels_absent)
next
  case (EvOnDevicesChanged dt)
  with assms show ?thesis
    by (auto simp: OnDevicesChanged_def FindRequest_def emit_def add_ref_count_def
        split: DeviceType.splits)
qed

lemma play_keeps_absent:
  "play E m evs = Some m' \<Longrightarrow> list_all (\<lambda>ev. \<not> issues ev l) evs \<Longrightarrow>
   FindRequest m l = None \<Longrightarrow> FindRequest m' l = None"
proof (induction evs arbitrary: m)
  case Nil
  then show ?case by simp
next
  case (Cons ev evs)
  from Cons.prems(1) obtain m1 where
    1: "step E m ev = Some m1" and 2: "play E m1 evs = Some m'"
    by (auto split: option.splits)
  from step_keeps_absent [OF 1] Cons.prems(2,3) have "FindRequest m1 l = None" by simp
  from Cons.IH [OF 2 _ this] Cons.prems(2) show ?case by simp
qed

subsection \<open>Callbacks that carry the label of a deleted request\<close>

text \<open>
  C3, as it is written, does not hold of every later callback: \<^verbatim>\<open>AddRequest\<close> takes
  any label that is not in the registry, so the label of a removed request can be given
  to a new request, and a callback for the old request then finds the new one. Here the
  late answer of the permission surface, with no device, fails and deletes the second
  request.
\<close>

theorem reissued_label_counterexample:
  "map_option requests (play test_env MediaStreamManager_new (take 2 reissue_events)) = Some [] \<and>
   map_option requests (play test_env MediaStreamManager_new (take 3 reissue_events)) =
     Some [(''L'', DeviceRequest_new (Some 8)
                    (MediaStreamRequest_new 1 2 4 ''o'' MEDIA_GENERATE_STREAM [] []
                       MEDIA_DEVICE_AUDIO_CAPTURE MEDIA_NO_SERVICE) 1 2 (Some 0))] \<and>
   map_option requests (play test_env MediaStreamManager_new reissue_events) = Some [] \<and>
   map_option effects (play test_env MediaStreamManager_new reissue_events) =
     Some [PostTaskSetupRequest ''L'',
           OnMediaRequestStateChanged 1 2 3 NUM_MEDIA_TYPES [] MEDIA_REQUEST_STATE_CLOSING,
           PostTaskSetupRequest ''L'',
           StreamGenerationFailed 8 ''L'']"
  by code_simp

text \<open>
  C3, amended. A label that \<^verbatim>\<open>DeleteRequest\<close> has removed is not found any more.
  From a state in which a label is not found, through every sequence of operations in
  which no entry point is given the label again, the label stays not found; and then
  each orchestration callback carrying it (the continuation \<^verbatim>\<open>SetupRequest\<close>, the
  continuation \<^verbatim>\<open>DoEnumerateDevices\<close>, the response
  \<^verbatim>\<open>HandleAccessRequestResponse\<close> of the permission surface and the stop from the
  browser) returns the manager as it was: registry, request states, caches, reference
  counts and the log of calls on the collaborators are all unchanged.
\<close>

theorem removed_label_callbacks_are_noops:
  "(DeleteRequest m0 label = Some m \<longrightarrow> FindRequest m label = None) \<and>
   (FindRequest m label = None \<and> play E m evs = Some m' \<and>
    list_all (\<lambda>ev. \<not> issues ev label) evs \<longrightarrow>
      FindRequest m' label = None \<and>
      SetupRequest E m' label = Some m' \<and>
      DoEnumerateDevices E m' label = Some m' \<and>
      HandleAccessRequestResponse E m' label devs = Some m' \<and>
      StopMediaStreamFromBrowser E m' label = Some m')"
proof (rule conjI; rule impI)
  assume "DeleteRequest m0 label = Some m"
  then show "FindRequest m label = None" by (rule FindRequest_DeleteRequest)
next
  assume a: "FindRequest m label = None \<and> play E m evs = Some m' \<and>
    list_all (\<lambda>ev. \<not> issues ev label) evs"
  then have absent: "FindRequest m' label = None"
    using play_keeps_absent [of E m evs m' label] by blast
  then show "FindRequest m' label = None \<and>
      SetupRequest E m' label = Some m' \<and>
      DoEnumerateDevices E m' label = Some m' \<and>
      HandleAccessRequestResponse E m' label devs = Some m' \<and>
      StopMediaStreamFromBrowser E m' label = Some m'"
    by (simp add: SetupRequest_def DoEnumerateDevices_def HandleAccessRequestResponse_def
        StopMediaStreamFromBrowser_def)
qed

theorem removed_label_callbacks_witness:
  "DeleteRequest
     (manager_with
        [(''K'', test_request MEDIA_OPEN_DEVICE MEDIA_NO_SERVICE MEDIA_DEVICE_VIDEO_CAPTURE),
         (''L'', test_request MEDIA_GENERATE_STREAM MEDIA_DEVICE_AUDIO_CAPTURE MEDIA_NO_SERVICE)])
     ''L'' =
     Some (manager_with
        [(''K'', test_request MEDIA_OPEN_DEVICE MEDIA_NO_SERVICE MEDIA_DEVICE_VIDEO_CAPTURE)]) \<and>
   (\<exists>m'. play test_env
            (manager_with
               [(''K'', test_request MEDIA_OPEN_DEVICE MEDIA_NO_SERVICE
                          MEDIA_DEVICE_VIDEO_CAPTURE)])
            later_events = Some m' \<and>
       map fst (requests m') = [''M''] \<and>
       FindRequest m' ''L'' = None \<and>
       SetupRequest test_env m' ''L'' = Some m' \<and>
       DoEnumerateDevices test_env m' ''L'' = Some m' \<and>
       HandleAccessRequestResponse test_env m' ''L''
         [test_device MEDIA_DEVICE_AUDIO_CAPTURE ''mic''] = Some m' \<and>
       StopMediaStreamFromBrowser test_env m' ''L'' = Some m')"
proof -
  let ?k = "(''K'', test_request MEDIA_OPEN_DEVICE MEDIA_NO_SERVICE MEDIA_DEVICE_VIDEO_CAPTURE)"
  let ?l = "(''L'', test_request MEDIA_GENERATE_STREAM MEDIA_DEVICE_AUDIO_CAPTURE MEDIA_NO_SERVICE)"
  have del: "DeleteRequest (manager_with [?k, ?l]) ''L'' = Some (manager_with [?k])"
    by (simp add: DeleteRequest_def FindRequest_def manager_with_def MediaStreamManager_new_def)
  from removed_label_callbacks_are_noops
         [of "manager_with [?k, ?l]" "''L''" "manager_with [?k]", THEN conjunct1] del
  have absent: "FindRequest (manager_with [?k]) ''L'' = None" by simp
  have "map_option (\<lambda>m. map fst (requests m)) (play test_env (manager_with [?k]) later_events) =
        Some [''M'']"
    by code_simp
  then obtain m' where
    run: "play test_env (manager_with [?k]) later_events = Some m'"
    and labels: "map fst (requests m') = [''M'']"
    by auto
  have fresh: "list_all (\<lambda>ev. \<not> issues ev ''L'') later_events"
    by (simp add: later_events_def)
  from removed_label_callbacks_are_noops
         [of _ "''L''" "manager_with [?k]" test_env later_events m'
            "[test_device MEDIA_DEVICE_AUDIO_CAPTURE ''mic'']", THEN conjunct2]
    absent run fresh
  have "FindRequest m' ''L'' = None \<and>
       SetupRequest test_env m' ''L'' = Some m' \<and>
       DoEnumerateDevices test_env m' ''L'' = Some m' \<and>
       HandleAccessRequestResponse test_env m' ''L''
         [test_device MEDIA_DEVICE_AUDIO_CAPTURE ''mic''] = Some m' \<and>
       StopMediaStreamFromBrowser test_env m' ''L'' = Some m'"
    by blast
  with del run labels show ?thesis by auto
qed

lemma FindExistingRequestedDeviceInfo_loop_type:
  "FindExistingRequestedDeviceInfo_loop nr sid t ps = Some ex \<Longrightarrow>
   device_type (device (fst ex)) = t"
  by (induction ps) (auto split: if_splits option.splits simp: find_Some_iff)

lemma manager_kinds_ok_HandleAccessRequestResponse_devices:
  "manager_kinds_ok m \<Longrightarrow>
   (\<And>r. FindRequest m l = Some r \<Longrightarrow>
      list_all (\<lambda>dev. device_type dev \<noteq> NUM_MEDIA_TYPES \<and>
                      Requested (request r) (device_type dev)) devs) \<Longrightarrow>
   HandleAccessRequestResponse_devices E m l fa fv devs = Some res \<Longrightarrow>
   manager_kinds_ok (fst res)"
proof (induction devs arbitrary: m fa fv)
  case Nil
  then show ?case by auto
next
  case (Cons dev0 devs)
  from Cons.prems(3) obtain r where r: "FindRequest m l = Some r"
    by (auto split: option.splits)
  from Cons.prems(1) r have rok: "request_kinds_ok r" by (rule manager_kinds_ok_find)
  from Cons.prems(2) [OF r] have t: "device_type dev0 \<noteq> NUM_MEDIA_TYPES"
    "Requested (request r) (device_type dev0)"
    and rest: "list_all (\<lambda>dev. device_type dev \<noteq> NUM_MEDIA_TYPES \<and>
                                Requested (request r) (device_type dev)) devs"
    by simp_all
  let ?dev = "prepare_device E r dev0"
  from Cons.prems(3) r obtain info s es fa' fv' where
    info: "device_type (device info) = device_type dev0"
    and run: "HandleAccessRequestResponse_devices E
               (emit es (store_request l
                  (fst (SetState E (r\<lparr>devices := devices r @ [info]\<rparr>)
                          (device_type (device info)) s)) m)) l fa' fv' devs = Some res"
  proof (cases "if request_type (request r) = MEDIA_GENERATE_STREAM
                then FindExistingRequestedDeviceInfo E m r ?dev else None")
    case None
    let ?info = "\<lparr>device = TranslateDeviceIdToSourceId E r ?dev,
                  session_id = provider_Open E (effects m) ?dev\<rparr>"
    let ?st = "SetState E (r\<lparr>devices := devices r @ [?info]\<rparr>)
                 (device_type (device ?info)) MEDIA_REQUEST_STATE_OPENING"
    have ty: "device_type (device ?info) = device_type dev0"
      by (simp add: TranslateDeviceIdToSourceId_def)
    from Cons.prems(3) r None
    have "HandleAccessRequestResponse_devices E
            (emit (ProviderOpen ?dev (provider_Open E (effects m) ?dev) # snd ?st)
               (store_request l (fst ?st) m))
            l (fa \<or> device_type ?dev = audio_type (request r))
            (fv \<or> (device_type ?dev \<noteq> audio_type (request r) \<and>
                    device_type ?dev = video_type (request r))) devs = Some res"
      by (simp add: Let_def split: if_splits)
    with ty show ?thesis by (rule that)
  next
    case (Some ex)
    let ?st = "SetState E (r\<lparr>devices := devices r @ [fst ex]\<rparr>)
                 (device_type (device (fst ex))) (snd ex)"
    from Some have ty: "device_type (device (fst ex)) = device_type dev0"
      by (auto simp: FindExistingRequestedDeviceInfo_def split: if_splits
          dest: FindExistingRequestedDeviceInfo_loop_type)
    from Cons.prems(3) r Some
    have "HandleAccessRequestResponse_devices E
            (emit (snd ?st) (store_request l (fst ?st) m))
            l (fa \<or> device_type ?dev = audio_type (request r))
            (fv \<or> (device_type ?dev \<noteq> audio_type (request r) \<and>
                    device_type ?dev = video_type (request r))) devs = Some res"
      by (simp add: Let_def)
    with ty show ?thesis by (rule that)
  qed
  let ?r' = "fst (SetState E (r\<lparr>devices := devices r @ [info]\<rparr>) (device_type (device info)) s)"
  have "request_kinds_ok (r\<lparr>devices := devices r @ [info]\<rparr>)"
    using rok t info by (intro request_kinds_ok_devices) (auto simp: request_kinds_ok_def)
  then have r': "request_kinds_ok ?r'"
    using t info by (intro request_kinds_ok_SetState) simp_all
  have ok': "manager_kinds_ok (emit es (store_request l ?r' m))"
    using Cons.prems(1) r' by (simp add: manager_kinds_ok_store_request)
  show ?case
  proof (rule Cons.IH [OF ok' _ run])
    fix r0 assume "FindRequest (emit es (store_request l ?r' m)) l = Some r0"
    with r have "r0 = ?r'" by (simp add: FindRequest_store_request)
    with rest show "list_all (\<lambda>dev. device_type dev \<noteq> NUM_MEDIA_TYPES \<and>
                                     Requested (request r0) (device_type dev)) devs"
      by simp
  qed
qed

lemma manager_kinds_ok_HandleAccessRequestResponse:
  assumes ok: "manager_kinds_ok m"
    and adm: "admissible m (EvHandleAccessRequestResponse l devs)"
    and run: "HandleAccessRequestResponse E m l devs = Some m'"
  shows "manager_kinds_ok m'"
proof (cases "FindRequest m l")
  case None
  with ok run show ?thesis by (simp add: HandleAccessRequestResponse_def)
next
  case (Some r)
  show ?thesis
  proof (cases "request_type (request r) = MEDIA_DEVICE_ACCESS \<or> devs = []")
    case True
    with ok run Some show ?thesis
      by (auto simp: HandleAccessRequestResponse_def split: if_splits
          intro: manager_kinds_ok_FinalizeMediaAccessRequest manager_kinds_ok_FinalizeRequestFailed)
  next
    case False
    with run Some obtain res r1 where
      res: "HandleAccessRequestResponse_devices E m l False False devs = Some res"
      and r1: "FindRequest (fst res) l = Some r1"
      by (auto simp: HandleAccessRequestResponse_def split: option.splits)
    have ok1: "manager_kinds_ok (fst res)"
      by (rule manager_kinds_ok_HandleAccessRequestResponse_devices [OF ok _ res])
        (use adm Some in simp)
    from ok1 r1 have r1ok: "request_kinds_ok r1" by (rule manager_kinds_ok_find)
    let ?a = "if \<not> fst (snd res) \<and> IsAudioMediaType (audio_type (request r1))
              then SetState E r1 (audio_type (request r1)) MEDIA_REQUEST_STATE_ERROR
              else (r1, [])"
    let ?v = "if \<not> snd (snd res) \<and> IsVideoMediaType (video_type (request r1))
              then SetState E (fst ?a) (video_type (request r1)) MEDIA_REQUEST_STATE_ERROR
              else (fst ?a, [])"
    from r1ok have a: "request_kinds_ok (fst ?a)"
      by (simp add: request_kinds_ok_SetState audio_not_NUM Requested_def)
    then have v: "request_kinds_ok (fst ?v)"
      by (simp add: request_kinds_ok_SetState video_not_NUM Requested_def)
    let ?m1 = "emit (snd ?a @ snd ?v) (store_request l (fst ?v) (fst res))"
    have ok2: "manager_kinds_ok ?m1"
      using ok1 v by (simp add: manager_kinds_ok_store_request)
    from False have nf: "request_type (request r) \<noteq> MEDIA_DEVICE_ACCESS" "devs \<noteq> []"
      by simp_all
    show ?thesis
    proof (cases "RequestDone (fst ?v)")
      case notdone: False
      with run Some nf res r1 have "m' = ?m1"
        by (simp add: HandleAccessRequestResponse_def Let_def)
      with ok2 show ?thesis by simp
    next
      case isdone: True
      show ?thesis
      proof (cases "HandleRequestDone l (fst ?v)")
        case None
        with run Some nf res r1 isdone show ?thesis
          by (simp add: HandleAccessRequestResponse_def Let_def)
      next
        case (Some es)
        with run \<open>FindRequest m l = Some r\<close> nf res r1 isdone have "m' = emit es ?m1"
          by (simp add: HandleAccessRequestResponse_def Let_def)
        with ok2 show ?thesis by simp
      qed
    qed
  qed
qed

end
